theory Spec2Isabelle
  imports Complex_Main "HOL-Library.AList" "HOL-Library.Sublist"
begin

section \<open>Values of the Python runtime\<close>

text \<open>
  Both scripts work on what \<^verbatim>\<open>json.load\<close>, \<^verbatim>\<open>ndjson.load\<close> and
  \<^verbatim>\<open>csv.DictReader\<close> return: nested dictionaries, lists, strings, numbers, booleans
  and \<^verbatim>\<open>None\<close>. A dictionary is an association list in insertion order (a Python
  \<^verbatim>\<open>dict\<close> keeps it), looked up with \<open>map_of\<close>, stored into with
  \<open>AList.update\<close> (in place for a key that is there, at the end for a new one, as
  \<^verbatim>\<open>d[k] = v\<close> does) and iterated in list order; the keys of a dictionary are
  distinct.

  A float is the rational number it denotes, an infinity or NaN (\<^verbatim>\<open>json.load\<close>
  reads the literals \<^verbatim>\<open>Infinity\<close>, \<^verbatim>\<open>-Infinity\<close> and \<^verbatim>\<open>NaN\<close>, and a product or a
  sum can overflow). Every arithmetic operation on finite floats rounds its exact result
  to a double, which may be an infinity; that rounding is the parameter \<open>rnd\<close> of the
  runtime, so nothing below depends on how doubles round. The one thing the model leaves
  out is the sign of a zero.
\<close>

datatype pyfloat = Fin rat | PosInf | NegInf | NaN

datatype json =
    JNull
  | JBool bool
  | JInt int
  | JFloat pyfloat
  | JStr string
  | JArr "json list"
  | JObj "(string \<times> json) list"

type_synonym pydict = "(string \<times> json) list"

datatype py_error =
    KeyError string
  | TypeError
  | AttributeError
  | ValueError
  | ZeroDivisionError
  | OverflowError
  | FileNotFoundError

text \<open>
  What the interpreter supplies and the scripts only call: the rounding of an exact
  result to a double (an infinity when the result is out of range), and \<^verbatim>\<open>str()\<close>
  of a value that is not a string.
\<close>

record runtime =
  rnd :: "rat \<Rightarrow> pyfloat"
  py_str :: "json \<Rightarrow> string"

definition ebind :: "'e + 'a \<Rightarrow> ('a \<Rightarrow> 'e + 'b) \<Rightarrow> 'e + 'b" where
  "ebind m f = (case m of Inl e \<Rightarrow> Inl e | Inr x \<Rightarrow> f x)"

text \<open>A loop body run over a list, left to right; the first exception ends the loop.\<close>

fun emap :: "('a \<Rightarrow> 'e + 'b) \<Rightarrow> 'a list \<Rightarrow> 'e + 'b list" where
  "emap f [] = Inr []"
| "emap f (x # xs) =
     (case f x of
        Inl e \<Rightarrow> Inl e
      | Inr y \<Rightarrow> (case emap f xs of Inl e \<Rightarrow> Inl e | Inr ys \<Rightarrow> Inr (y # ys)))"

subsection \<open>Dictionary access\<close>

text \<open>\<^verbatim>\<open>x[k]\<close> with a string \<open>k\<close>: a dictionary answers or raises KeyError; a list, a
  string, a number or None raises TypeError.\<close>

fun getitem :: "json \<Rightarrow> string \<Rightarrow> py_error + json" where
  "getitem (JObj d) k = (case map_of d k of None \<Rightarrow> Inl (KeyError k) | Some v \<Rightarrow> Inr v)"
| "getitem _ k = Inl TypeError"

text \<open>\<^verbatim>\<open>x.get(k)\<close>: only a dictionary has the method.\<close>

fun get_method :: "json \<Rightarrow> string \<Rightarrow> py_error + json" where
  "get_method (JObj d) k = Inr (case map_of d k of None \<Rightarrow> JNull | Some v \<Rightarrow> v)"
| "get_method _ k = Inl AttributeError"

text \<open>\<^verbatim>\<open>x.items()\<close>: only a dictionary has the method.\<close>

fun items_method :: "json \<Rightarrow> py_error + pydict" where
  "items_method (JObj d) = Inr d"
| "items_method _ = Inl AttributeError"

text \<open>\<^verbatim>\<open>for t in x\<close>: a list gives its elements, a dictionary its keys, a string its
  characters; anything else is not iterable.\<close>

fun py_iter :: "json \<Rightarrow> py_error + json list" where
  "py_iter (JArr xs) = Inr xs"
| "py_iter (JObj d) = Inr (map (\<lambda>kv. JStr (fst kv)) d)"
| "py_iter (JStr s) = Inr (map (\<lambda>c. JStr [c]) s)"
| "py_iter _ = Inl TypeError"

text \<open>\<^verbatim>\<open>k in x\<close> with a string \<open>k\<close>: key membership in a dictionary, element
  membership in a list, substring test in a string.\<close>

fun py_contains :: "string \<Rightarrow> json \<Rightarrow> py_error + bool" where
  "py_contains k (JObj d) = Inr (map_of d k \<noteq> None)"
| "py_contains k (JArr xs) = Inr (JStr k \<in> set xs)"
| "py_contains k (JStr s) = Inr (sublist k s)"
| "py_contains k _ = Inl TypeError"

subsection \<open>Numbers\<close>

datatype pynum = PInt int | PFloat pyfloat

text \<open>\<^verbatim>\<open>bool\<close> is a subclass of \<^verbatim>\<open>int\<close>: True counts as 1 and False as 0.\<close>

fun num_of :: "json \<Rightarrow> pynum option" where
  "num_of (JBool b) = Some (PInt (if b then 1 else 0))"
| "num_of (JInt i) = Some (PInt i)"
| "num_of (JFloat x) = Some (PFloat x)"
| "num_of _ = None"

definition is_number :: "json \<Rightarrow> bool" where
  "is_number v = (num_of v \<noteq> None)"

text \<open>An integer becomes a float where it meets one: the nearest double, or OverflowError
  when the integer is too large for a double.\<close>

fun to_float :: "runtime \<Rightarrow> pynum \<Rightarrow> py_error + pyfloat" where
  "to_float rt (PInt i) = (case rnd rt (of_int i) of Fin r \<Rightarrow> Inr (Fin r) | _ \<Rightarrow> Inl OverflowError)"
| "to_float rt (PFloat x) = Inr x"

text \<open>The arithmetic of floats: finite operands give the rounded exact result; NaN gives
  NaN; an infinity keeps its rule of signs, and gives NaN where there is no limit.\<close>

fun fsign :: "pyfloat \<Rightarrow> int" where
  "fsign (Fin r) = (if 0 < r then 1 else if r < 0 then - 1 else 0)"
| "fsign PosInf = 1"
| "fsign NegInf = - 1"
| "fsign NaN = 0"

fun fmul :: "runtime \<Rightarrow> pyfloat \<Rightarrow> pyfloat \<Rightarrow> pyfloat" where
  "fmul rt (Fin x) (Fin y) = rnd rt (x * y)"
| "fmul rt NaN y = NaN"
| "fmul rt x NaN = NaN"
| "fmul rt x y =
     (if x = Fin 0 \<or> y = Fin 0 then NaN else if fsign x = fsign y then PosInf else NegInf)"

fun fadd :: "runtime \<Rightarrow> pyfloat \<Rightarrow> pyfloat \<Rightarrow> pyfloat" where
  "fadd rt (Fin x) (Fin y) = rnd rt (x + y)"
| "fadd rt NaN y = NaN"
| "fadd rt x NaN = NaN"
| "fadd rt PosInf NegInf = NaN"
| "fadd rt NegInf PosInf = NaN"
| "fadd rt PosInf y = PosInf"
| "fadd rt NegInf y = NegInf"
| "fadd rt x y = y"

text \<open>The quotient of two floats, the divisor not zero.\<close>

fun fdiv :: "runtime \<Rightarrow> pyfloat \<Rightarrow> pyfloat \<Rightarrow> pyfloat" where
  "fdiv rt (Fin x) (Fin y) = rnd rt (x / y)"
| "fdiv rt NaN y = NaN"
| "fdiv rt x NaN = NaN"
| "fdiv rt (Fin x) y = Fin 0"
| "fdiv rt x (Fin y) = (if fsign x = fsign (Fin y) then PosInf else NegInf)"
| "fdiv rt x y = NaN"

text \<open>
  True division of two numbers, always a float. Of two integers it is the correctly
  rounded quotient: ZeroDivisionError for a zero divisor, OverflowError for a quotient
  too large for a double. Otherwise both operands become floats first (OverflowError for
  an integer too large), then ZeroDivisionError for a zero divisor, then the quotient.
\<close>

fun num_truediv :: "runtime \<Rightarrow> pynum \<Rightarrow> pynum \<Rightarrow> py_error + pyfloat" where
  "num_truediv rt (PInt a) (PInt b) =
     (if b = 0 then Inl ZeroDivisionError
      else (case rnd rt (of_int a / of_int b) of Fin r \<Rightarrow> Inr (Fin r) | _ \<Rightarrow> Inl OverflowError))"
| "num_truediv rt x y =
     ebind (to_float rt x) (\<lambda>fx.
     ebind (to_float rt y) (\<lambda>fy.
     if fy = Fin 0 then Inl ZeroDivisionError else Inr (fdiv rt fx fy)))"

definition truediv :: "runtime \<Rightarrow> json \<Rightarrow> json \<Rightarrow> py_error + pyfloat" where
  "truediv rt a b =
     (case (num_of a, num_of b) of
        (Some x, Some y) \<Rightarrow> num_truediv rt x y
      | _ \<Rightarrow> Inl TypeError)"

text \<open>\<^verbatim>\<open>v * q\<close> where \<open>q\<close> is a float: defined on numbers only (a string or a list
  times a float is a TypeError); an integer becomes a float first; the product is a
  float, an infinity when it is out of range.\<close>

definition mul_float :: "runtime \<Rightarrow> json \<Rightarrow> pyfloat \<Rightarrow> py_error + pyfloat" where
  "mul_float rt v q =
     (case num_of v of
        Some x \<Rightarrow> ebind (to_float rt x) (\<lambda>fx. Inr (fmul rt fx q))
      | None \<Rightarrow> Inl TypeError)"

text \<open>\<^verbatim>\<open>round(x)\<close> of a float with no second argument: the nearest integer, the even
  one of the two when \<open>x\<close> lies halfway; OverflowError for an infinity and ValueError for
  NaN.\<close>

definition round_half_even :: "rat \<Rightarrow> int" where
  "round_half_even x =
     (let f = \<lfloor>x\<rfloor>; d = x - of_int f in
      if d < 1 / 2 then f
      else if 1 / 2 < d then f + 1
      else if even f then f else f + 1)"

fun py_round :: "pyfloat \<Rightarrow> py_error + int" where
  "py_round (Fin r) = Inr (round_half_even r)"
| "py_round NaN = Inl ValueError"
| "py_round x = Inl OverflowError"

text \<open>\<^verbatim>\<open>a + b\<close>: numbers add (two integers exactly, otherwise as floats, an integer
  too large for a double raising OverflowError), strings and lists concatenate,
  everything else is a TypeError.\<close>

fun num_add :: "runtime \<Rightarrow> pynum \<Rightarrow> pynum \<Rightarrow> py_error + json" where
  "num_add rt (PInt a) (PInt b) = Inr (JInt (a + b))"
| "num_add rt x y =
     ebind (to_float rt x) (\<lambda>fx.
     ebind (to_float rt y) (\<lambda>fy.
     Inr (JFloat (fadd rt fx fy))))"

definition py_add :: "runtime \<Rightarrow> json \<Rightarrow> json \<Rightarrow> py_error + json" where
  "py_add rt a b =
     (case (num_of a, num_of b) of
        (Some x, Some y) \<Rightarrow> num_add rt x y
      | _ \<Rightarrow>
        (case (a, b) of
           (JStr s, JStr t) \<Rightarrow> Inr (JStr (s @ t))
         | (JArr xs, JArr ys) \<Rightarrow> Inr (JArr (xs @ ys))
         | _ \<Rightarrow> Inl TypeError))"

text \<open>\<^verbatim>\<open>a += b\<close>: a list is extended in place by whatever \<open>b\<close> iterates over (the
  elements of a list, the keys of a dictionary, the characters of a string); every other
  value has no in-place addition and \<open>a + b\<close> is stored.\<close>

definition py_iadd :: "runtime \<Rightarrow> json \<Rightarrow> json \<Rightarrow> py_error + json" where
  "py_iadd rt a b =
     (case a of
        JArr xs \<Rightarrow> (case py_iter b of Inr ys \<Rightarrow> Inr (JArr (xs @ ys)) | Inl e \<Rightarrow> Inl TypeError)
      | _ \<Rightarrow> py_add rt a b)"

text \<open>\<^verbatim>\<open>x == True\<close>: numbers compare by value, so 1 and 1.0 equal True.\<close>

definition eq_True :: "json \<Rightarrow> bool" where
  "eq_True v =
     (case num_of v of
        Some (PInt i) \<Rightarrow> i = 1
      | Some (PFloat x) \<Rightarrow> x = Fin 1
      | None \<Rightarrow> False)"

text \<open>A value inside an f-string: a string as it is, anything else through
  \<^verbatim>\<open>str()\<close>.\<close>

definition py_format :: "runtime \<Rightarrow> json \<Rightarrow> string" where
  "py_format rt v = (case v of JStr s \<Rightarrow> s | _ \<Rightarrow> py_str rt v)"

section \<open>The writer of tabular files\<close>

text \<open>
  All four writers are \<^verbatim>\<open>csv.DictWriter(f, quoting=csv.QUOTE_NONNUMERIC,
  fieldnames=..., extrasaction='ignore')\<close>. For every name in \<open>fieldnames\<close> the writer
  takes \<^verbatim>\<open>rowdict.get(name, '')\<close>; keys of the row that are not in \<open>fieldnames\<close>
  are ignored. Under \<^verbatim>\<open>QUOTE_NONNUMERIC\<close> a field is quoted unless it is a number
  (an int, a float or a bool). The text of a field is the string itself, nothing for
  \<^verbatim>\<open>None\<close>, and \<^verbatim>\<open>str()\<close> of anything else.
\<close>

datatype csv_cell = Quoted string | Unquoted string

definition write_field :: "runtime \<Rightarrow> json \<Rightarrow> csv_cell" where
  "write_field rt v =
     (let txt = (case v of JStr s \<Rightarrow> s | JNull \<Rightarrow> [] | _ \<Rightarrow> py_str rt v) in
      if is_number v then Unquoted txt else Quoted txt)"

definition dict_to_list :: "string list \<Rightarrow> pydict \<Rightarrow> json list" where
  "dict_to_list fieldnames rowdict =
     map (\<lambda>k. case map_of rowdict k of None \<Rightarrow> JStr [] | Some v \<Rightarrow> v) fieldnames"

definition writerow :: "runtime \<Rightarrow> string list \<Rightarrow> pydict \<Rightarrow> csv_cell list" where
  "writerow rt fieldnames rowdict = map (write_field rt) (dict_to_list fieldnames rowdict)"

definition writeheader :: "runtime \<Rightarrow> string list \<Rightarrow> csv_cell list" where
  "writeheader rt fieldnames = writerow rt fieldnames (map (\<lambda>k. (k, JStr k)) fieldnames)"

text \<open>The characters of a record in the file: a quoted field stands between double quotes
  with every double quote inside it doubled, fields are separated by commas and the record
  ends with CR LF.\<close>

definition render_cell :: "csv_cell \<Rightarrow> string" where
  "render_cell c =
     (case c of
        Quoted s \<Rightarrow> [CHR 0x22] @ concat (map (\<lambda>ch. if ch = CHR 0x22 then [ch, ch] else [ch]) s) @ [CHR 0x22]
      | Unquoted s \<Rightarrow> s)"

fun join_with :: "string \<Rightarrow> string list \<Rightarrow> string" where
  "join_with sep [] = []"
| "join_with sep [x] = x"
| "join_with sep (x # y # ys) = x @ sep @ join_with sep (y # ys)"

definition render_row :: "csv_cell list \<Rightarrow> string" where
  "render_row cells = join_with '','' (map render_cell cells) @ [CHR 0x0D, CHR 0x0A]"

section \<open>Logs, manifest and files of a run\<close>

datatype level = INFO | ERROR

record run_state =
  exec_log :: "(level \<times> string) list"
  html_log :: "string list"
  attachments :: "json list"
  csv_files :: "(string \<times> csv_cell list list) list"

text \<open>How a script stops before its last line: \<^verbatim>\<open>sys.exit(n)\<close>, or an exception
  nothing catches (the interpreter then calls \<^verbatim>\<open>sys.excepthook\<close> and exits with
  status 1).\<close>

datatype abort = SysExit int | Uncaught py_error

definition log_info :: "string \<Rightarrow> run_state \<Rightarrow> run_state" where
  "log_info msg s = s\<lparr>exec_log := exec_log s @ [(INFO, msg)]\<rparr>"

definition log_error :: "string \<Rightarrow> run_state \<Rightarrow> run_state" where
  "log_error msg s = s\<lparr>exec_log := exec_log s @ [(ERROR, msg)]\<rparr>"

definition model_log_html :: "string \<Rightarrow> string \<Rightarrow> run_state \<Rightarrow> run_state" where
  "model_log_html line html_element s =
     s\<lparr>html_log := html_log s @
        [''<'' @ html_element @ ''>'' @ line @ ''</'' @ html_element @ ''>'']\<rparr>"

definition write_csv :: "runtime \<Rightarrow> string \<Rightarrow> string list \<Rightarrow> pydict list \<Rightarrow> run_state \<Rightarrow> run_state" where
  "write_csv rt name fieldnames rows s =
     s\<lparr>csv_files :=
        AList.update name (writeheader rt fieldnames # map (writerow rt fieldnames) rows) (csv_files s)\<rparr>"

definition terminate :: "abort \<Rightarrow> run_state \<Rightarrow> int \<times> run_state" where
  "terminate a s =
     (case a of
        SysExit n \<Rightarrow> (n, s)
      | Uncaught e \<Rightarrow> (1, log_error ''Uncaught exception:'' s))"

definition then_stage ::
  "(abort + 'a) \<times> run_state \<Rightarrow> ('a \<Rightarrow> run_state \<Rightarrow> (abort + 'b) \<times> run_state) \<Rightarrow> (abort + 'b) \<times> run_state" where
  "then_stage r f = (case r of (Inl a, s) \<Rightarrow> (Inl a, s) | (Inr x, s) \<Rightarrow> f x s)"

section \<open>The input pipeline\<close>

record inputs =
  html_clock :: string
  log_clock :: string
  params_file :: "json option"
  subadmin_file :: "json list option"
  demography_file :: "json list option"
  sample_file :: "json list option"

text \<open>
  The fields are what the run finds at its fixed paths: \<open>None\<close> for a file that is not
  there, otherwise its parsed content (a JSON document for the parameters, one JSON value
  per line for the other three). The two clocks are the two readings of
  \<^verbatim>\<open>datetime.now()\<close>, formatted.
\<close>

subsection \<open>Set-up of manifest and logs\<close>

definition attachment :: "string \<Rightarrow> string \<Rightarrow> string \<Rightarrow> json" where
  "attachment fname ctype role =
     JObj [(''filename'', JStr fname), (''content_type'', JStr ctype), (''role'', JStr role)]"

definition setup_run :: "inputs \<Rightarrow> run_state" where
  "setup_run inp =
     (let s0 = \<lparr>exec_log = [], html_log = [],
                 attachments =
                   [attachment ''execution_log.log'' ''text/plain'' ''downloadable'',
                    attachment ''info.html'' ''text/html'' ''feedback''],
                 csv_files = []\<rparr>;
          s1 = model_log_html ''Model Execution Summary'' ''h3'' s0;
          s2 = model_log_html ''Model: Simple Undetected Prevalence Estimator Model'' ''p'' s1;
          s3 = model_log_html (''Date: '' @ html_clock inp @ '' GMT'') ''p'' s2;
          s4 = log_info ''Model: Simple Undetected Prevalence Estimator Model'' s3;
          s5 = log_info (''Date: '' @ log_clock inp @ '' GMT'') s4
      in log_info ''This log records data for debugging purposes in the case of a model execution error.'' s5)"

subsection \<open>Process Parameters\<close>

text \<open>\<^verbatim>\<open>json_stringify\<close>: one line per key, a nested dictionary indented below its key.\<close>

fun format_helper :: "runtime \<Rightarrow> nat \<Rightarrow> nat \<Rightarrow> pydict \<Rightarrow> string list" where
  "format_helper rt indent lvl [] = []"
| "format_helper rt indent lvl ((k, v) # rest) =
     (case v of
        JObj d \<Rightarrow> (replicate lvl CHR '' '' @ k @ '':'') # format_helper rt indent (lvl + indent) d
      | _ \<Rightarrow> [replicate lvl CHR '' '' @ k @ '': '' @ py_format rt v])
     @ format_helper rt indent lvl rest"

definition json_stringify :: "runtime \<Rightarrow> pydict \<Rightarrow> string" where
  "json_stringify rt d = join_with [CHR 0x0A] (format_helper rt 3 3 d)"

definition provider_admin_area :: "json \<Rightarrow> py_error + json" where
  "provider_admin_area params =
     ebind (getitem params ''_provider'') (\<lambda>p.
     ebind (getitem p ''_administrative_area'') (\<lambda>a.
     getitem a ''administrative_area''))"

text \<open>\<^verbatim>\<open>del(x[k])\<close>.\<close>

fun delitem :: "json \<Rightarrow> string \<Rightarrow> py_error + pydict" where
  "delitem (JObj d) k = (if map_of d k = None then Inl (KeyError k) else Inr (AList.delete k d))"
| "delitem _ k = Inl TypeError"

definition stage_params :: "runtime \<Rightarrow> inputs \<Rightarrow> run_state \<Rightarrow> (abort + pydict) \<times> run_state" where
  "stage_params rt inp s =
     (case params_file inp of
        None \<Rightarrow>
          (Inl (SysExit 1),
           model_log_html ''Parameters (params.json) file not found.'' ''p''
             (model_log_html ''ERROR'' ''h4''
               (log_error ''params.json File does not exist.'' s)))
      | Some params \<Rightarrow>
          (let s1 = log_info ''Parameter file loaded successfully'' s in
           case provider_admin_area params of
             Inl e \<Rightarrow> (Inl (Uncaught e), s1)
           | Inr area \<Rightarrow>
               (let s2 = model_log_html (''Provider area: '' @ py_format rt area) ''p'' s1 in
                case delitem params ''_provider'' of
                  Inl e \<Rightarrow> (Inl (Uncaught e), s2)
                | Inr d \<Rightarrow>
                    (Inr d,
                     model_log_html (json_stringify rt d) ''p''
                       (model_log_html ''User provided parameters'' ''h4'' s2)))))"

definition stage_write_params :: "runtime \<Rightarrow> pydict \<Rightarrow> run_state \<Rightarrow> run_state" where
  "stage_write_params rt params s = write_csv rt ''params.csv'' [''alpha'', ''sensitivity''] [params] s"

subsection \<open>Process Subadmin Areas\<close>

definition project_area :: "json \<Rightarrow> py_error + pydict" where
  "project_area sa =
     ebind (getitem sa ''_id'') (\<lambda>i.
     ebind (getitem sa ''name'') (\<lambda>n.
     ebind (getitem sa ''full_name'') (\<lambda>f.
     ebind (getitem sa ''aland'') (\<lambda>a.
     Inr [(''_id'', i), (''name'', n), (''full_name'', f), (''aland'', a)]))))"

definition normalize_areas :: "json list \<Rightarrow> py_error + pydict list" where
  "normalize_areas subadmin_areas = emap project_area subadmin_areas"

definition area_fieldnames :: "string list" where
  "area_fieldnames = [''_id'', ''full_name'', ''name'', ''aland'']"

definition stage_areas :: "runtime \<Rightarrow> inputs \<Rightarrow> run_state \<Rightarrow> (abort + pydict list) \<times> run_state" where
  "stage_areas rt inp s =
     (case subadmin_file inp of
        None \<Rightarrow>
          (Inl (SysExit 1),
           model_log_html ''Subadmin areas (sub_administrative_area.ndJson) file was expected but not found.'' ''p''
             (model_log_html ''ERROR'' ''h4''
               (log_error ''sub_administrative_area.ndJson File does not exist.'' s)))
      | Some subadmin_areas \<Rightarrow>
          (let s1 = log_info ''sub_administrative_area.ndJson file loaded successfully'' s in
           case normalize_areas subadmin_areas of
             Inl e \<Rightarrow> (Inl (Uncaught e), s1)
           | Inr subadmin_areas_data \<Rightarrow>
               (Inr subadmin_areas_data,
                write_csv rt ''sub_administrative_area.csv'' area_fieldnames subadmin_areas_data s1)))"

subsection \<open>Process Demography: density to population\<close>

text \<open>The inner scan \<^verbatim>\<open>for sa in subadmin_areas_data: if sa.get('_id') == sa_id\<close>
  stops at the first area whose id equals the key.\<close>

definition find_area :: "pydict list \<Rightarrow> string \<Rightarrow> pydict option" where
  "find_area areas sa_id =
     find (\<lambda>sa. (case map_of sa ''_id'' of None \<Rightarrow> JNull | Some v \<Rightarrow> v) = JStr sa_id) areas"

text \<open>\<^verbatim>\<open>int(round(original_density_value * (sa['aland'] / 1_000_000)))\<close>;
  \<^verbatim>\<open>round\<close> of a float is already an integer, which \<^verbatim>\<open>int\<close> returns as it is.
  Each of the three operations can raise.\<close>

definition density_to_population :: "runtime \<Rightarrow> pydict \<Rightarrow> json \<Rightarrow> py_error + json" where
  "density_to_population rt sa original_density_value =
     ebind (getitem (JObj sa) ''aland'') (\<lambda>aland.
     ebind (truediv rt aland (JInt 1000000)) (\<lambda>aland_sq_km.
     ebind (mul_float rt original_density_value aland_sq_km) (\<lambda>p.
     ebind (py_round p) (\<lambda>new_total_population.
     Inr (JInt new_total_population)))))"

text \<open>The loop over \<^verbatim>\<open>demo['data'].items()\<close>: the first argument is what is left to
  visit, the second the dictionary as stored so far. Each key is visited once and only
  its own entry is assigned, so the value the loop sees is the one of the input.\<close>

fun convert_items :: "runtime \<Rightarrow> pydict list \<Rightarrow> pydict \<Rightarrow> pydict \<Rightarrow> py_error + pydict" where
  "convert_items rt areas [] d = Inr d"
| "convert_items rt areas ((sa_id, v) # rest) d =
     (case find_area areas sa_id of
        None \<Rightarrow> convert_items rt areas rest d
      | Some sa \<Rightarrow>
          (case density_to_population rt sa v of
             Inl e \<Rightarrow> Inl e
           | Inr n \<Rightarrow> convert_items rt areas rest (AList.update sa_id n d)))"

definition converted_label :: string where
  "converted_label = ''total population (converted from density)''"

fun convert_demo :: "runtime \<Rightarrow> pydict list \<Rightarrow> json \<Rightarrow> py_error + json" where
  "convert_demo rt areas (JObj d) =
     (if (case map_of d ''metric'' of None \<Rightarrow> JNull | Some v \<Rightarrow> v) = JStr ''deer density'' then
        ebind (getitem (JObj d) ''data'') (\<lambda>data.
        ebind (items_method data) (\<lambda>its.
        ebind (convert_items rt areas its its) (\<lambda>its'.
        Inr (JObj (AList.update ''metric'' (JStr converted_label)
                    (AList.update ''data'' (JObj its') d))))))
      else Inr (JObj d))"
| "convert_demo rt areas _ = Inl AttributeError"

definition convert_all :: "runtime \<Rightarrow> pydict list \<Rightarrow> json list \<Rightarrow> py_error + json list" where
  "convert_all rt areas demography = emap (convert_demo rt areas) demography"

subsection \<open>Process Demography: totals per area\<close>

definition agg_step :: "runtime \<Rightarrow> pydict \<Rightarrow> string \<times> json \<Rightarrow> py_error + pydict" where
  "agg_step rt acc kv =
     (case map_of acc (fst kv) of
        Some old \<Rightarrow> ebind (py_iadd rt old (snd kv)) (\<lambda>total. Inr (AList.update (fst kv) total acc))
      | None \<Rightarrow> Inr (AList.update (fst kv) (snd kv) acc))"

fun agg_items :: "runtime \<Rightarrow> pydict \<Rightarrow> pydict \<Rightarrow> py_error + pydict" where
  "agg_items rt acc [] = Inr acc"
| "agg_items rt acc (kv # rest) =
     (case agg_step rt acc kv of Inl e \<Rightarrow> Inl e | Inr acc' \<Rightarrow> agg_items rt acc' rest)"

fun aggregate :: "runtime \<Rightarrow> pydict \<Rightarrow> json list \<Rightarrow> py_error + pydict" where
  "aggregate rt acc [] = Inr acc"
| "aggregate rt acc (demo # rest) =
     (case ebind (getitem demo ''data'') items_method of
        Inl e \<Rightarrow> Inl e
      | Inr its \<Rightarrow>
          (case agg_items rt acc its of Inl e \<Rightarrow> Inl e | Inr acc' \<Rightarrow> aggregate rt acc' rest))"

definition demography_rows :: "pydict \<Rightarrow> pydict list" where
  "demography_rows demography_data_dict =
     map (\<lambda>kv. [(''_id'', JStr (fst kv)), (''value'', snd kv)]) demography_data_dict"

definition demo_log_line :: "runtime \<Rightarrow> json \<Rightarrow> py_error + string" where
  "demo_log_line rt demo =
     ebind (getitem demo ''species'') (\<lambda>sp.
     ebind (getitem demo ''metric'') (\<lambda>m.
     ebind (getitem demo ''season_year'') (\<lambda>y.
     Inr (py_format rt sp @ '' '' @ py_format rt m @ '' for season-year '' @ py_format rt y))))"

fun log_demography :: "runtime \<Rightarrow> json list \<Rightarrow> run_state \<Rightarrow> (abort + unit) \<times> run_state" where
  "log_demography rt [] s = (Inr (), s)"
| "log_demography rt (demo # rest) s =
     (case demo_log_line rt demo of
        Inl e \<Rightarrow> (Inl (Uncaught e), s)
      | Inr line \<Rightarrow> log_demography rt rest (model_log_html line ''p'' s))"

definition stage_demography ::
  "runtime \<Rightarrow> inputs \<Rightarrow> pydict list \<Rightarrow> run_state \<Rightarrow> (abort + unit) \<times> run_state" where
  "stage_demography rt inp subadmin_areas_data s =
     (case demography_file inp of
        None \<Rightarrow>
          (Inl (SysExit 1),
           model_log_html ''Demography (demography.json) file was expected but not found.'' ''p''
             (model_log_html ''ERROR'' ''h4''
               (log_error ''demography.json file does not exist.'' s)))
      | Some demography \<Rightarrow>
          (let s1 = log_info ''Demography file loaded successfully'' s in
           case convert_all rt subadmin_areas_data demography of
             Inl e \<Rightarrow> (Inl (Uncaught e), s1)
           | Inr demography' \<Rightarrow>
               (case aggregate rt [] demography' of
                  Inl e \<Rightarrow> (Inl (Uncaught e), s1)
                | Inr demography_data_dict \<Rightarrow>
                    then_stage (log_demography rt demography' (model_log_html ''Demographic data'' ''h4'' s1))
                      (\<lambda>_ s2. (Inr (),
                         write_csv rt ''demography.csv'' [''_id'', ''value'']
                           (demography_rows demography_data_dict) s2)))))"

subsection \<open>Process Samples\<close>

fun efilter :: "('a \<Rightarrow> 'e + bool) \<Rightarrow> 'a list \<Rightarrow> 'e + 'a list" where
  "efilter p [] = Inr []"
| "efilter p (x # xs) =
     (case p x of
        Inl e \<Rightarrow> Inl e
      | Inr b \<Rightarrow> (case efilter p xs of Inl e \<Rightarrow> Inl e | Inr ys \<Rightarrow> Inr (if b then x # ys else ys)))"

definition is_selected :: "json \<Rightarrow> py_error + bool" where
  "is_selected test = ebind (getitem test ''selected_definitive'') (\<lambda>v. Inr (eq_True v))"

text \<open>\<^verbatim>\<open>[test for test in sample_record["tests"] if test["selected_definitive"] == True]\<close>\<close>

definition tests_selected_definitive :: "json \<Rightarrow> py_error + json list" where
  "tests_selected_definitive sample_record =
     ebind (getitem sample_record ''tests'') (\<lambda>tests.
     ebind (py_iter tests) (\<lambda>ts. efilter is_selected ts))"

text \<open>The \<^verbatim>\<open>if\<close>/\<^verbatim>\<open>elif\<close> chain on the number of selected tests, in the order
  of the source: none, more than one (\<^verbatim>\<open>pass\<close>), exactly one.\<close>

fun resolve_result :: "json \<Rightarrow> py_error + pydict" where
  "resolve_result (JObj d) =
     ebind (tests_selected_definitive (JObj d)) (\<lambda>sel.
       if length sel = 0 then Inr (AList.update ''result'' JNull d)
       else if length sel > 1 then Inr d
       else if length sel = 1 then
         ebind (py_contains ''result'' (sel ! 0)) (\<lambda>has.
           if has then ebind (getitem (sel ! 0) ''result'') (\<lambda>r. Inr (AList.update ''result'' r d))
           else Inr (AList.update ''result'' JNull d))
       else Inr d)"
| "resolve_result _ = Inl TypeError"

definition resolve_area :: "pydict \<Rightarrow> py_error + pydict" where
  "resolve_area d =
     (case map_of d ''_sub_administrative_area'' of
        Some ref \<Rightarrow>
          ebind (py_contains ''_id'' ref) (\<lambda>has.
            if has then
              ebind (getitem ref ''_id'') (\<lambda>i. Inr (AList.update ''sub_administrative_area_id'' i d))
            else Inr (AList.update ''sub_administrative_area_id'' JNull d))
      | None \<Rightarrow> Inr (AList.update ''sub_administrative_area_id'' JNull d))"

text \<open>\<^verbatim>\<open>rename_key\<close>: \<^verbatim>\<open>dict_[new_key] = dict_.pop(old_key)\<close> when the old key is
  there.\<close>

definition rename_key :: "pydict \<Rightarrow> string \<Rightarrow> string \<Rightarrow> pydict" where
  "rename_key d old_key new_key =
     (case map_of d old_key of
        Some v \<Rightarrow> AList.update new_key v (AList.delete old_key d)
      | None \<Rightarrow> d)"

definition resolve_sample :: "json \<Rightarrow> py_error + pydict" where
  "resolve_sample sample_record =
     ebind (resolve_result sample_record) (\<lambda>d1.
     ebind (resolve_area d1) (\<lambda>d2.
     Inr (rename_key d2 ''_id'' ''id'')))"

definition sample_fieldnames :: "string list" where
  "sample_fieldnames =
     [''id'', ''species'', ''sample_source'', ''season_year'', ''age_group'', ''sex'', ''result'',
      ''sub_administrative_area_id'']"

definition stage_samples :: "runtime \<Rightarrow> inputs \<Rightarrow> run_state \<Rightarrow> (abort + unit) \<times> run_state" where
  "stage_samples rt inp s =
     (case sample_file inp of
        None \<Rightarrow>
          (Inl (SysExit 1),
           model_log_html ''Sample (sample.ndJson) file was expected but not found.'' ''p''
             (model_log_html ''ERROR'' ''h4''
               (log_error ''sample.ndJjon File does not exist.'' s)))
      | Some sample_data \<Rightarrow>
          (let s1 = log_info ''Sample file loaded successfully'' s in
           case emap resolve_sample sample_data of
             Inl e \<Rightarrow> (Inl (Uncaught e), s1)
           | Inr sample_data' \<Rightarrow>
               (Inr (), write_csv rt ''sample.csv'' sample_fieldnames sample_data' s1)))"

subsection \<open>The whole script\<close>

text \<open>The stages in the order of the source; the run ends at the first stage that stops
  it. The result is the exit status of the process and what the run has written.\<close>

definition input_pipeline :: "runtime \<Rightarrow> inputs \<Rightarrow> int \<times> run_state" where
  "input_pipeline rt inp =
     (case
        then_stage (stage_params rt inp (setup_run inp)) (\<lambda>params s1.
        then_stage (stage_areas rt inp s1) (\<lambda>subadmin_areas_data s2.
        then_stage (stage_demography rt inp subadmin_areas_data s2) (\<lambda>_ s3.
        then_stage (stage_samples rt inp s3) (\<lambda>_ s4.
        (Inr (), stage_write_params rt params s4)))))
      of
        (Inl a, s) \<Rightarrow> terminate a s
      | (Inr _, s) \<Rightarrow> (0, s))"

text \<open>The tabular files the script can write.\<close>

definition tabular_files :: "string list" where
  "tabular_files = [''sub_administrative_area.csv'', ''demography.csv'', ''sample.csv'', ''params.csv'']"

section \<open>The output pipeline\<close>

text \<open>
  \<^verbatim>\<open>csv.DictReader\<close> gives one dictionary per record of the model's table, keyed by
  the names of the header line. Every value is text, or \<^verbatim>\<open>None\<close> where a record
  has fewer fields than the header. (A record with more fields than the header, which
  puts the surplus under the key \<^verbatim>\<open>None\<close>, is not modelled.) The coercion replaces
  values in place, so a row holds text, \<^verbatim>\<open>None\<close>, integers and floats. Nothing
  here computes with a float, so its type is left open.
\<close>

type_synonym raw_row = "(string \<times> string option) list"

datatype 'f cell = CNone | CStr string | CInt int | CFloat 'f

type_synonym 'f row = "(string \<times> 'f cell) list"

definition from_reader :: "raw_row \<Rightarrow> 'f row" where
  "from_reader r = map (\<lambda>kv. (fst kv, case snd kv of None \<Rightarrow> CNone | Some s \<Rightarrow> CStr s)) r"

text \<open>
  The builtins \<^verbatim>\<open>int()\<close> and \<^verbatim>\<open>float()\<close>, which return a number or raise, and
  the text \<^verbatim>\<open>sys.excepthook\<close> logs for an exception.
\<close>

record 'f builtins =
  py_int :: "'f cell \<Rightarrow> py_error + int"
  py_float :: "'f cell \<Rightarrow> py_error + 'f"
  hook_text :: "py_error \<Rightarrow> string"

definition text_fields :: "string list" where
  "text_fields = [''SubAdminID'', ''SubAdminName'', ''Result'']"

definition integer_fields :: "string list" where
  "integer_fields = [''n'', ''N'']"

definition float_fields :: "string list" where
  "float_fields = [''bayes'', ''freq'', ''freq.se'']"

definition coerce_text :: "string \<Rightarrow> 'f row \<Rightarrow> py_error + 'f row" where
  "coerce_text each_field each_row =
     (case map_of each_row each_field of
        None \<Rightarrow> Inl (KeyError each_field)
      | Some v \<Rightarrow> Inr (if v = CStr ''NA'' then AList.update each_field CNone each_row else each_row))"

text \<open>The inner \<^verbatim>\<open>try\<close> catches ValueError only; any other exception of the builtin
  leaves the loop.\<close>

definition coerce_int :: "('f, 'z) builtins_scheme \<Rightarrow> string \<Rightarrow> 'f row \<Rightarrow> py_error + 'f row" where
  "coerce_int bi each_field each_row =
     (case map_of each_row each_field of
        None \<Rightarrow> Inl (KeyError each_field)
      | Some v \<Rightarrow>
          if v = CStr ''NA'' then Inr (AList.update each_field CNone each_row)
          else
            (case py_int bi v of
               Inr i \<Rightarrow> Inr (AList.update each_field (CInt i) each_row)
             | Inl e \<Rightarrow>
                 if e = ValueError then Inr (AList.update each_field CNone each_row) else Inl e))"

definition coerce_float :: "('f, 'z) builtins_scheme \<Rightarrow> string \<Rightarrow> 'f row \<Rightarrow> py_error + 'f row" where
  "coerce_float bi each_field each_row =
     (case map_of each_row each_field of
        None \<Rightarrow> Inl (KeyError each_field)
      | Some v \<Rightarrow>
          if v = CStr ''NA'' then Inr (AList.update each_field CNone each_row)
          else
            (case py_float bi v of
               Inr x \<Rightarrow> Inr (AList.update each_field (CFloat x) each_row)
             | Inl e \<Rightarrow>
                 if e = ValueError then Inr (AList.update each_field CNone each_row) else Inl e))"

fun efold :: "('a \<Rightarrow> 's \<Rightarrow> 'e + 's) \<Rightarrow> 'a list \<Rightarrow> 's \<Rightarrow> 'e + 's" where
  "efold f [] s = Inr s"
| "efold f (x # xs) s = (case f x s of Inl e \<Rightarrow> Inl e | Inr s' \<Rightarrow> efold f xs s')"

definition coerce_row :: "('f, 'z) builtins_scheme \<Rightarrow> 'f row \<Rightarrow> py_error + 'f row" where
  "coerce_row bi each_row =
     ebind (efold coerce_text text_fields each_row) (\<lambda>r1.
     ebind (efold (coerce_int bi) integer_fields r1) (\<lambda>r2.
     efold (coerce_float bi) float_fields r2))"

definition coerce_rows :: "('f, 'z) builtins_scheme \<Rightarrow> 'f row list \<Rightarrow> py_error + 'f row list" where
  "coerce_rows bi model_output_dictlist = emap (coerce_row bi) model_output_dictlist"

text \<open>\<^verbatim>\<open>add_item_to_json_file_list\<close> on the content of the manifest file (\<open>None\<close>: no
  such file); its handlers print and raise again.\<close>

definition add_item_to_json_file_list :: "json option \<Rightarrow> json \<Rightarrow> py_error + json" where
  "add_item_to_json_file_list content new_item =
     (case content of
        None \<Rightarrow> Inl FileNotFoundError
      | Some (JArr xs) \<Rightarrow> Inr (JArr (xs @ [new_item]))
      | Some _ \<Rightarrow> Inl ValueError)"

record 'f out_state =
  out_exec_log :: "(level \<times> string) list"
  out_html_log :: "string list"
  attachments_json :: "json option"
  output_json :: "'f row list option"

definition out_html :: "string \<Rightarrow> string \<Rightarrow> 'f out_state \<Rightarrow> 'f out_state" where
  "out_html line html_element s =
     s\<lparr>out_html_log := out_html_log s @
        [''<'' @ html_element @ ''>'' @ line @ ''</'' @ html_element @ ''>'']\<rparr>"

definition out_error :: "string \<Rightarrow> 'f out_state \<Rightarrow> 'f out_state" where
  "out_error msg s = s\<lparr>out_exec_log := out_exec_log s @ [(ERROR, msg)]\<rparr>"

text \<open>
  The script, from the state the earlier steps of the run left (both logs are appended
  to; \<open>output_json\<close> is \<open>None\<close> until the script writes the document) and the model's
  table (\<open>None\<close>: no such file). The result is the exit status and the state at the end.
\<close>

definition output_pipeline ::
  "('f, 'z) builtins_scheme \<Rightarrow> raw_row list option \<Rightarrow> 'f out_state \<Rightarrow> int \<times> 'f out_state" where
  "output_pipeline bi model_output s =
     (let s1 = out_html ''Model Exports'' ''h3'' s in
      case model_output of
        None \<Rightarrow> (1, out_error (hook_text bi FileNotFoundError) s1)
      | Some rows \<Rightarrow>
          (case coerce_rows bi (map from_reader rows) of
             Inl e \<Rightarrow>
               (1, out_html ''ERROR: Failed to create output file.'' ''p''
                     (out_error ''Failed to convert model output field value to floating point.'' s1))
           | Inr rows' \<Rightarrow>
               (let s2 = s1\<lparr>output_json := Some rows'\<rparr> in
                case add_item_to_json_file_list (attachments_json s2)
                       (attachment ''output.json'' ''application/json'' ''primary'') of
                  Inl e \<Rightarrow> (1, out_error (hook_text bi e) s2)
                | Inr a \<Rightarrow>
                    (0, out_html ''Model exports successfully created.'' ''p''
                          (s2\<lparr>attachments_json := Some a\<rparr>)))))"

section \<open>A runtime to evaluate examples with\<close>

text \<open>
  The theorems below hold for every runtime. To run the model on a concrete input one
  runtime is fixed here. Its arithmetic is exact: \<open>rnd\<close> returns the exact result, which is
  what a double does whenever the exact result is a double. Its \<^verbatim>\<open>str()\<close> prints
  integers in decimal, booleans and \<^verbatim>\<open>None\<close> by name and a float by its decimal digits
  (at most 17 after the point), as CPython prints the numbers of the examples; a list or a
  dictionary, which no example prints, is abbreviated. Its \<^verbatim>\<open>int()\<close> and
  \<^verbatim>\<open>float()\<close> read decimal numerals with an optional minus sign (and an optional
  point for \<^verbatim>\<open>float()\<close>), raise ValueError on any other text and TypeError on
  \<^verbatim>\<open>None\<close>.
\<close>

fun nat_str :: "nat \<Rightarrow> string" where
  "nat_str n = (if n < 10 then [''0123456789'' ! n] else nat_str (n div 10) @ [''0123456789'' ! (n mod 10)])"

declare nat_str.simps [simp del]

definition int_str :: "int \<Rightarrow> string" where
  "int_str i = (if i < 0 then ''-'' @ nat_str (nat (- i)) else nat_str (nat i))"

fun frac_digits :: "nat \<Rightarrow> rat \<Rightarrow> string" where
  "frac_digits 0 r = []"
| "frac_digits (Suc k) r =
     (if r = 0 then []
      else (let d = \<lfloor>r * 10\<rfloor> in ''0123456789'' ! nat d # frac_digits k (r * 10 - of_int d)))"

definition float_str :: "rat \<Rightarrow> string" where
  "float_str r =
     (let a = \<bar>r\<bar>; w = \<lfloor>a\<rfloor>; fr = frac_digits 17 (a - of_int w) in
      (if r < 0 then ''-'' else []) @ nat_str (nat w) @ ''.'' @ (if fr = [] then ''0'' else fr))"

fun ref_str :: "json \<Rightarrow> string" where
  "ref_str JNull = ''None''"
| "ref_str (JBool b) = (if b then ''True'' else ''False'')"
| "ref_str (JInt i) = int_str i"
| "ref_str (JFloat (Fin r)) = float_str r"
| "ref_str (JFloat PosInf) = ''inf''"
| "ref_str (JFloat NegInf) = ''-inf''"
| "ref_str (JFloat NaN) = ''nan''"
| "ref_str (JStr s) = s"
| "ref_str (JArr xs) = ''[...]''"
| "ref_str (JObj d) = ''{...}''"

definition ref_runtime :: runtime where
  "ref_runtime = \<lparr>rnd = Fin, py_str = ref_str\<rparr>"

definition digit_val :: "char \<Rightarrow> nat option" where
  "digit_val c =
     map_of [(CHR ''0'', 0), (CHR ''1'', 1), (CHR ''2'', 2), (CHR ''3'', 3), (CHR ''4'', 4),
             (CHR ''5'', 5), (CHR ''6'', 6), (CHR ''7'', 7), (CHR ''8'', 8), (CHR ''9'', 9)] c"

fun read_digits :: "nat \<Rightarrow> string \<Rightarrow> nat option" where
  "read_digits acc [] = Some acc"
| "read_digits acc (c # cs) =
     (case digit_val c of None \<Rightarrow> None | Some d \<Rightarrow> read_digits (acc * 10 + d) cs)"

definition read_nat :: "string \<Rightarrow> nat option" where
  "read_nat s = (if s = [] then None else read_digits 0 s)"

definition read_int :: "string \<Rightarrow> int option" where
  "read_int s =
     (case s of
        c # cs \<Rightarrow>
          if c = CHR ''-'' then map_option (\<lambda>n. - int n) (read_nat cs)
          else map_option int (read_nat s)
      | [] \<Rightarrow> None)"

definition read_float :: "string \<Rightarrow> rat option" where
  "read_float s =
     (let body = (if s \<noteq> [] \<and> hd s = CHR ''-'' then tl s else s);
          w = takeWhile (\<lambda>c. c \<noteq> CHR ''.'') body;
          fr = drop (Suc (length w)) body
      in case (if w = [] \<and> fr \<noteq> [] then Some 0 else read_nat w,
               if fr = [] then Some 0 else read_nat fr) of
           (Some a, Some b) \<Rightarrow>
             Some ((if s \<noteq> [] \<and> hd s = CHR ''-'' then - 1 else 1) *
                   (of_nat a + of_nat b / 10 ^ length fr))
         | _ \<Rightarrow> None)"

fun ref_int :: "rat cell \<Rightarrow> py_error + int" where
  "ref_int (CStr s) = (case read_int s of None \<Rightarrow> Inl ValueError | Some i \<Rightarrow> Inr i)"
| "ref_int (CInt i) = Inr i"
| "ref_int (CFloat x) = Inr (if x < 0 then - \<lfloor>- x\<rfloor> else \<lfloor>x\<rfloor>)"
| "ref_int CNone = Inl TypeError"

fun ref_float :: "rat cell \<Rightarrow> py_error + rat" where
  "ref_float (CStr s) = (case read_float s of None \<Rightarrow> Inl ValueError | Some x \<Rightarrow> Inr x)"
| "ref_float (CInt i) = Inr (of_int i)"
| "ref_float (CFloat x) = Inr x"
| "ref_float CNone = Inl TypeError"

definition ref_builtins :: "rat builtins" where
  "ref_builtins = \<lparr>py_int = ref_int, py_float = ref_float, hook_text = (\<lambda>e. ''uncaught exception'')\<rparr>"

section \<open>Notions the properties are stated with\<close>

subsection \<open>Inputs as the data model has them\<close>

text \<open>A raw area record with the four required fields; the id a normalized area is
  matched by.\<close>

fun has_area_fields :: "json \<Rightarrow> bool" where
  "has_area_fields (JObj d) =
     (map_of d ''_id'' \<noteq> None \<and> map_of d ''name'' \<noteq> None \<and>
      map_of d ''full_name'' \<noteq> None \<and> map_of d ''aland'' \<noteq> None)"
| "has_area_fields _ = False"

definition area_id :: "pydict \<Rightarrow> json" where
  "area_id sa = (case map_of sa ''_id'' of None \<Rightarrow> JNull | Some v \<Rightarrow> v)"

text \<open>A test as the data model has it: a dictionary whose \<^verbatim>\<open>selected_definitive\<close> is
  a boolean; and a test whose flag is true.\<close>

fun is_test :: "json \<Rightarrow> bool" where
  "is_test (JObj td) = (case map_of td ''selected_definitive'' of Some (JBool b) \<Rightarrow> True | _ \<Rightarrow> False)"
| "is_test _ = False"

fun flagged :: "json \<Rightarrow> bool" where
  "flagged (JObj td) = (map_of td ''selected_definitive'' = Some (JBool True))"
| "flagged _ = False"

subsection \<open>Totals\<close>

text \<open>
  To state what the aggregation computes: the items of all records in the order the loops
  visit them; the keys of a list in the order of their first occurrence (\<open>add_key\<close> is
  how one more key extends them); the values a key has among the items; and a sum taken
  from the left, as repeated \<^verbatim>\<open>+=\<close> takes it.
\<close>

definition data_items :: "json \<Rightarrow> pydict" where
  "data_items demo = (case ebind (getitem demo ''data'') items_method of Inr its \<Rightarrow> its | Inl e \<Rightarrow> [])"

definition all_items :: "json list \<Rightarrow> pydict" where
  "all_items demography = concat (map data_items demography)"

definition first_seen :: "'a list \<Rightarrow> 'a list" where
  "first_seen xs = rev (remdups (rev xs))"

definition add_key :: "'a list \<Rightarrow> 'a \<Rightarrow> 'a list" where
  "add_key ks k = (if k \<in> set ks then ks else ks @ [k])"

definition values_for :: "string \<Rightarrow> pydict \<Rightarrow> json list" where
  "values_for k its = map snd (filter (\<lambda>kv. fst kv = k) its)"

fun sum_from :: "runtime \<Rightarrow> json \<Rightarrow> json list \<Rightarrow> py_error + json" where
  "sum_from rt acc [] = Inr acc"
| "sum_from rt acc (v # vs) = (case py_iadd rt acc v of Inl e \<Rightarrow> Inl e | Inr s \<Rightarrow> sum_from rt s vs)"

subsection \<open>Tables\<close>

text \<open>
  A quoted field; a table all of whose fields are quoted; and a field of the parameter
  set that appears in a parameters file: its name is in the header and its value, as the
  writer writes it, stands below the name.
\<close>

definition is_quoted :: "csv_cell \<Rightarrow> bool" where
  "is_quoted c = (case c of Quoted s \<Rightarrow> True | Unquoted s \<Rightarrow> False)"

definition all_quoted :: "csv_cell list list \<Rightarrow> bool" where
  "all_quoted tab = list_all (list_all is_quoted) tab"

definition field_written :: "runtime \<Rightarrow> csv_cell list list \<Rightarrow> string \<Rightarrow> json \<Rightarrow> bool" where
  "field_written rt tab k v =
     (case tab of
        [header, row] \<Rightarrow> (Quoted k, write_field rt v) \<in> set (zip header row)
      | _ \<Rightarrow> False)"

subsection \<open>Rows of the model's table\<close>

text \<open>
  To state the coercion: a row that holds text under a field; a builtin that, given text,
  returns or raises ValueError (as \<^verbatim>\<open>int()\<close> and \<^verbatim>\<open>float()\<close> do); and what a text
  cell of each kind of field is to become.
\<close>

definition text_at :: "'f row \<Rightarrow> string \<Rightarrow> bool" where
  "text_at r f = (case map_of r f of Some (CStr s) \<Rightarrow> True | _ \<Rightarrow> False)"

definition only_ValueError :: "('f cell \<Rightarrow> py_error + 'a) \<Rightarrow> bool" where
  "only_ValueError conv = (\<forall>s. case conv (CStr s) of Inl e \<Rightarrow> e = ValueError | Inr x \<Rightarrow> True)"

definition text_value :: "string \<Rightarrow> 'f cell" where
  "text_value s = (if s = ''NA'' then CNone else CStr s)"

definition int_value :: "('f, 'z) builtins_scheme \<Rightarrow> string \<Rightarrow> 'f cell" where
  "int_value bi s =
     (if s = ''NA'' then CNone else (case py_int bi (CStr s) of Inr i \<Rightarrow> CInt i | Inl e \<Rightarrow> CNone))"

definition float_value :: "('f, 'z) builtins_scheme \<Rightarrow> string \<Rightarrow> 'f cell" where
  "float_value bi s =
     (if s = ''NA'' then CNone else (case py_float bi (CStr s) of Inr x \<Rightarrow> CFloat x | Inl e \<Rightarrow> CNone))"

text \<open>A sample as the data model has it: a dictionary whose tests are a list of tests and
  whose reference to an area, when it has one, is a dictionary.\<close>

fun plain_sample :: "json \<Rightarrow> bool" where
  "plain_sample (JObj d) =
     ((case map_of d ''tests'' of Some (JArr ts) \<Rightarrow> list_all is_test ts | _ \<Rightarrow> False) \<and>
      (case map_of d ''_sub_administrative_area'' of None \<Rightarrow> True | Some (JObj a) \<Rightarrow> True | Some _ \<Rightarrow> False))"
| "plain_sample _ = False"

subsection \<open>Records the conversion gets through\<close>

text \<open>
  An entry of a density record converts when its key is the id of no area, or when for
  the first area with that id the quotient \<^verbatim>\<open>sa['aland'] / 1_000_000\<close> and the
  product with the value are both defined and the product is a finite float. A record
  is convertible when it is a dictionary and, if its metric is \<^verbatim>\<open>deer density\<close>, its
  data is a dictionary all of whose entries convert.
\<close>

definition converts :: "runtime \<Rightarrow> pydict list \<Rightarrow> string \<times> json \<Rightarrow> bool" where
  "converts rt areas kv =
     (case find_area areas (fst kv) of
        None \<Rightarrow> True
      | Some sa \<Rightarrow>
          (case map_of sa ''aland'' of
             None \<Rightarrow> False
           | Some a \<Rightarrow>
               (case truediv rt a (JInt 1000000) of
                  Inl e \<Rightarrow> False
                | Inr q \<Rightarrow> (case mul_float rt (snd kv) q of Inr (Fin p) \<Rightarrow> True | _ \<Rightarrow> False))))"

fun convertible :: "runtime \<Rightarrow> pydict list \<Rightarrow> json \<Rightarrow> bool" where
  "convertible rt areas (JObj d) =
     (if (case map_of d ''metric'' of None \<Rightarrow> JNull | Some v \<Rightarrow> v) = JStr ''deer density'' then
        (case map_of d ''data'' of Some (JObj its) \<Rightarrow> list_all (converts rt areas) its | _ \<Rightarrow> False)
      else True)"
| "convertible rt areas _ = False"

subsection \<open>Records the aggregation gets through\<close>

text \<open>
  A record whose data is a dictionary; and values that can be added up from the left, as
  repeated \<^verbatim>\<open>+=\<close> adds them, without an exception.
\<close>

fun has_data :: "json \<Rightarrow> bool" where
  "has_data (JObj d) = (case map_of d ''data'' of Some (JObj its) \<Rightarrow> True | _ \<Rightarrow> False)"
| "has_data _ = False"

definition summable :: "runtime \<Rightarrow> json list \<Rightarrow> bool" where
  "summable rt vs =
     (case vs of
        [] \<Rightarrow> True
      | v # rest \<Rightarrow> (case sum_from rt v rest of Inr t \<Rightarrow> True | Inl e \<Rightarrow> False))"

definition totals_defined :: "runtime \<Rightarrow> json list \<Rightarrow> bool" where
  "totals_defined rt demography =
     list_all (\<lambda>k. summable rt (values_for k (all_items demography))) (map fst (all_items demography))"

text \<open>A record of the model's table, as the reader hands it over, with text under all
  eight fields.\<close>

definition full_row :: "raw_row \<Rightarrow> bool" where
  "full_row r =
     list_all (\<lambda>f. case map_of r f of Some (Some t) \<Rightarrow> True | _ \<Rightarrow> False)
       (text_fields @ integer_fields @ float_fields)"

section \<open>Example inputs\<close>

subsection \<open>Areas\<close>

text \<open>Two raw records with the same id, the first with a field the normalizer drops; and
  three normalized areas, two of them with the id \<^verbatim>\<open>A\<close>.\<close>

definition two_areas :: "json list" where
  "two_areas =
     [JObj [(''_id'', JStr ''A''), (''name'', JStr ''Albany''), (''full_name'', JStr ''Albany County''),
            (''aland'', JInt 2000000), (''geoid'', JStr ''36001'')],
      JObj [(''aland'', JFloat (Fin (3 / 2))), (''_id'', JStr ''A''), (''name'', JNull),
            (''full_name'', JStr ''Albany again'')]]"

definition areas_only :: inputs where
  "areas_only = \<lparr>html_clock = [], log_clock = [], params_file = None,
     subadmin_file = Some two_areas, demography_file = None, sample_file = None\<rparr>"

definition area_A :: pydict where
  "area_A = [(''_id'', JStr ''A''), (''name'', JStr ''Albany''), (''full_name'', JStr ''Albany County''),
             (''aland'', JInt 2000000)]"

definition area_B :: pydict where
  "area_B = [(''_id'', JStr ''B''), (''name'', JStr ''Broome''), (''full_name'', JStr ''Broome County''),
             (''aland'', JFloat (Fin 1000000))]"

definition area_A2 :: pydict where
  "area_A2 = [(''_id'', JStr ''A''), (''name'', JStr ''Albany''), (''full_name'', JStr ''Albany again''),
             (''aland'', JInt 7000000)]"

subsection \<open>Demography and samples\<close>

text \<open>A density record with a key for each of the two area ids and a key \<^verbatim>\<open>Z\<close> that is
  the id of no area; a record of counts; three tests and a sample that has a result
  already.\<close>

definition density_record :: pydict where
  "density_record =
     [(''species'', JStr ''deer''), (''metric'', JStr ''deer density''), (''season_year'', JStr ''2024''),
      (''data'', JObj [(''A'', JFloat (Fin 5)), (''B'', JFloat (Fin (5 / 2))), (''Z'', JFloat (Fin 7))])]"

definition population_record :: "string \<Rightarrow> int \<Rightarrow> json" where
  "population_record k n =
     JObj [(''species'', JStr ''deer''), (''metric'', JStr ''total population''),
           (''season_year'', JStr ''2024''), (''data'', JObj [(k, JInt n)])]"

definition test_pos :: json where
  "test_pos = JObj [(''selected_definitive'', JBool True), (''result'', JStr ''positive'')]"

definition test_bare :: json where
  "test_bare = JObj [(''selected_definitive'', JBool True)]"

definition test_off :: json where
  "test_off = JObj [(''result'', JStr ''negative''), (''selected_definitive'', JBool False)]"

definition sample_with :: "json list \<Rightarrow> pydict" where
  "sample_with ts = [(''_id'', JStr ''s1''), (''result'', JStr ''old''), (''tests'', JArr ts)]"

subsection \<open>A whole run\<close>

text \<open>A parameter set with one parameter more than the two the model reads; a run with all
  four input files; and the same run without its parameters file.\<close>

definition full_params :: json where
  "full_params =
     JObj [(''_provider'', JObj [(''_administrative_area'', JObj [(''administrative_area'', JStr ''New York'')])]),
           (''alpha'', JFloat (Fin (1 / 20))), (''sensitivity'', JFloat (Fin (9 / 10))), (''beta'', JInt 3)]"

definition full_run :: inputs where
  "full_run =
     \<lparr>html_clock = ''2025-01-01 00:00:00'', log_clock = ''2025-01-01 00:00:00'',
      params_file = Some full_params,
      subadmin_file = Some [JObj area_A, JObj area_A2, JObj area_B],
      demography_file = Some [JObj density_record, population_record ''Z'' 3],
      sample_file = Some [JObj (sample_with [test_off, test_pos])]\<rparr>"

definition params_missing :: inputs where
  "params_missing = full_run\<lparr>params_file := None\<rparr>"

subsection \<open>The model's table\<close>

text \<open>A full row, a row of a table whose header has no \<^verbatim>\<open>freq.se\<close>, and the state
  the output script starts from.\<close>

definition example_row :: raw_row where
  "example_row =
     [(''SubAdminID'', Some ''36001''), (''SubAdminName'', Some ''Albany''), (''n'', Some ''NA''),
      (''N'', Some ''12''), (''bayes'', Some ''0.5''), (''freq'', Some ''abc''), (''freq.se'', Some ''NA''),
      (''Result'', Some ''NA'')]"

definition short_row :: raw_row where
  "short_row =
     [(''SubAdminID'', Some ''36003''), (''SubAdminName'', Some ''Allegany''), (''n'', Some ''4''),
      (''N'', Some ''40''), (''bayes'', Some ''0.1''), (''freq'', Some ''0.1''), (''Result'', Some ''ok'')]"

definition before_output :: "rat out_state" where
  "before_output =
     \<lparr>out_exec_log = [(INFO, ''Parameter file loaded successfully'')],
      out_html_log = [''<h3>Model Execution Summary</h3>''],
      attachments_json = Some (JArr []),
      output_json = None\<rparr>"

text \<open>Four samples: no test flagged, one flagged with a result, one flagged without a
  result, two flagged; and the state a run is in when it comes to its samples.\<close>

definition four_samples :: "json list" where
  "four_samples =
     [JObj (sample_with [test_off]), JObj (sample_with [test_off, test_pos]),
      JObj (sample_with [test_bare]), JObj (sample_with [test_pos, test_bare])]"

definition samples_run :: inputs where
  "samples_run = full_run\<lparr>sample_file := Some four_samples\<rparr>"

definition second_row :: raw_row where
  "second_row =
     [(''SubAdminID'', Some ''36003''), (''SubAdminName'', Some ''NA''), (''n'', Some ''12''),
      (''N'', Some ''abc''), (''bayes'', Some ''NA''), (''freq'', Some ''0.5''), (''freq.se'', Some ''abc''),
      (''Result'', Some ''ok''), (''note'', Some ''NA'')]"

section \<open>Properties\<close>

subsection \<open>Basic facts\<close>

lemma ebind_Inl [simp]: "ebind (Inl e) f = Inl e"
  by (simp add: ebind_def)

lemma ebind_Inr [simp]: "ebind (Inr x) f = f x"
  by (simp add: ebind_def)

lemma then_stage_Inl [simp]: "then_stage (Inl a, s) f = (Inl a, s)"
  by (simp add: then_stage_def)

lemma then_stage_Inr [simp]: "then_stage (Inr x, s) f = f x s"
  by (simp add: then_stage_def)

lemma csv_files_log_info [simp]: "csv_files (log_info m s) = csv_files s"
  by (simp add: log_info_def)

lemma csv_files_log_error [simp]: "csv_files (log_error m s) = csv_files s"
  by (simp add: log_error_def)

lemma csv_files_model_log_html [simp]: "csv_files (model_log_html l t s) = csv_files s"
  by (simp add: model_log_html_def)

lemma csv_files_setup_run [simp]: "csv_files (setup_run inp) = []"
  by (simp add: setup_run_def Let_def)

lemma exec_log_model_log_html [simp]: "exec_log (model_log_html l t s) = exec_log s"
  by (simp add: model_log_html_def)

lemma html_log_log_error [simp]: "html_log (log_error m s) = html_log s"
  by (simp add: log_error_def)

subsection \<open>Evaluating the examples\<close>

lemma nat_str_small: "n < 10 \<Longrightarrow> nat_str n = [''0123456789'' ! n]"
  by (simp add: nat_str.simps)

lemma nat_str_big: "\<not> n < 10 \<Longrightarrow> nat_str n = nat_str (n div 10) @ [''0123456789'' ! (n mod 10)]"
  by (subst nat_str.simps) simp

lemma floor_numeral_div: "\<lfloor>numeral a / numeral b :: rat\<rfloor> = numeral a div numeral b"
  using floor_divide_of_int_eq [of "numeral a" "numeral b", where ?'a = rat] by simp

lemma floor_one_div_numeral: "\<lfloor>1 / numeral b :: rat\<rfloor> = 1 div numeral b"
  using floor_divide_of_int_eq [of 1 "numeral b", where ?'a = rat] by simp

lemma frac_digits_numeral:
  "frac_digits (numeral k) r =
     (if r = 0 then []
      else (let d = \<lfloor>r * 10\<rfloor> in ''0123456789'' ! nat d # frac_digits (pred_numeral k) (r * 10 - of_int d)))"
  by (simp add: numeral_eq_Suc)

lemma ref_str_values:
  "py_str ref_runtime (JInt 2000000) = ''2000000''"
  "py_str ref_runtime (JInt 7000000) = ''7000000''"
  "py_str ref_runtime (JInt 10) = ''10''"
  "py_str ref_runtime (JInt 2) = ''2''"
  by (simp_all add: ref_runtime_def int_str_def nat_str_big nat_str_small)

lemma ref_str_floats:
  "py_str ref_runtime (JFloat (Fin 1000000)) = ''1000000.0''"
  "py_str ref_runtime (JFloat (Fin 10)) = ''10.0''"
  "py_str ref_runtime (JFloat (Fin (1 / 20))) = ''0.05''"
  "py_str ref_runtime (JFloat (Fin (9 / 10))) = ''0.9''"
  by (simp_all add: ref_runtime_def float_str_def Let_def nat_str_big nat_str_small
      frac_digits_numeral floor_numeral_div floor_one_div_numeral)

lemma write_field_2000000: "write_field ref_runtime (JInt 2000000) = Unquoted ''2000000''"
  by (simp add: write_field_def is_number_def ref_runtime_def int_str_def nat_str_big nat_str_small)

lemma write_field_three_halves: "write_field ref_runtime (JFloat (Fin (3 / 2))) = Unquoted ''1.5''"
  by (simp add: write_field_def is_number_def ref_runtime_def float_str_def Let_def nat_str_small
      eval_nat_numeral floor_numeral_div)

lemma write_field_JNull: "write_field rt JNull = Quoted []"
  by (simp add: write_field_def is_number_def)

lemma list2_eq: "length xs = 2 \<Longrightarrow> xs ! 0 = a \<Longrightarrow> xs ! 1 = b \<Longrightarrow> xs = [a, b]"
  by (cases xs; cases "tl xs") auto

lemma convert_all_example:
  "convert_all ref_runtime [area_A, area_A2, area_B] [JObj density_record, population_record ''Z'' 3] =
     Inr [JObj [(''species'', JStr ''deer''), (''metric'', JStr ''total population (converted from density)''),
                (''season_year'', JStr ''2024''),
                (''data'', JObj [(''A'', JInt 10), (''B'', JInt 2), (''Z'', JFloat (Fin 7))])],
          population_record ''Z'' 3]"
proof -
  have ra: "round_half_even 10 = 10"
    by (simp add: round_half_even_def)
  have rb: "round_half_even (5 / 2) = 2"
    by (simp add: round_half_even_def Let_def floor_numeral_div)
  have fa: "find_area [area_A, area_A2, area_B] ''A'' = Some area_A"
    and fb: "find_area [area_A, area_A2, area_B] ''B'' = Some area_B"
    and fz: "find_area [area_A, area_A2, area_B] ''Z'' = None"
    by (simp_all add: find_area_def area_A_def area_A2_def area_B_def)
  have pa: "density_to_population ref_runtime area_A (JFloat (Fin 5)) = Inr (JInt 10)"
    by (simp add: density_to_population_def truediv_def mul_float_def area_A_def ref_runtime_def ra)
  have pb: "density_to_population ref_runtime area_B (JFloat (Fin (5 / 2))) = Inr (JInt 2)"
    by (simp add: density_to_population_def truediv_def mul_float_def area_B_def ref_runtime_def rb)
  show ?thesis
    by (simp add: convert_all_def density_record_def population_record_def fa fb fz pa pb
        converted_label_def)
qed

lemma ref_builtins_only_ValueError:
  "only_ValueError (py_int ref_builtins)" "only_ValueError (py_float ref_builtins)"
  by (simp_all add: only_ValueError_def ref_builtins_def split: option.split)

lemma ref_int_12: "py_int ref_builtins (CStr ''12'') = Inr 12"
  by (simp add: ref_builtins_def read_int_def read_nat_def digit_val_def)

lemma ref_float_half: "py_float ref_builtins (CStr ''0.5'') = Inr (1 / 2)"
  by (simp add: ref_builtins_def read_float_def read_nat_def digit_val_def Let_def)

lemma ref_float_abc: "py_float ref_builtins (CStr ''abc'') = Inl ValueError"
  by (simp add: ref_builtins_def read_float_def read_nat_def digit_val_def Let_def)

subsection \<open>The parameters file is required\<close>

lemma stage_params_missing:
  "params_file inp = None \<Longrightarrow>
   stage_params rt inp s =
     (Inl (SysExit 1),
      model_log_html ''Parameters (params.json) file not found.'' ''p''
        (model_log_html ''ERROR'' ''h4'' (log_error ''params.json File does not exist.'' s)))"
  by (simp add: stage_params_def)

text \<open>
  C8. When there is no parameters file the input script exits with status 1, whatever
  the other input files hold; the last entry of the execution log is the error about
  \<^verbatim>\<open>params.json\<close>, the last line of the human-readable log says that the
  parameters file was not found, and the run has written no file: none of the four
  tabular files exists for it.
\<close>

theorem missing_params_file_exits_1:
  assumes "params_file inp = None"
  shows "fst (input_pipeline rt inp) = 1
       \<and> csv_files (snd (input_pipeline rt inp)) = []
       \<and> list_all (\<lambda>name. map_of (csv_files (snd (input_pipeline rt inp))) name = None) tabular_files
       \<and> last (exec_log (snd (input_pipeline rt inp))) = (ERROR, ''params.json File does not exist.'')
       \<and> last (html_log (snd (input_pipeline rt inp))) = ''<p>Parameters (params.json) file not found.</p>''"
proof -
  let ?s = "model_log_html ''Parameters (params.json) file not found.'' ''p''
        (model_log_html ''ERROR'' ''h4'' (log_error ''params.json File does not exist.'' (setup_run inp)))"
  have run: "input_pipeline rt inp = (1, ?s)"
    by (simp add: input_pipeline_def stage_params_missing [OF assms] terminate_def)
  have "csv_files ?s = []" by simp
  moreover have "last (exec_log ?s) = (ERROR, ''params.json File does not exist.'')"
    by (simp add: log_error_def)
  moreover have "last (html_log ?s) = ''<p>Parameters (params.json) file not found.</p>''"
    by (simp add: model_log_html_def)
  ultimately show ?thesis by (simp add: run tabular_files_def)
qed

theorem missing_params_file_exits_1_witness:
  "params_file params_missing = None
   \<and> subadmin_file params_missing = Some [JObj area_A, JObj area_A2, JObj area_B]
   \<and> fst (input_pipeline ref_runtime params_missing) = 1
   \<and> csv_files (snd (input_pipeline ref_runtime params_missing)) = []
   \<and> map_of (csv_files (snd (input_pipeline ref_runtime params_missing))) ''sub_administrative_area.csv'' = None
   \<and> last (exec_log (snd (input_pipeline ref_runtime params_missing))) =
       (ERROR, ''params.json File does not exist.'')
   \<and> last (html_log (snd (input_pipeline ref_runtime params_missing))) =
       ''<p>Parameters (params.json) file not found.</p>''"
proof -
  have h: "params_file params_missing = None" by (simp add: params_missing_def)
  have a: "subadmin_file params_missing = Some [JObj area_A, JObj area_A2, JObj area_B]"
    by (simp add: params_missing_def full_run_def)
  from missing_params_file_exits_1 [OF h, of ref_runtime] h a show ?thesis
    by (simp add: tabular_files_def)
qed

subsection \<open>The area normalizer\<close>

lemma emap_all_ok:
  "\<forall>x\<in>set xs. \<exists>y. f x = Inr y \<Longrightarrow>
   \<exists>ys. emap f xs = Inr ys \<and> length ys = length xs \<and> (\<forall>i<length xs. f (xs ! i) = Inr (ys ! i))"
proof (induction xs)
  case Nil
  then show ?case by simp
next
  case (Cons x xs)
  then obtain y where y: "f x = Inr y" by auto
  from Cons obtain ys where ys: "emap f xs = Inr ys" "length ys = length xs"
    "\<forall>i<length xs. f (xs ! i) = Inr (ys ! i)" by auto
  have "\<forall>i<length (x # xs). f ((x # xs) ! i) = Inr ((y # ys) ! i)"
    using y ys(3) by (auto simp: nth_Cons split: nat.splits)
  then show ?case using y ys by simp
qed

lemma project_area_ok:
  assumes "has_area_fields sa"
  shows "\<exists>a b c e. getitem sa ''_id'' = Inr a \<and> getitem sa ''name'' = Inr b \<and>
           getitem sa ''full_name'' = Inr c \<and> getitem sa ''aland'' = Inr e \<and>
           project_area sa = Inr [(''_id'', a), (''name'', b), (''full_name'', c), (''aland'', e)]"
proof (cases sa)
  case (JObj d)
  with assms show ?thesis by (auto simp: project_area_def)
qed (use assms in simp_all)

lemma write_field_JStr [simp]: "write_field rt (JStr s) = Quoted s"
  by (simp add: write_field_def is_number_def)

lemma writeheader_eq: "writeheader rt fieldnames = map Quoted fieldnames"
proof -
  have "map_of (map (\<lambda>k. (k, JStr k)) fieldnames) k = (if k \<in> set fieldnames then Some (JStr k) else None)" for k
    by (induction fieldnames) auto
  then show ?thesis
    by (simp add: writeheader_def writerow_def dict_to_list_def)
qed

lemma writerow_area:
  "writerow rt area_fieldnames [(''_id'', a), (''name'', b), (''full_name'', c), (''aland'', e)] =
     [write_field rt a, write_field rt c, write_field rt b, write_field rt e]"
  by (simp add: writerow_def dict_to_list_def area_fieldnames_def)

lemma map_of_update_same [simp]: "map_of (AList.update k v al) k = Some v"
  by (simp add: update_conv')

text \<open>
  C9. When every raw area record is a dictionary with the keys \<^verbatim>\<open>_id\<close>,
  \<^verbatim>\<open>name\<close>, \<^verbatim>\<open>full_name\<close> and \<^verbatim>\<open>aland\<close>, the normalizer yields one
  dictionary per record, in the order of the input, holding exactly these four keys with
  the record's values; the file written has the header and then one row per record, its
  columns in the fixed order \<^verbatim>\<open>_id, full_name, name, aland\<close>. Nothing is
  compared between records, so records with equal ids each keep their row.
\<close>

theorem areas_one_row_per_record:
  assumes "subadmin_file inp = Some raw" and "list_all has_area_fields raw"
  shows "\<exists>rows s' tab.
           stage_areas rt inp s = (Inr rows, s')
         \<and> map_of (csv_files s') ''sub_administrative_area.csv'' = Some tab
         \<and> length rows = length raw
         \<and> length tab = Suc (length raw)
         \<and> tab ! 0 = [Quoted ''_id'', Quoted ''full_name'', Quoted ''name'', Quoted ''aland'']
         \<and> (\<forall>i<length raw. \<exists>a b c e.
               getitem (raw ! i) ''_id'' = Inr a \<and> getitem (raw ! i) ''name'' = Inr b
             \<and> getitem (raw ! i) ''full_name'' = Inr c \<and> getitem (raw ! i) ''aland'' = Inr e
             \<and> rows ! i = [(''_id'', a), (''name'', b), (''full_name'', c), (''aland'', e)]
             \<and> tab ! Suc i = [write_field rt a, write_field rt c, write_field rt b, write_field rt e])"
proof -
  from assms(2) have "\<forall>x\<in>set raw. \<exists>y. project_area x = Inr y"
    using project_area_ok by (fastforce simp: list_all_iff)
  from emap_all_ok [OF this] obtain rows where rows: "emap project_area raw = Inr rows"
    "length rows = length raw" "\<forall>i<length raw. project_area (raw ! i) = Inr (rows ! i)"
    by blast
  let ?tab = "writeheader rt area_fieldnames # map (writerow rt area_fieldnames) rows"
  let ?s' = "write_csv rt ''sub_administrative_area.csv'' area_fieldnames rows
               (log_info ''sub_administrative_area.ndJson file loaded successfully'' s)"
  have run: "stage_areas rt inp s = (Inr rows, ?s')"
    using assms(1) rows(1) by (simp add: stage_areas_def normalize_areas_def)
  have tab: "map_of (csv_files ?s') ''sub_administrative_area.csv'' = Some ?tab"
    by (simp add: write_csv_def)
  have hdr: "?tab ! 0 = [Quoted ''_id'', Quoted ''full_name'', Quoted ''name'', Quoted ''aland'']"
    by (simp add: writeheader_eq area_fieldnames_def)
  have each: "\<exists>a b c e.
               getitem (raw ! i) ''_id'' = Inr a \<and> getitem (raw ! i) ''name'' = Inr b
             \<and> getitem (raw ! i) ''full_name'' = Inr c \<and> getitem (raw ! i) ''aland'' = Inr e
             \<and> rows ! i = [(''_id'', a), (''name'', b), (''full_name'', c), (''aland'', e)]
             \<and> ?tab ! Suc i = [write_field rt a, write_field rt c, write_field rt b, write_field rt e]"
    if i: "i < length raw" for i
  proof -
    from i assms(2) have "has_area_fields (raw ! i)" by (simp add: list_all_length)
    from project_area_ok [OF this] obtain a b c e where
      f: "getitem (raw ! i) ''_id'' = Inr a" "getitem (raw ! i) ''name'' = Inr b"
         "getitem (raw ! i) ''full_name'' = Inr c" "getitem (raw ! i) ''aland'' = Inr e"
         "project_area (raw ! i) = Inr [(''_id'', a), (''name'', b), (''full_name'', c), (''aland'', e)]"
      by blast
    with rows(3) i have r: "rows ! i = [(''_id'', a), (''name'', b), (''full_name'', c), (''aland'', e)]"
      by simp
    have "?tab ! Suc i = writerow rt area_fieldnames (rows ! i)"
      using i rows(2) by simp
    with r f show ?thesis by (simp add: writerow_area)
  qed
  show ?thesis
    using run tab rows(2) hdr each by (intro exI [of _ rows] exI [of _ ?s'] exI [of _ ?tab]) simp
qed

theorem areas_one_row_per_record_witness:
  "subadmin_file areas_only = Some two_areas \<and> list_all has_area_fields two_areas
   \<and> (\<exists>rows s' tab.
         stage_areas ref_runtime areas_only (setup_run areas_only) = (Inr rows, s')
       \<and> map_of (csv_files s') ''sub_administrative_area.csv'' = Some tab
       \<and> length rows = 2 \<and> length tab = 3
       \<and> tab ! 0 = [Quoted ''_id'', Quoted ''full_name'', Quoted ''name'', Quoted ''aland'']
       \<and> rows ! 0 = [(''_id'', JStr ''A''), (''name'', JStr ''Albany''), (''full_name'', JStr ''Albany County''), (''aland'', JInt 2000000)]
       \<and> rows ! 1 = [(''_id'', JStr ''A''), (''name'', JNull), (''full_name'', JStr ''Albany again''), (''aland'', JFloat (Fin (3 / 2)))]
       \<and> tab ! 1 = [Quoted ''A'', Quoted ''Albany County'', Quoted ''Albany'', Unquoted ''2000000'']
       \<and> tab ! 2 = [Quoted ''A'', Quoted ''Albany again'', Quoted [], Unquoted ''1.5''])"
proof -
  have h1: "subadmin_file areas_only = Some two_areas" by (simp add: areas_only_def)
  have h2: "list_all has_area_fields two_areas" by (simp add: two_areas_def)
  from areas_one_row_per_record [OF h1 h2, of ref_runtime "setup_run areas_only"]
  obtain rows s' tab where r:
    "stage_areas ref_runtime areas_only (setup_run areas_only) = (Inr rows, s')"
    "map_of (csv_files s') ''sub_administrative_area.csv'' = Some tab"
    "length rows = length two_areas" "length tab = Suc (length two_areas)"
    "tab ! 0 = [Quoted ''_id'', Quoted ''full_name'', Quoted ''name'', Quoted ''aland'']"
    and each: "\<And>i. i < length two_areas \<Longrightarrow> \<exists>a b c e.
               getitem (two_areas ! i) ''_id'' = Inr a \<and> getitem (two_areas ! i) ''name'' = Inr b
             \<and> getitem (two_areas ! i) ''full_name'' = Inr c \<and> getitem (two_areas ! i) ''aland'' = Inr e
             \<and> rows ! i = [(''_id'', a), (''name'', b), (''full_name'', c), (''aland'', e)]
             \<and> tab ! Suc i = [write_field ref_runtime a, write_field ref_runtime c, write_field ref_runtime b, write_field ref_runtime e]"
    by blast
  have len: "length two_areas = 2" by (simp add: two_areas_def)
  from each [of 0] have r0:
    "rows ! 0 = [(''_id'', JStr ''A''), (''name'', JStr ''Albany''), (''full_name'', JStr ''Albany County''), (''aland'', JInt 2000000)]"
    "tab ! 1 = [Quoted ''A'', Quoted ''Albany County'', Quoted ''Albany'', Unquoted ''2000000'']"
    by (auto simp: two_areas_def write_field_2000000)
  from each [of 1] have r1:
    "rows ! 1 = [(''_id'', JStr ''A''), (''name'', JNull), (''full_name'', JStr ''Albany again''), (''aland'', JFloat (Fin (3 / 2)))]"
    "tab ! 2 = [Quoted ''A'', Quoted ''Albany again'', Quoted [], Unquoted ''1.5'']"
    by (auto simp: two_areas_def write_field_three_halves write_field_JNull numeral_2_eq_2)
  show ?thesis using h1 h2 r len r0 r1 by simp
qed

subsection \<open>The definitive test of a sample\<close>

lemma efilter_is_selected:
  "list_all is_test ts \<Longrightarrow> efilter is_selected ts = Inr (filter flagged ts)"
proof (induction ts)
  case Nil
  then show ?case by simp
next
  case (Cons t ts)
  then obtain td b where t: "t = JObj td" "map_of td ''selected_definitive'' = Some (JBool b)"
    by (cases t) (auto split: option.splits json.splits)
  then have "is_selected t = Inr (flagged t)"
    by (simp add: is_selected_def eq_True_def)
  with Cons show ?case by simp
qed

text \<open>The first step of the loop body, on one record.\<close>

lemma resolve_result_by_count:
  assumes "map_of d ''tests'' = Some (JArr ts)" and "list_all is_test ts"
  shows "\<exists>d'. resolve_result (JObj d) = Inr d' \<and>
           (case filter flagged ts of
              [] \<Rightarrow> map_of d' ''result'' = Some JNull
            | [t] \<Rightarrow> map_of d' ''result'' = Some (case getitem t ''result'' of Inr r \<Rightarrow> r | Inl e \<Rightarrow> JNull)
            | t # u # rest \<Rightarrow> d' = d)"
proof -
  have sel: "tests_selected_definitive (JObj d) = Inr (filter flagged ts)"
    using assms by (simp add: tests_selected_definitive_def efilter_is_selected)
  show ?thesis
  proof (cases "filter flagged ts")
    case Nil
    then show ?thesis using sel by (simp add: update_conv')
  next
    case (Cons t rest)
    note outer = Cons
    show ?thesis
    proof (cases rest)
      case Nil
      have "t \<in> set (filter flagged ts)" using outer by simp
      then have "flagged t" by simp
      then obtain td where td: "t = JObj td" by (cases t) auto
      show ?thesis
        using sel outer Nil td by (cases "map_of td ''result''") (simp_all add: update_conv')
    next
      case (Cons u rest')
      then show ?thesis using sel outer by simp
    qed
  qed
qed

text \<open>The two later steps of the loop body leave the result alone.\<close>

lemma resolve_area_result:
  assumes "case map_of d ''_sub_administrative_area'' of None \<Rightarrow> True | Some (JObj a) \<Rightarrow> True | Some _ \<Rightarrow> False"
  shows "\<exists>d'. resolve_area d = Inr d' \<and> map_of d' ''result'' = map_of d ''result'' \<and>
           map_of d' ''_id'' = map_of d ''_id''"
proof (cases "map_of d ''_sub_administrative_area''")
  case None
  then show ?thesis by (simp add: resolve_area_def update_conv')
next
  case (Some r)
  with assms obtain a where "r = JObj a" by (cases r) auto
  with Some show ?thesis
    by (cases "map_of a ''_id''") (simp_all add: resolve_area_def update_conv')
qed

lemma rename_key_result: "map_of (rename_key d ''_id'' ''id'') ''result'' = map_of d ''result''"
  by (simp add: rename_key_def update_conv' delete_conv' split: option.split)

lemma resolve_result_area_ref:
  assumes "resolve_result (JObj d) = Inr d'"
  shows "map_of d' ''_sub_administrative_area'' = map_of d ''_sub_administrative_area''"
proof -
  from assms obtain sel where sel: "tests_selected_definitive (JObj d) = Inr sel"
    by (cases "tests_selected_definitive (JObj d)") simp_all
  have "d' = d \<or> (\<exists>r. d' = AList.update ''result'' r d)"
    using assms sel
    by (auto simp: ebind_def split: if_splits sum.splits)
  then show ?thesis by (auto simp: update_conv')
qed

lemma resolve_sample_result:
  assumes "plain_sample (JObj d)"
  shows "\<exists>d1 d'. resolve_result (JObj d) = Inr d1 \<and> resolve_sample (JObj d) = Inr d' \<and>
           map_of d' ''result'' = map_of d1 ''result''"
proof -
  from assms obtain ts where ts: "map_of d ''tests'' = Some (JArr ts)" "list_all is_test ts"
    by (auto split: option.splits json.splits)
  from resolve_result_by_count [OF ts] obtain d1 where d1: "resolve_result (JObj d) = Inr d1"
    by blast
  have "case map_of d1 ''_sub_administrative_area'' of None \<Rightarrow> True | Some (JObj a) \<Rightarrow> True | Some _ \<Rightarrow> False"
    using assms resolve_result_area_ref [OF d1] by simp
  from resolve_area_result [OF this] obtain d2 where
    d2: "resolve_area d1 = Inr d2" "map_of d2 ''result'' = map_of d1 ''result''" by blast
  show ?thesis
    using d1 d2 by (simp add: resolve_sample_def rename_key_result)
qed

lemma sample_result_column: "sample_fieldnames ! 6 = ''result''" "length sample_fieldnames = 8"
  by (simp_all add: sample_fieldnames_def)

text \<open>
  C4. For samples as the data model has them, the loop over the samples raises nothing
  and resolves every record: with no test flagged the result of the record becomes
  \<^verbatim>\<open>None\<close>; with exactly one test flagged it becomes that test's \<^verbatim>\<open>result\<close>, or
  \<^verbatim>\<open>None\<close> when the test has none; with more than one flagged the result is the one
  the record came with, or stays absent. The stage then writes these records, and the
  seventh field of each line of the samples file is written from that result (from the
  empty string when the record has none).
\<close>

theorem definitive_result_by_count:
  assumes "sample_file inp = Some samples" and "list_all plain_sample samples"
  shows "\<exists>samples' tab.
           emap resolve_sample samples = Inr samples' \<and> length samples' = length samples \<and>
           (\<forall>i<length samples. \<forall>d ts. samples ! i = JObj d \<and> map_of d ''tests'' = Some (JArr ts) \<longrightarrow>
              (case filter flagged ts of
                 [] \<Rightarrow> map_of (samples' ! i) ''result'' = Some JNull
               | [t] \<Rightarrow> map_of (samples' ! i) ''result'' =
                         Some (case getitem t ''result'' of Inr r \<Rightarrow> r | Inl e \<Rightarrow> JNull)
               | t # u # rest \<Rightarrow> map_of (samples' ! i) ''result'' = map_of d ''result'')) \<and>
           fst (stage_samples rt inp s) = Inr () \<and>
           map_of (csv_files (snd (stage_samples rt inp s))) ''sample.csv'' = Some tab \<and>
           length tab = Suc (length samples) \<and>
           (\<forall>i<length samples.
              tab ! Suc i ! 6 =
                write_field rt (case map_of (samples' ! i) ''result'' of None \<Rightarrow> JStr [] | Some v \<Rightarrow> v))"
proof -
  have "\<forall>x\<in>set samples. \<exists>y. resolve_sample x = Inr y"
  proof
    fix x assume "x \<in> set samples"
    with assms(2) have p: "plain_sample x" by (simp add: list_all_iff)
    then obtain d where "x = JObj d" by (cases x) auto
    with p resolve_sample_result [of d] show "\<exists>y. resolve_sample x = Inr y" by blast
  qed
  from emap_all_ok [OF this] obtain samples' where
    s': "emap resolve_sample samples = Inr samples'" "length samples' = length samples"
        "\<forall>i<length samples. resolve_sample (samples ! i) = Inr (samples' ! i)"
    by blast
  let ?tab = "writeheader rt sample_fieldnames # map (writerow rt sample_fieldnames) samples'"
  have res: "case filter flagged ts of
                 [] \<Rightarrow> map_of (samples' ! i) ''result'' = Some JNull
               | [t] \<Rightarrow> map_of (samples' ! i) ''result'' =
                         Some (case getitem t ''result'' of Inr r \<Rightarrow> r | Inl e \<Rightarrow> JNull)
               | t # u # rest \<Rightarrow> map_of (samples' ! i) ''result'' = map_of d ''result''"
    if i: "i < length samples" and d: "samples ! i = JObj d" "map_of d ''tests'' = Some (JArr ts)"
    for i d ts
  proof -
    have "samples ! i \<in> set samples" using i by simp
    with assms(2) have "plain_sample (samples ! i)" unfolding list_all_iff by blast
    then have p: "plain_sample (JObj d)" using d(1) by simp
    then have ts: "list_all is_test ts" using d(2) by simp
    from resolve_sample_result [OF p] obtain d1 d' where
      r: "resolve_result (JObj d) = Inr d1" "resolve_sample (JObj d) = Inr d'"
         "map_of d' ''result'' = map_of d1 ''result''" by blast
    from s'(3) i have "resolve_sample (samples ! i) = Inr (samples' ! i)" by blast
    then have e: "samples' ! i = d'" using d(1) r(2) by simp
    from resolve_result_by_count [OF d(2) ts] r(1)
    have "case filter flagged ts of
              [] \<Rightarrow> map_of d1 ''result'' = Some JNull
            | [t] \<Rightarrow> map_of d1 ''result'' = Some (case getitem t ''result'' of Inr r \<Rightarrow> r | Inl e \<Rightarrow> JNull)
            | t # u # rest \<Rightarrow> d1 = d"
      by simp
    then show ?thesis
      using e r(3) by (auto split: list.splits)
  qed
  have st: "stage_samples rt inp s =
              (Inr (), write_csv rt ''sample.csv'' sample_fieldnames samples'
                         (log_info ''Sample file loaded successfully'' s))"
    using assms(1) s'(1) by (simp add: stage_samples_def)
  have f: "map_of (csv_files (snd (stage_samples rt inp s))) ''sample.csv'' = Some ?tab"
    by (simp add: st write_csv_def update_conv')
  have c: "?tab ! Suc i ! 6 =
             write_field rt (case map_of (samples' ! i) ''result'' of None \<Rightarrow> JStr [] | Some v \<Rightarrow> v)"
    if "i < length samples" for i
    using that s'(2) by (simp add: writerow_def dict_to_list_def sample_result_column)
  show ?thesis
    using s'(1,2) res st f c by (intro exI [of _ samples'] exI [of _ ?tab]) simp
qed


theorem definitive_result_by_count_witness:
  "sample_file samples_run = Some four_samples \<and> list_all plain_sample four_samples
   \<and> (\<exists>samples' tab.
         emap resolve_sample four_samples = Inr samples'
       \<and> map_of (samples' ! 0) ''result'' = Some JNull
       \<and> map_of (samples' ! 1) ''result'' = Some (JStr ''positive'')
       \<and> map_of (samples' ! 2) ''result'' = Some JNull
       \<and> map_of (samples' ! 3) ''result'' = Some (JStr ''old'')
       \<and> fst (stage_samples ref_runtime samples_run (setup_run samples_run)) = Inr ()
       \<and> map_of (csv_files (snd (stage_samples ref_runtime samples_run (setup_run samples_run))))
            ''sample.csv'' = Some tab
       \<and> length tab = 5
       \<and> tab ! 1 ! 6 = Quoted []
       \<and> tab ! 2 ! 6 = Quoted ''positive''
       \<and> tab ! 3 ! 6 = Quoted []
       \<and> tab ! 4 ! 6 = Quoted ''old'')"
proof -
  have h1: "sample_file samples_run = Some four_samples"
    by (simp add: samples_run_def)
  have h2: "list_all plain_sample four_samples"
    by (simp add: four_samples_def sample_with_def test_off_def test_pos_def test_bare_def)
  have t: "map_of (sample_with ts) ''tests'' = Some (JArr ts)"
    and o: "map_of (sample_with ts) ''result'' = Some (JStr ''old'')" for ts
    by (simp_all add: sample_with_def)
  have n: "four_samples ! 0 = JObj (sample_with [test_off])"
    "four_samples ! 1 = JObj (sample_with [test_off, test_pos])"
    "four_samples ! 2 = JObj (sample_with [test_bare])"
    "four_samples ! 3 = JObj (sample_with [test_pos, test_bare])"
    "length four_samples = 4"
    by (simp_all add: four_samples_def)
  have f: "filter flagged [test_off] = []" "filter flagged [test_off, test_pos] = [test_pos]"
    "filter flagged [test_bare] = [test_bare]" "filter flagged [test_pos, test_bare] = [test_pos, test_bare]"
    by (simp_all add: test_off_def test_pos_def test_bare_def)
  have g: "getitem test_pos ''result'' = Inr (JStr ''positive'')"
    "getitem test_bare ''result'' = Inl (KeyError ''result'')"
    by (simp_all add: test_pos_def test_bare_def)
  from definitive_result_by_count [OF h1 h2, of ref_runtime "setup_run samples_run"]
  obtain samples' tab where
    r: "emap resolve_sample four_samples = Inr samples'"
       "\<forall>i<length four_samples. \<forall>d ts. four_samples ! i = JObj d \<and> map_of d ''tests'' = Some (JArr ts) \<longrightarrow>
              (case filter flagged ts of
                 [] \<Rightarrow> map_of (samples' ! i) ''result'' = Some JNull
               | [t] \<Rightarrow> map_of (samples' ! i) ''result'' =
                         Some (case getitem t ''result'' of Inr r \<Rightarrow> r | Inl e \<Rightarrow> JNull)
               | t # u # rest \<Rightarrow> map_of (samples' ! i) ''result'' = map_of d ''result'')"
       "fst (stage_samples ref_runtime samples_run (setup_run samples_run)) = Inr ()"
       "map_of (csv_files (snd (stage_samples ref_runtime samples_run (setup_run samples_run))))
            ''sample.csv'' = Some tab"
       "length tab = Suc (length four_samples)"
       "\<forall>i<length four_samples.
              tab ! Suc i ! 6 =
                write_field ref_runtime (case map_of (samples' ! i) ''result'' of None \<Rightarrow> JStr [] | Some v \<Rightarrow> v)"
    by blast
  have v0: "map_of (samples' ! 0) ''result'' = Some JNull"
    using r(2) [rule_format, of 0 "sample_with [test_off]" "[test_off]"] n t f by simp
  have v1: "map_of (samples' ! 1) ''result'' = Some (JStr ''positive'')"
    using r(2) [rule_format, of 1 "sample_with [test_off, test_pos]" "[test_off, test_pos]"] n t f g
    by simp
  have v2: "map_of (samples' ! 2) ''result'' = Some JNull"
    using r(2) [rule_format, of 2 "sample_with [test_bare]" "[test_bare]"] n t f g by simp
  have v3: "map_of (samples' ! 3) ''result'' = Some (JStr ''old'')"
    using r(2) [rule_format, of 3 "sample_with [test_pos, test_bare]" "[test_pos, test_bare]"] n t f o
    by simp
  have c0: "tab ! 1 ! 6 = Quoted []"
    using r(6) [rule_format, of 0] n v0 by (simp add: write_field_JNull)
  have c1: "tab ! 2 ! 6 = Quoted ''positive''"
    using r(6) [rule_format, of 1] n v1 by (simp add: eval_nat_numeral)
  have c2: "tab ! 3 ! 6 = Quoted []"
    using r(6) [rule_format, of 2] n v2 by (simp add: write_field_JNull eval_nat_numeral)
  have c3: "tab ! 4 ! 6 = Quoted ''old''"
    using r(6) [rule_format, of 3] n v3 by (simp add: eval_nat_numeral)
  have l: "length tab = 5" using r(5) n by simp
  show ?thesis
    using h1 h2 r(1) v0 v1 v2 v3 r(3) r(4) l c0 c1 c2 c3 by blast
qed

subsection \<open>Density to population\<close>

lemma find_area_first:
  assumes "i < length areas" and "area_id (areas ! i) = JStr k"
    and "\<forall>j<i. area_id (areas ! j) \<noteq> JStr k"
  shows "find_area areas k = Some (areas ! i)"
  unfolding find_area_def find_Some_iff
  using assms by (auto simp: area_id_def)

text \<open>When the conversion of one value returns, and what it returns.\<close>

lemma density_to_population_iff:
  "density_to_population rt sa v = Inr n \<longleftrightarrow>
     (\<exists>a q p. map_of sa ''aland'' = Some a \<and> truediv rt a (JInt 1000000) = Inr q \<and>
              mul_float rt v q = Inr (Fin p) \<and> n = JInt (round_half_even p))"
proof (cases "map_of sa ''aland''")
  case None
  then show ?thesis by (simp add: density_to_population_def)
next
  case (Some a)
  note a = Some
  show ?thesis
  proof (cases "truediv rt a (JInt 1000000)")
    case (Inl e)
    with a show ?thesis by (simp add: density_to_population_def)
  next
    case (Inr q)
    note q = Inr
    show ?thesis
    proof (cases "mul_float rt v q")
      case (Inl e)
      with a q show ?thesis by (simp add: density_to_population_def)
    next
      case (Inr p)
      with a q show ?thesis
        by (cases p) (auto simp: density_to_population_def)
    qed
  qed
qed

lemma converts_iff:
  "converts rt areas (k, v) \<longleftrightarrow>
     (case find_area areas k of None \<Rightarrow> True | Some sa \<Rightarrow> (\<exists>n. density_to_population rt sa v = Inr n))"
  unfolding density_to_population_iff
  by (auto simp: converts_def split: option.splits sum.splits pyfloat.splits)

text \<open>The loop over the items returns exactly when every entry converts.\<close>

lemma convert_items_returns:
  "(\<exists>d'. convert_items rt areas rest d = Inr d') \<longleftrightarrow> list_all (converts rt areas) rest"
proof (induction rest arbitrary: d)
  case Nil
  then show ?case by simp
next
  case (Cons kv rest)
  obtain k v where kv: "kv = (k, v)" by (cases kv)
  show ?case
  proof (cases "find_area areas k")
    case None
    then show ?thesis using Cons.IH [of d] kv by (simp add: converts_iff)
  next
    case (Some sa)
    show ?thesis
    proof (cases "density_to_population rt sa v")
      case (Inl e)
      with Some kv show ?thesis by (simp add: converts_iff)
    next
      case (Inr n)
      with Some kv Cons.IH [of "AList.update k n d"] show ?thesis by (simp add: converts_iff)
    qed
  qed
qed

text \<open>What the loop over the items leaves in the dictionary: an entry whose key matches
  an area holds the converted value, every other entry is as before.\<close>

lemma convert_items_char:
  assumes "distinct (map fst rest)" and "convert_items rt areas rest d = Inr d'"
  shows "map_of d' k =
           (case map_of rest k of
              None \<Rightarrow> map_of d k
            | Some v \<Rightarrow>
                (case find_area areas k of
                   None \<Rightarrow> map_of d k
                 | Some sa \<Rightarrow>
                     (case density_to_population rt sa v of Inr n \<Rightarrow> Some n | Inl e \<Rightarrow> map_of d k)))"
  using assms
proof (induction rest arbitrary: d)
  case Nil
  then show ?case by simp
next
  case (Cons kv rest)
  obtain k0 v0 where kv: "kv = (k0, v0)" by (cases kv)
  from Cons.prems kv have fresh: "map_of rest k0 = None" and rest: "distinct (map fst rest)"
    by (auto simp: map_of_eq_None_iff)
  show ?case
  proof (cases "find_area areas k0")
    case None
    with Cons.prems(2) kv have run: "convert_items rt areas rest d = Inr d'" by simp
    from Cons.IH [OF rest run] show ?thesis
      using None fresh kv by (auto split: option.splits)
  next
    case (Some sa)
    with Cons.prems(2) kv obtain n where n: "density_to_population rt sa v0 = Inr n"
      and run: "convert_items rt areas rest (AList.update k0 n d) = Inr d'"
      by (cases "density_to_population rt sa v0") simp_all
    note ih = Cons.IH [OF rest run]
    show ?thesis
    proof (cases "k = k0")
      case True
      then show ?thesis using ih fresh kv Some n by (simp add: update_conv')
    next
      case False
      then show ?thesis using ih kv
        by (auto simp: update_conv' split: option.splits sum.splits)
    qed
  qed
qed

text \<open>The converted record: the label, and the data dictionary the loop has left.\<close>

lemma convert_demo_density:
  assumes "map_of d ''metric'' = Some (JStr ''deer density'')"
    and "map_of d ''data'' = Some (JObj its)"
    and "convert_items rt areas its its = Inr its'"
  shows "convert_demo rt areas (JObj d) =
           Inr (JObj (AList.update ''metric'' (JStr converted_label) (AList.update ''data'' (JObj its') d)))"
  using assms by simp

text \<open>The loop over the records returns exactly when every record is convertible.\<close>

lemma convert_demo_returns:
  "(\<exists>demo'. convert_demo rt areas demo = Inr demo') \<longleftrightarrow> convertible rt areas demo"
proof (cases demo)
  case (JObj d)
  show ?thesis
  proof (cases "(case map_of d ''metric'' of None \<Rightarrow> JNull | Some v \<Rightarrow> v) = JStr ''deer density''")
    case False
    with JObj show ?thesis by simp
  next
    case True
    note metric = True
    show ?thesis
    proof (cases "map_of d ''data''")
      case None
      with JObj metric show ?thesis by simp
    next
      case (Some data)
      show ?thesis
      proof (cases "\<exists>its. data = JObj its")
        case False
        with JObj metric Some show ?thesis by (cases data) simp_all
      next
        case True
        then obtain its where its: "data = JObj its" by blast
        have "(\<exists>demo'. convert_demo rt areas (JObj d) = Inr demo') \<longleftrightarrow>
              (\<exists>its'. convert_items rt areas its its = Inr its')"
          using metric Some its by (cases "convert_items rt areas its its") simp_all
        then show ?thesis
          using JObj metric Some its by (simp add: convert_items_returns)
      qed
    qed
  qed
qed simp_all

lemma emap_returns:
  "(\<exists>ys. emap f xs = Inr ys) \<longleftrightarrow> (\<forall>x\<in>set xs. \<exists>y. f x = Inr y)"
proof (induction xs)
  case Nil
  then show ?case by simp
next
  case (Cons x xs)
  then show ?case
    by (cases "f x"; cases "emap f xs") auto
qed

lemma convert_all_returns:
  "(\<exists>demography'. convert_all rt areas demography = Inr demography') \<longleftrightarrow>
     list_all (convertible rt areas) demography"
  by (simp add: convert_all_def emap_returns convert_demo_returns list_all_iff)

lemma convert_all_each:
  assumes "list_all (convertible rt areas) demography"
  shows "\<exists>demography'. convert_all rt areas demography = Inr demography' \<and>
           length demography' = length demography \<and>
           (\<forall>n<length demography. convert_demo rt areas (demography ! n) = Inr (demography' ! n))"
proof -
  have "\<forall>x\<in>set demography. \<exists>y. convert_demo rt areas x = Inr y"
    using assms by (simp add: convert_demo_returns list_all_iff)
  from emap_all_ok [OF this] show ?thesis by (simp add: convert_all_def)
qed

lemma round_half_even_nearest: "\<bar>of_int (round_half_even x) - x\<bar> \<le> 1 / 2"
proof -
  have "of_int \<lfloor>x\<rfloor> \<le> x" "x < of_int \<lfloor>x\<rfloor> + 1" by linarith+
  then show ?thesis
    by (auto simp: round_half_even_def Let_def)
qed

lemma round_half_even_tie:
  assumes "\<bar>of_int (round_half_even x) - x\<bar> = 1 / 2"
  shows "even (round_half_even x)"
proof -
  have fl: "of_int \<lfloor>x\<rfloor> \<le> x" "x < of_int \<lfloor>x\<rfloor> + 1" by linarith+
  show ?thesis
  proof (cases "x - of_int \<lfloor>x\<rfloor> < 1 / 2")
    case True
    with assms fl show ?thesis by (simp add: round_half_even_def Let_def)
  next
    case False
    note nlt = False
    show ?thesis
    proof (cases "1 / 2 < x - of_int \<lfloor>x\<rfloor>")
      case True
      with assms fl nlt show ?thesis by (simp add: round_half_even_def Let_def)
    next
      case False
      with nlt show ?thesis by (simp add: round_half_even_def Let_def)
    qed
  qed
qed

text \<open>
  C1. Let every record of the demography list be convertible, so that the loop over the
  records raises nothing. Take a record of the list whose metric is \<^verbatim>\<open>deer density\<close>,
  an entry \<open>(k, v)\<close> of its data and the first area of the list whose id is \<open>k\<close>. The loop
  returns a list of the same length; in it the metric of the record is the fixed label
  and the entry holds the integer \<^verbatim>\<open>round(v * (aland / 1_000_000))\<close>: the quotient
  \<open>q\<close> and the product \<open>p\<close> are the floats the runtime computes, and \<^verbatim>\<open>round\<close> gives an
  integer nearest to \<open>p\<close>, the even one on a tie.
\<close>

theorem density_replaced_by_population:
  assumes "list_all (convertible rt areas) demography"
    and "n < length demography" and "demography ! n = JObj d"
    and "map_of d ''metric'' = Some (JStr ''deer density'')"
    and "map_of d ''data'' = Some (JObj its)"
    and "distinct (map fst its)"
    and "(k, v) \<in> set its"
    and "i < length areas" and "area_id (areas ! i) = JStr k"
    and "\<forall>j<i. area_id (areas ! j) \<noteq> JStr k"
  shows "\<exists>demography' d' its' a q p.
           convert_all rt areas demography = Inr demography'
         \<and> length demography' = length demography
         \<and> demography' ! n = JObj d'
         \<and> map_of d' ''metric'' = Some (JStr ''total population (converted from density)'')
         \<and> map_of d' ''data'' = Some (JObj its')
         \<and> map_of (areas ! i) ''aland'' = Some a
         \<and> truediv rt a (JInt 1000000) = Inr q
         \<and> mul_float rt v q = Inr (Fin p)
         \<and> map_of its' k = Some (JInt (round_half_even p))
         \<and> \<bar>of_int (round_half_even p) - p\<bar> \<le> 1 / 2
         \<and> (\<bar>of_int (round_half_even p) - p\<bar> = 1 / 2 \<longrightarrow> even (round_half_even p))"
proof -
  from convert_all_each [OF assms(1)] obtain demography' where
    run: "convert_all rt areas demography = Inr demography'"
    and len: "length demography' = length demography"
    and each: "\<forall>n<length demography. convert_demo rt areas (demography ! n) = Inr (demography' ! n)"
    by blast
  from each assms(2,3) have dn: "convert_demo rt areas (JObj d) = Inr (demography' ! n)"
    by auto
  have "convertible rt areas (JObj d)"
    using assms(1,2,3) by (auto simp: list_all_length)
  then have "list_all (converts rt areas) its"
    using assms(4,5) by simp
  then obtain its' where its': "convert_items rt areas its its = Inr its'"
    using convert_items_returns [of rt areas its its] by blast
  let ?d' = "AList.update ''metric'' (JStr converted_label) (AList.update ''data'' (JObj its') d)"
  have "convert_demo rt areas (JObj d) = Inr (JObj ?d')"
    by (rule convert_demo_density [OF assms(4,5) its'])
  with dn have d': "demography' ! n = JObj ?d'" by simp
  have found: "find_area areas k = Some (areas ! i)"
    by (rule find_area_first [OF assms(8,9,10)])
  have kv: "map_of its k = Some v"
    using assms(6,7) by simp
  have "converts rt areas (k, v)"
    using \<open>list_all (converts rt areas) its\<close> assms(7) by (auto simp: list_all_iff)
  then obtain m where m: "density_to_population rt (areas ! i) v = Inr m"
    using found by (auto simp: converts_iff)
  then obtain a q p where
    aqp: "map_of (areas ! i) ''aland'' = Some a" "truediv rt a (JInt 1000000) = Inr q"
         "mul_float rt v q = Inr (Fin p)" "m = JInt (round_half_even p)"
    unfolding density_to_population_iff by blast
  from convert_items_char [OF assms(6) its', of k] kv found m aqp(4)
  have val: "map_of its' k = Some (JInt (round_half_even p))"
    by simp
  have lab: "map_of ?d' ''metric'' = Some (JStr ''total population (converted from density)'')"
    by (simp add: update_conv' converted_label_def)
  have dt: "map_of ?d' ''data'' = Some (JObj its')"
    by (simp add: update_conv')
  show ?thesis
    using run len d' lab dt aqp(1,2,3) val round_half_even_nearest [of p] round_half_even_tie [of p]
    by blast
qed

theorem density_replaced_by_population_witness:
  "list_all (convertible ref_runtime [area_A, area_A2, area_B]) [population_record ''Z'' 3, JObj density_record]
   \<and> [population_record ''Z'' 3, JObj density_record] ! 1 = JObj density_record
   \<and> map_of density_record ''metric'' = Some (JStr ''deer density'')
   \<and> map_of density_record ''data'' =
       Some (JObj [(''A'', JFloat (Fin 5)), (''B'', JFloat (Fin (5 / 2))), (''Z'', JFloat (Fin 7))])
   \<and> area_id ([area_A, area_A2, area_B] ! 0) = JStr ''A''
   \<and> map_of ([area_A, area_A2, area_B] ! 0) ''aland'' = Some (JInt 2000000)
   \<and> area_id ([area_A, area_A2, area_B] ! 2) = JStr ''B''
   \<and> (\<exists>demography' d' its'.
         convert_all ref_runtime [area_A, area_A2, area_B] [population_record ''Z'' 3, JObj density_record]
           = Inr demography'
       \<and> length demography' = 2
       \<and> demography' ! 1 = JObj d'
       \<and> map_of d' ''metric'' = Some (JStr ''total population (converted from density)'')
       \<and> map_of d' ''data'' = Some (JObj its')
       \<and> map_of its' ''A'' = Some (JInt 10)
       \<and> map_of its' ''B'' = Some (JInt 2))"
proof -
  let ?its = "[(''A'', JFloat (Fin 5)), (''B'', JFloat (Fin (5 / 2))), (''Z'', JFloat (Fin 7))]"
  let ?areas = "[area_A, area_A2, area_B]"
  let ?demos = "[population_record ''Z'' 3, JObj density_record]"
  have fa: "find_area ?areas ''A'' = Some area_A"
    and fb: "find_area ?areas ''B'' = Some area_B"
    and fz: "find_area ?areas ''Z'' = None"
    by (simp_all add: find_area_def area_A_def area_A2_def area_B_def)
  have qa: "truediv ref_runtime (JInt 2000000) (JInt 1000000) = Inr (Fin 2)"
    and qb: "truediv ref_runtime (JFloat (Fin 1000000)) (JInt 1000000) = Inr (Fin 1)"
    by (simp_all add: truediv_def ref_runtime_def)
  have pa: "mul_float ref_runtime (JFloat (Fin 5)) (Fin 2) = Inr (Fin 10)"
    and pb: "mul_float ref_runtime (JFloat (Fin (5 / 2))) (Fin 1) = Inr (Fin (5 / 2))"
    by (simp_all add: mul_float_def ref_runtime_def)
  have la: "map_of area_A ''aland'' = Some (JInt 2000000)"
    and lb: "map_of area_B ''aland'' = Some (JFloat (Fin 1000000))"
    by (simp_all add: area_A_def area_B_def)
  have h1: "list_all (convertible ref_runtime ?areas) ?demos"
    by (simp add: population_record_def density_record_def converts_def fa fb fz la lb qa qb pa pb)
  have h2: "1 < length ?demos" and h3: "?demos ! 1 = JObj density_record" by simp_all
  have h4: "map_of density_record ''metric'' = Some (JStr ''deer density'')"
    and h5: "map_of density_record ''data'' = Some (JObj ?its)"
    by (simp_all add: density_record_def)
  have h6: "distinct (map fst ?its)" by simp
  have a7: "(''A'', JFloat (Fin 5)) \<in> set ?its" and a8: "0 < length ?areas"
    and a9: "area_id (?areas ! 0) = JStr ''A''" and a10: "\<forall>j<0. area_id (?areas ! j) \<noteq> JStr ''A''"
    by (simp_all add: area_id_def area_A_def)
  have b7: "(''B'', JFloat (Fin (5 / 2))) \<in> set ?its" and b8: "2 < length ?areas"
    and b9: "area_id (?areas ! 2) = JStr ''B''"
    by (simp_all add: area_id_def area_B_def)
  have b10: "\<forall>j<2. area_id (?areas ! j) \<noteq> JStr ''B''"
    by (simp add: area_id_def area_A_def area_A2_def less_Suc_eq numeral_2_eq_2)
  have ra: "round_half_even 10 = 10"
    by (simp add: round_half_even_def)
  have rb: "round_half_even (5 / 2) = 2"
    by (simp add: round_half_even_def Let_def floor_numeral_div)
  from density_replaced_by_population [OF h1 h2 h3 h4 h5 h6 a7 a8 a9 a10]
  obtain demography' d' its' where A:
    "convert_all ref_runtime ?areas ?demos = Inr demography'"
    "length demography' = length ?demos"
    "demography' ! 1 = JObj d'"
    "map_of d' ''metric'' = Some (JStr ''total population (converted from density)'')"
    "map_of d' ''data'' = Some (JObj its')"
    "map_of its' ''A'' = Some (JInt 10)"
    by (auto simp: la qa pa ra)
  from density_replaced_by_population [OF h1 h2 h3 h4 h5 h6 b7 b8 b9 b10]
  obtain dm d2 its2 a q p where B0:
    "convert_all ref_runtime ?areas ?demos = Inr dm"
    "dm ! 1 = JObj d2"
    "map_of d2 ''data'' = Some (JObj its2)"
    "map_of (?areas ! 2) ''aland'' = Some a"
    "truediv ref_runtime a (JInt 1000000) = Inr q"
    "mul_float ref_runtime (JFloat (Fin (5 / 2))) q = Inr (Fin p)"
    "map_of its2 ''B'' = Some (JInt (round_half_even p))"
    by blast
  from B0(4) lb have "a = JFloat (Fin 1000000)" by simp
  with B0(5) qb have "q = Fin 1" by simp
  with B0(6) pb have "Inr (Fin p) = (Inr (Fin (5 / 2)) :: py_error + pyfloat)" by simp
  then have "p = 5 / 2" by (simp only: sum.inject pyfloat.inject)
  then have "round_half_even p = 2" by (simp only: rb)
  moreover have "its2 = its'" using A(1,3,5) B0(1,2,3) by simp
  ultimately have B: "map_of its' ''B'' = Some (JInt 2)"
    using B0(7) by simp
  have l: "length demography' = 2" using A(2) by simp
  have la0: "map_of (?areas ! 0) ''aland'' = Some (JInt 2000000)" using la by simp
  show ?thesis using h1 h3 h4 h5 a9 la0 b9 A(1) l A(3,4,5,6) B by blast
qed

subsection \<open>Totals per area\<close>

lemma first_seen_snoc: "first_seen (xs @ [x]) = add_key (first_seen xs) x"
  by (simp add: first_seen_def add_key_def)

lemma set_first_seen [simp]: "set (first_seen xs) = set xs"
  by (simp add: first_seen_def)

lemma distinct_first_seen [simp]: "distinct (first_seen xs)"
  by (simp add: first_seen_def)

lemma remdups_snoc: "remdups (ys @ [x]) = removeAll x (remdups ys) @ [x]"
  by (induction ys) (auto simp: removeAll_filter_not_eq)

text \<open>The keys in the order of their first occurrence, read from the front.\<close>

lemma first_seen_Nil: "first_seen [] = []"
  by (simp add: first_seen_def)

lemma first_seen_Cons: "first_seen (x # xs) = x # first_seen (removeAll x xs)"
  by (simp add: first_seen_def remdups_snoc removeAll_filter_not_eq rev_filter remdups_filter)

lemma foldl_add_key: "distinct ks \<Longrightarrow> foldl add_key ks xs = first_seen (ks @ xs)"
proof (induction xs rule: rev_induct)
  case Nil
  then show ?case by (simp add: first_seen_def distinct_remdups_id)
next
  case (snoc x xs)
  then show ?case
    using first_seen_snoc [of "ks @ xs" x] by simp
qed

lemma values_for_Cons:
  "values_for k ((k', v) # its) = (if k' = k then v # values_for k its else values_for k its)"
  by (simp add: values_for_def)

lemma values_for_Nil [simp]: "values_for k [] = []"
  by (simp add: values_for_def)

lemma summable_Nil [simp]: "summable rt []"
  by (simp add: summable_def)

lemma summable_Cons: "summable rt (v # vs) \<longleftrightarrow> (\<exists>t. sum_from rt v vs = Inr t)"
  by (cases "sum_from rt v vs") (simp_all add: summable_def)

text \<open>
  What the loop over the items of one record does to the totals so far. It returns when
  for every key the values still to come can be added, from the total the key has so far
  or, for a key that has none, from its first value; the keys are then those met so far
  in the order they were met, each with its sum.
\<close>

lemma agg_items_char:
  assumes "\<forall>k. case map_of acc k of
                 Some a \<Rightarrow> (\<exists>t. sum_from rt a (values_for k its) = Inr t)
               | None \<Rightarrow> summable rt (values_for k its)"
  shows "\<exists>acc'. agg_items rt acc its = Inr acc'
           \<and> map fst acc' = foldl add_key (map fst acc) (map fst its)
           \<and> (\<forall>k. case map_of acc k of
                     Some a \<Rightarrow> (\<exists>t. sum_from rt a (values_for k its) = Inr t \<and> map_of acc' k = Some t)
                   | None \<Rightarrow>
                       (case values_for k its of
                          [] \<Rightarrow> map_of acc' k = None
                        | v # vs \<Rightarrow> (\<exists>t. sum_from rt v vs = Inr t \<and> map_of acc' k = Some t)))"
  using assms
proof (induction its arbitrary: acc)
  case Nil
  then show ?case by (simp split: option.split)
next
  case (Cons kv rest)
  obtain k0 v0 where kv: "kv = (k0, v0)" by (cases kv)
  have vf0: "values_for k0 (kv # rest) = v0 # values_for k0 rest"
    by (simp add: kv values_for_Cons)
  have "\<exists>w. agg_step rt acc kv = Inr (AList.update k0 w acc)
          \<and> (case map_of acc k0 of Some old \<Rightarrow> py_iadd rt old v0 = Inr w | None \<Rightarrow> w = v0)
          \<and> (\<exists>t. sum_from rt w (values_for k0 rest) = Inr t)"
  proof (cases "map_of acc k0")
    case None
    with Cons.prems [rule_format, of k0] have "summable rt (v0 # values_for k0 rest)"
      by (simp add: vf0)
    then show ?thesis using kv None by (simp add: agg_step_def summable_Cons)
  next
    case (Some old)
    with Cons.prems [rule_format, of k0] obtain t where
      "sum_from rt old (v0 # values_for k0 rest) = Inr t"
      by (auto simp: vf0)
    then obtain w where "py_iadd rt old v0 = Inr w" "sum_from rt w (values_for k0 rest) = Inr t"
      by (cases "py_iadd rt old v0") simp_all
    then show ?thesis using kv Some by (simp add: agg_step_def)
  qed
  then obtain w where step: "agg_step rt acc kv = Inr (AList.update k0 w acc)"
    and wv: "case map_of acc k0 of Some old \<Rightarrow> py_iadd rt old v0 = Inr w | None \<Rightarrow> w = v0"
    and wt: "\<exists>t. sum_from rt w (values_for k0 rest) = Inr t"
    by blast
  define acc1 where "acc1 = AList.update k0 w acc"
  have pre: "\<forall>k. case map_of acc1 k of
                 Some a \<Rightarrow> (\<exists>t. sum_from rt a (values_for k rest) = Inr t)
               | None \<Rightarrow> summable rt (values_for k rest)"
  proof
    fix k
    show "case map_of acc1 k of
                 Some a \<Rightarrow> (\<exists>t. sum_from rt a (values_for k rest) = Inr t)
               | None \<Rightarrow> summable rt (values_for k rest)"
    proof (cases "k = k0")
      case True
      then show ?thesis using wt by (simp add: acc1_def update_conv')
    next
      case False
      then have m: "map_of acc1 k = map_of acc k" by (simp add: acc1_def update_conv')
      have vf: "values_for k (kv # rest) = values_for k rest"
        using False by (simp add: kv values_for_Cons)
      from Cons.prems [rule_format, of k] show ?thesis unfolding m vf .
    qed
  qed
  from Cons.IH [OF pre] obtain acc' where
    run: "agg_items rt acc1 rest = Inr acc'"
    and keys: "map fst acc' = foldl add_key (map fst acc1) (map fst rest)"
    and sums: "\<And>k. case map_of acc1 k of
                     Some a \<Rightarrow> (\<exists>t. sum_from rt a (values_for k rest) = Inr t \<and> map_of acc' k = Some t)
                   | None \<Rightarrow>
                       (case values_for k rest of
                          [] \<Rightarrow> map_of acc' k = None
                        | v # vs \<Rightarrow> (\<exists>t. sum_from rt v vs = Inr t \<and> map_of acc' k = Some t))"
    by blast
  have k1: "map fst acc1 = add_key (map fst acc) k0"
    by (simp add: acc1_def update_keys add_key_def)
  have allk: "case map_of acc k of
                     Some a \<Rightarrow> (\<exists>t. sum_from rt a (values_for k (kv # rest)) = Inr t \<and> map_of acc' k = Some t)
                   | None \<Rightarrow>
                       (case values_for k (kv # rest) of
                          [] \<Rightarrow> map_of acc' k = None
                        | v # vs \<Rightarrow> (\<exists>t. sum_from rt v vs = Inr t \<and> map_of acc' k = Some t))" for k
  proof (cases "k = k0")
    case True
    from sums [of k0] obtain t where t: "sum_from rt w (values_for k0 rest) = Inr t" "map_of acc' k0 = Some t"
      by (auto simp: acc1_def update_conv')
    show ?thesis
    proof (cases "map_of acc k0")
      case None
      with wv have "w = v0" by simp
      with t vf0 True None show ?thesis by simp
    next
      case (Some old)
      with wv have "py_iadd rt old v0 = Inr w" by simp
      with t vf0 True Some show ?thesis by simp
    qed
  next
    case False
    then have m: "map_of acc1 k = map_of acc k" by (simp add: acc1_def update_conv')
    have vf: "values_for k (kv # rest) = values_for k rest"
      using False by (simp add: kv values_for_Cons)
    from sums [of k] show ?thesis unfolding m vf .
  qed
  have r: "agg_items rt acc (kv # rest) = Inr acc'"
    using step run by (simp add: acc1_def)
  have ks: "map fst acc' = foldl add_key (map fst acc) (map fst (kv # rest))"
    using keys k1 kv by simp
  show ?case
    using r ks allk by (intro exI [of _ acc'] conjI allI)
qed

lemma agg_items_append:
  "agg_items rt acc (xs @ ys) =
     (case agg_items rt acc xs of Inl e \<Rightarrow> Inl e | Inr a \<Rightarrow> agg_items rt a ys)"
  by (induction xs arbitrary: acc) (simp_all split: sum.split)

lemma has_data_items:
  assumes "has_data demo"
  shows "ebind (getitem demo ''data'') items_method = Inr (data_items demo)"
proof -
  from assms obtain d its where "demo = JObj d" "map_of d ''data'' = Some (JObj its)"
    by (cases demo) (auto split: option.splits json.splits)
  then show ?thesis by (simp add: data_items_def)
qed

lemma aggregate_all_items:
  "list_all has_data demos \<Longrightarrow> aggregate rt acc demos = agg_items rt acc (all_items demos)"
proof (induction demos arbitrary: acc)
  case Nil
  then show ?case by (simp add: all_items_def)
next
  case (Cons demo rest)
  then have "has_data demo" and r: "list_all has_data rest" by simp_all
  from has_data_items [OF this(1)] Cons.IH [OF r] show ?case
    by (simp add: all_items_def agg_items_append split: sum.split)
qed

lemma values_for_nonempty: "k \<in> fst ` set its \<Longrightarrow> values_for k its \<noteq> []"
  by (auto simp: values_for_def filter_empty_conv)

lemma values_for_empty: "k \<notin> fst ` set its \<Longrightarrow> values_for k its = []"
  by (auto simp: values_for_def filter_empty_conv)

text \<open>What the two loops of the aggregation leave: the keys in the order of their first
  occurrence, each with the sum of its values.\<close>

lemma aggregate_char:
  assumes "list_all has_data demos" and "totals_defined rt demos"
  shows "\<exists>tot. aggregate rt [] demos = Inr tot
           \<and> map fst tot = first_seen (map fst (all_items demos))
           \<and> (\<forall>k\<in>fst ` set (all_items demos). \<exists>v vs t.
                  values_for k (all_items demos) = v # vs \<and> sum_from rt v vs = Inr t
                \<and> map_of tot k = Some t)"
proof -
  have pre: "\<forall>k. case map_of [] k of
                 Some a \<Rightarrow> (\<exists>t. sum_from rt a (values_for k (all_items demos)) = Inr t)
               | None \<Rightarrow> summable rt (values_for k (all_items demos))"
  proof
    fix k
    have "summable rt (values_for k (all_items demos))"
    proof (cases "k \<in> fst ` set (all_items demos)")
      case True
      with assms(2) show ?thesis by (auto simp: totals_defined_def list_all_iff)
    next
      case False
      then show ?thesis by (simp add: values_for_empty)
    qed
    then show "case map_of [] k of
                 Some a \<Rightarrow> (\<exists>t. sum_from rt a (values_for k (all_items demos)) = Inr t)
               | None \<Rightarrow> summable rt (values_for k (all_items demos))"
      by simp
  qed
  from agg_items_char [OF pre]
  obtain tot where run: "agg_items rt [] (all_items demos) = Inr tot"
    and keys: "map fst tot = foldl add_key [] (map fst (all_items demos))"
    and sums: "\<And>k. case values_for k (all_items demos) of
                          [] \<Rightarrow> map_of tot k = None
                        | v # vs \<Rightarrow> (\<exists>t. sum_from rt v vs = Inr t \<and> map_of tot k = Some t)"
    by auto
  have "\<exists>v vs t. values_for k (all_items demos) = v # vs \<and> sum_from rt v vs = Inr t
                \<and> map_of tot k = Some t" if "k \<in> fst ` set (all_items demos)" for k
  proof -
    from values_for_nonempty [OF that] obtain v vs where "values_for k (all_items demos) = v # vs"
      by (cases "values_for k (all_items demos)") auto
    with sums [of k] show ?thesis by auto
  qed
  then show ?thesis
    using run keys by (simp add: aggregate_all_items [OF assms(1)] foldl_add_key)
qed

text \<open>
  C2. Take demography records (the list the conversion has left) whose data are
  dictionaries and such that the values of every key, in the order in which the records
  and their items are visited, can be added up from the left. The aggregation raises
  nothing, and the rows it hands to the writer are, in this order, one row per key in the
  order in which the keys are first met; the value of a row is the sum, taken from the
  left, of all the values its key has in all the records.
\<close>

theorem totals_in_first_seen_order:
  assumes "list_all has_data demos" and "totals_defined rt demos"
  shows "\<exists>tot ks.
           aggregate rt [] demos = Inr tot
         \<and> ks = first_seen (map fst (all_items demos))
         \<and> length (demography_rows tot) = length ks
         \<and> (\<forall>j<length ks. \<exists>v vs t.
                values_for (ks ! j) (all_items demos) = v # vs
              \<and> sum_from rt v vs = Inr t
              \<and> demography_rows tot ! j = [(''_id'', JStr (ks ! j)), (''value'', t)])"
proof -
  from aggregate_char [OF assms] obtain tot where
    run: "aggregate rt [] demos = Inr tot"
    and keys: "map fst tot = first_seen (map fst (all_items demos))"
    and sums: "\<And>k. k \<in> fst ` set (all_items demos) \<Longrightarrow> \<exists>v vs t.
                  values_for k (all_items demos) = v # vs \<and> sum_from rt v vs = Inr t
                \<and> map_of tot k = Some t"
    by blast
  define ks where "ks = first_seen (map fst (all_items demos))"
  have len: "length tot = length ks"
    using keys unfolding ks_def by (metis length_map)
  have dist: "distinct (map fst tot)"
    by (simp add: keys)
  have row: "\<exists>v vs t. values_for (ks ! j) (all_items demos) = v # vs
              \<and> sum_from rt v vs = Inr t
              \<and> demography_rows tot ! j = [(''_id'', JStr (ks ! j)), (''value'', t)]"
    if j: "j < length ks" for j
  proof -
    have fj: "fst (tot ! j) = ks ! j"
      using keys j len unfolding ks_def by (metis nth_map)
    have "ks ! j \<in> set ks" using j by simp
    then have "ks ! j \<in> fst ` set (all_items demos)" by (simp add: ks_def)
    from sums [OF this] obtain v vs t where
      t: "values_for (ks ! j) (all_items demos) = v # vs" "sum_from rt v vs = Inr t"
         "map_of tot (ks ! j) = Some t"
      by blast
    have "tot ! j \<in> set tot" using j len by simp
    then have "(ks ! j, snd (tot ! j)) \<in> set tot" using fj by (metis prod.collapse)
    with dist have "map_of tot (ks ! j) = Some (snd (tot ! j))" by simp
    with t(3) have "snd (tot ! j) = t" by simp
    with fj j len have "demography_rows tot ! j = [(''_id'', JStr (ks ! j)), (''value'', t)]"
      by (simp add: demography_rows_def)
    with t show ?thesis by blast
  qed
  have "length (demography_rows tot) = length ks"
    using len by (simp add: demography_rows_def)
  with run row show ?thesis
    unfolding ks_def by blast
qed

theorem totals_in_first_seen_order_witness:
  "list_all has_data [population_record ''X'' 10, population_record ''X'' 5, population_record ''Y'' 3]
   \<and> totals_defined ref_runtime [population_record ''X'' 10, population_record ''X'' 5, population_record ''Y'' 3]
   \<and> (\<exists>tot. aggregate ref_runtime []
               [population_record ''X'' 10, population_record ''X'' 5, population_record ''Y'' 3] = Inr tot
         \<and> demography_rows tot =
             [[(''_id'', JStr ''X''), (''value'', JInt 15)], [(''_id'', JStr ''Y''), (''value'', JInt 3)]])"
proof -
  let ?demos = "[population_record ''X'' 10, population_record ''X'' 5, population_record ''Y'' 3]"
  have h: "list_all has_data ?demos"
    by (simp add: population_record_def)
  have its: "all_items ?demos = [(''X'', JInt 10), (''X'', JInt 5), (''Y'', JInt 3)]"
    by (simp add: all_items_def data_items_def population_record_def)
  have ks: "first_seen (map fst (all_items ?demos)) = [''X'', ''Y'']"
    by (simp add: its first_seen_def)
  have vx: "values_for ''X'' (all_items ?demos) = [JInt 10, JInt 5]"
    and vy: "values_for ''Y'' (all_items ?demos) = [JInt 3]"
    by (simp_all add: its values_for_def)
  have ia: "py_iadd ref_runtime (JInt 10) (JInt 5) = Inr (JInt 15)"
    by (simp add: py_iadd_def py_add_def)
  then have sx: "sum_from ref_runtime (JInt 10) [JInt 5] = Inr (JInt 15)"
    by simp
  have h2: "totals_defined ref_runtime ?demos"
    unfolding totals_defined_def by (simp add: its values_for_def summable_def ia)
  from totals_in_first_seen_order [OF h h2] obtain tot where
    run: "aggregate ref_runtime [] ?demos = Inr tot"
    and len: "length (demography_rows tot) = 2"
    and rows: "\<And>j. j < 2 \<Longrightarrow> \<exists>v vs t.
                values_for ([''X'', ''Y''] ! j) (all_items ?demos) = v # vs
              \<and> sum_from ref_runtime v vs = Inr t
              \<and> demography_rows tot ! j = [(''_id'', JStr ([''X'', ''Y''] ! j)), (''value'', t)]"
    unfolding ks by auto
  from rows [of 0] have r0: "demography_rows tot ! 0 = [(''_id'', JStr ''X''), (''value'', JInt 15)]"
    by (auto simp: vx ia)
  from rows [of 1] have r1: "demography_rows tot ! 1 = [(''_id'', JStr ''Y''), (''value'', JInt 3)]"
    by (auto simp: vy)
  from list2_eq [OF len r0 r1] run h h2 show ?thesis by blast
qed

subsection \<open>Keys that match no area\<close>

lemma find_area_none:
  "list_all (\<lambda>sa. area_id sa \<noteq> JStr k) areas \<Longrightarrow> find_area areas k = None"
  by (auto simp: find_area_def find_None_iff list_all_iff area_id_def)

text \<open>A converted record still has a dictionary for its data.\<close>

lemma convert_demo_has_data:
  assumes "has_data demo" and "convert_demo rt areas demo = Inr demo'"
  shows "has_data demo'"
proof -
  from assms(1) obtain d its where d: "demo = JObj d" "map_of d ''data'' = Some (JObj its)"
    by (cases demo) (auto split: option.splits json.splits)
  show ?thesis
  proof (cases "(case map_of d ''metric'' of None \<Rightarrow> JNull | Some v \<Rightarrow> v) = JStr ''deer density''")
    case False
    with assms(2) d(1) have "demo' = JObj d" by simp
    then show ?thesis using d(2) by simp
  next
    case True
    with assms(2) d obtain its' where
      "demo' = JObj (AList.update ''metric'' (JStr converted_label) (AList.update ''data'' (JObj its') d))"
      by (cases "convert_items rt areas its its") auto
    then show ?thesis by (simp add: update_conv')
  qed
qed

lemma values_for_member: "(k, v) \<in> set its \<Longrightarrow> v \<in> set (values_for k its)"
  by (force simp: values_for_def)

lemma all_items_member:
  "i < length demos \<Longrightarrow> kv \<in> set (data_items (demos ! i)) \<Longrightarrow> kv \<in> set (all_items demos)"
  by (auto simp: all_items_def)

text \<open>
  C10. Let every record be convertible and have a dictionary for its data, and let the
  values of every key in the converted records be summable, so that neither loop raises.
  Take a record whose metric is \<^verbatim>\<open>deer density\<close> and an entry \<open>(k, v)\<close> of its data
  whose key is the id of no area. The conversion returns, the entry still holds \<open>v\<close>, the
  metric of the record is the population label all the same, and the aggregation then
  returns a total for \<open>k\<close> that is the sum of the values \<open>k\<close> has in the converted
  records, \<open>v\<close> among them.
\<close>

theorem unmatched_density_is_summed:
  assumes "list_all (convertible rt areas) demos" and "list_all has_data demos"
    and "\<forall>demos'. convert_all rt areas demos = Inr demos' \<longrightarrow> totals_defined rt demos'"
    and "i < length demos" and "demos ! i = JObj d"
    and "map_of d ''metric'' = Some (JStr ''deer density'')"
    and "map_of d ''data'' = Some (JObj its)" and "distinct (map fst its)"
    and "(k, v) \<in> set its"
    and "list_all (\<lambda>sa. area_id sa \<noteq> JStr k) areas"
  shows "\<exists>demos' d' its' tot w ws t.
           convert_all rt areas demos = Inr demos'
         \<and> demos' ! i = JObj d'
         \<and> map_of d' ''metric'' = Some (JStr ''total population (converted from density)'')
         \<and> map_of d' ''data'' = Some (JObj its')
         \<and> map_of its' k = Some v
         \<and> aggregate rt [] demos' = Inr tot
         \<and> values_for k (all_items demos') = w # ws
         \<and> v \<in> set (w # ws)
         \<and> sum_from rt w ws = Inr t
         \<and> map_of tot k = Some t"
proof -
  from convert_all_each [OF assms(1)] obtain demos' where
    run: "convert_all rt areas demos = Inr demos'" and len: "length demos' = length demos"
    and each: "\<forall>j<length demos. convert_demo rt areas (demos ! j) = Inr (demos' ! j)"
    by blast
  have hd: "list_all has_data demos'"
    unfolding list_all_length
  proof (intro allI impI)
    fix j assume j: "j < length demos'"
    with assms(2) len have "has_data (demos ! j)" by (simp add: list_all_length)
    moreover from each j len have "convert_demo rt areas (demos ! j) = Inr (demos' ! j)" by simp
    ultimately show "has_data (demos' ! j)" by (rule convert_demo_has_data)
  qed
  from assms(3) run have td: "totals_defined rt demos'" by blast
  from each assms(4,5) have di0: "convert_demo rt areas (JObj d) = Inr (demos' ! i)" by auto
  have "convertible rt areas (JObj d)"
    using assms(1,4,5) by (auto simp: list_all_length)
  then have "list_all (converts rt areas) its"
    using assms(6,7) by simp
  then obtain its' where its': "convert_items rt areas its its = Inr its'"
    using convert_items_returns [of rt areas its its] by blast
  let ?d' = "AList.update ''metric'' (JStr converted_label) (AList.update ''data'' (JObj its') d)"
  have "convert_demo rt areas (JObj d) = Inr (JObj ?d')"
    by (rule convert_demo_density [OF assms(6,7) its'])
  with di0 have di: "demos' ! i = JObj ?d'" by simp
  have m: "map_of ?d' ''metric'' = Some (JStr ''total population (converted from density)'')"
    by (simp add: update_conv' converted_label_def)
  have dt: "map_of ?d' ''data'' = Some (JObj its')"
    by (simp add: update_conv')
  have kv: "map_of its k = Some v" using assms(8,9) by simp
  with convert_items_char [OF assms(8) its', of k] find_area_none [OF assms(10)]
  have same: "map_of its' k = Some v" by simp
  then have "(k, v) \<in> set its'" by (rule map_of_SomeD)
  moreover have "data_items (demos' ! i) = its'"
    by (simp add: di data_items_def dt)
  ultimately have mem: "(k, v) \<in> set (all_items demos')"
    using all_items_member [of i demos' "(k, v)"] assms(4) len by simp
  then have "k \<in> fst ` set (all_items demos')" by force
  with aggregate_char [OF hd td] obtain tot w ws t where
    agg: "aggregate rt [] demos' = Inr tot" "values_for k (all_items demos') = w # ws"
      "sum_from rt w ws = Inr t" "map_of tot k = Some t"
    by blast
  from values_for_member [OF mem] agg(2) have "v \<in> set (w # ws)" by simp
  with run di m dt same agg show ?thesis by blast
qed

theorem unmatched_density_is_summed_witness:
  "list_all (convertible ref_runtime [area_A, area_A2, area_B]) [JObj density_record, population_record ''Z'' 3]
   \<and> list_all has_data [JObj density_record, population_record ''Z'' 3]
   \<and> [JObj density_record, population_record ''Z'' 3] ! 0 = JObj density_record
   \<and> map_of density_record ''metric'' = Some (JStr ''deer density'')
   \<and> map_of density_record ''data'' =
       Some (JObj [(''A'', JFloat (Fin 5)), (''B'', JFloat (Fin (5 / 2))), (''Z'', JFloat (Fin 7))])
   \<and> list_all (\<lambda>sa. area_id sa \<noteq> JStr ''Z'') [area_A, area_A2, area_B]
   \<and> (\<exists>demos' d' its' tot.
         convert_all ref_runtime [area_A, area_A2, area_B] [JObj density_record, population_record ''Z'' 3]
           = Inr demos'
       \<and> totals_defined ref_runtime demos'
       \<and> demos' ! 0 = JObj d'
       \<and> map_of d' ''metric'' = Some (JStr ''total population (converted from density)'')
       \<and> map_of d' ''data'' = Some (JObj its')
       \<and> map_of its' ''Z'' = Some (JFloat (Fin 7))
       \<and> aggregate ref_runtime [] demos' = Inr tot
       \<and> map_of tot ''Z'' = Some (JFloat (Fin 10)))"
proof -
  let ?its = "[(''A'', JFloat (Fin 5)), (''B'', JFloat (Fin (5 / 2))), (''Z'', JFloat (Fin 7))]"
  let ?areas = "[area_A, area_A2, area_B]"
  let ?demos = "[JObj density_record, population_record ''Z'' 3]"
  let ?conv = "[JObj [(''species'', JStr ''deer''), (''metric'', JStr ''total population (converted from density)''),
                (''season_year'', JStr ''2024''),
                (''data'', JObj [(''A'', JInt 10), (''B'', JInt 2), (''Z'', JFloat (Fin 7))])],
          population_record ''Z'' 3]"
  have cv: "convert_all ref_runtime ?areas ?demos = Inr ?conv"
    by (rule convert_all_example)
  have h1: "list_all (convertible ref_runtime ?areas) ?demos"
    using convert_all_returns [of ref_runtime ?areas ?demos] cv by simp
  have h2: "list_all has_data ?demos"
    by (simp add: density_record_def population_record_def)
  have ai: "all_items ?conv = [(''A'', JInt 10), (''B'', JInt 2), (''Z'', JFloat (Fin 7)), (''Z'', JInt 3)]"
    by (simp add: all_items_def data_items_def population_record_def)
  have ia: "py_iadd ref_runtime (JFloat (Fin 7)) (JInt 3) = Inr (JFloat (Fin 10))"
    by (simp add: py_iadd_def py_add_def ref_runtime_def)
  have td: "totals_defined ref_runtime ?conv"
    unfolding totals_defined_def by (simp add: ai values_for_def summable_def ia)
  have h3: "\<forall>demos'. convert_all ref_runtime ?areas ?demos = Inr demos' \<longrightarrow> totals_defined ref_runtime demos'"
    using td by (simp add: cv)
  have h4: "0 < length ?demos" and h5: "?demos ! 0 = JObj density_record" by simp_all
  have h6: "map_of density_record ''metric'' = Some (JStr ''deer density'')"
    and h7: "map_of density_record ''data'' = Some (JObj ?its)"
    by (simp_all add: density_record_def)
  have h8: "distinct (map fst ?its)" and h9: "(''Z'', JFloat (Fin 7)) \<in> set ?its" by simp_all
  have h10: "list_all (\<lambda>sa. area_id sa \<noteq> JStr ''Z'') ?areas"
    by (simp add: area_id_def area_A_def area_A2_def area_B_def)
  from unmatched_density_is_summed [OF h1 h2 h3 h4 h5 h6 h7 h8 h9 h10]
  obtain demos' d' its' tot w ws t where r:
    "convert_all ref_runtime ?areas ?demos = Inr demos'"
    "demos' ! 0 = JObj d'"
    "map_of d' ''metric'' = Some (JStr ''total population (converted from density)'')"
    "map_of d' ''data'' = Some (JObj its')"
    "map_of its' ''Z'' = Some (JFloat (Fin 7))"
    "aggregate ref_runtime [] demos' = Inr tot"
    "values_for ''Z'' (all_items demos') = w # ws"
    "sum_from ref_runtime w ws = Inr t"
    "map_of tot ''Z'' = Some t"
    by blast
  from r(1) cv have dc: "demos' = ?conv" by simp
  then have "values_for ''Z'' (all_items demos') = [JFloat (Fin 7), JInt 3]"
    by (simp add: ai values_for_def)
  with r(7,8) have "t = JFloat (Fin 10)"
    by (auto simp: ia)
  moreover have "totals_defined ref_runtime demos'" using td dc by simp
  ultimately show ?thesis using r h1 h2 h5 h6 h7 h10 by blast
qed

subsection \<open>Coercion of the model's table\<close>

lemma coerce_text_step:
  assumes "map_of r f = Some (CStr s)"
  shows "\<exists>r'. coerce_text f r = Inr r' \<and> map_of r' = (map_of r)(f \<mapsto> text_value s)
           \<and> map fst r' = map fst r"
proof (cases "s = ''NA''")
  case True
  from assms have "f \<in> set (map fst r)" by (metis map_of_eq_None_iff option.distinct(1) set_map)
  with True assms show ?thesis
    by (simp add: coerce_text_def text_value_def update_conv' update_keys)
next
  case False
  from assms have "(map_of r)(f \<mapsto> CStr s) = map_of r" by (rule map_upd_triv)
  with False assms show ?thesis
    by (simp add: coerce_text_def text_value_def)
qed

lemma coerce_int_step:
  assumes "map_of r f = Some (CStr s)" and "only_ValueError (py_int bi)"
  shows "\<exists>r'. coerce_int bi f r = Inr r' \<and> map_of r' = (map_of r)(f \<mapsto> int_value bi s)
           \<and> map fst r' = map fst r"
proof -
  from assms(1) have k: "f \<in> set (map fst r)" by (metis map_of_eq_None_iff option.distinct(1) set_map)
  from assms(2) have "case py_int bi (CStr s) of Inl e \<Rightarrow> e = ValueError | Inr x \<Rightarrow> True"
    unfolding only_ValueError_def by blast
  with assms(1) k show ?thesis
    by (cases "py_int bi (CStr s)")
       (simp_all add: coerce_int_def int_value_def update_conv' update_keys)
qed

lemma coerce_float_step:
  assumes "map_of r f = Some (CStr s)" and "only_ValueError (py_float bi)"
  shows "\<exists>r'. coerce_float bi f r = Inr r' \<and> map_of r' = (map_of r)(f \<mapsto> float_value bi s)
           \<and> map fst r' = map fst r"
proof -
  from assms(1) have k: "f \<in> set (map fst r)" by (metis map_of_eq_None_iff option.distinct(1) set_map)
  from assms(2) have "case py_float bi (CStr s) of Inl e \<Rightarrow> e = ValueError | Inr x \<Rightarrow> True"
    unfolding only_ValueError_def by blast
  with assms(1) k show ?thesis
    by (cases "py_float bi (CStr s)")
       (simp_all add: coerce_float_def float_value_def update_conv' update_keys)
qed

lemma text_atD: "text_at r f \<Longrightarrow> \<exists>s. map_of r f = Some (CStr s)"
  by (auto simp: text_at_def split: option.splits cell.splits)

text \<open>A loop over distinct fields, each step of which stores into its own field only.\<close>

lemma efold_steps:
  assumes step: "\<And>f r s. f \<in> set fs \<Longrightarrow> map_of r f = Some (CStr s) \<Longrightarrow>
             \<exists>r'. st f r = Inr r' \<and> map_of r' = (map_of r)(f \<mapsto> val s) \<and> map fst r' = map fst r"
    and "distinct fs" and "\<forall>f\<in>set fs. \<exists>s. map_of r f = Some (CStr s)"
  shows "\<exists>r'. efold st fs r = Inr r' \<and> map fst r' = map fst r
           \<and> (\<forall>f s. f \<in> set fs \<longrightarrow> map_of r f = Some (CStr s) \<longrightarrow> map_of r' f = Some (val s))
           \<and> (\<forall>f. f \<notin> set fs \<longrightarrow> map_of r' f = map_of r f)"
  using assms
proof (induction fs arbitrary: r)
  case Nil
  then show ?case by simp
next
  case (Cons g gs)
  from Cons.prems(3) obtain sg where sg: "map_of r g = Some (CStr sg)" by auto
  have "g \<in> set (g # gs)" by simp
  from Cons.prems(1) [OF this sg] obtain r1 where
    r1: "st g r = Inr r1" "map_of r1 = (map_of r)(g \<mapsto> val sg)" "map fst r1 = map fst r"
    by blast
  from Cons.prems(2) have g: "g \<notin> set gs" and dist: "distinct gs" by simp_all
  have cells: "\<forall>f\<in>set gs. \<exists>s. map_of r1 f = Some (CStr s)"
    using Cons.prems(3) g by (auto simp: r1(2))
  have step': "\<exists>r'. st f r = Inr r' \<and> map_of r' = (map_of r)(f \<mapsto> val s) \<and> map fst r' = map fst r"
    if "f \<in> set gs" "map_of r f = Some (CStr s)" for f r s
    by (rule Cons.prems(1)) (use that in simp_all)
  from Cons.IH [OF step' dist cells] obtain r' where
    r': "efold st gs r1 = Inr r'" "map fst r' = map fst r1"
    and upd: "\<And>f s. f \<in> set gs \<Longrightarrow> map_of r1 f = Some (CStr s) \<Longrightarrow> map_of r' f = Some (val s)"
    and same: "\<And>f. f \<notin> set gs \<Longrightarrow> map_of r' f = map_of r1 f"
    by blast
  have a: "map_of r' f = Some (val s)" if "f \<in> set (g # gs)" "map_of r f = Some (CStr s)" for f s
  proof (cases "f = g")
    case True
    with same [OF g] that sg show ?thesis by (simp add: r1(2))
  next
    case False
    with that have "f \<in> set gs" "map_of r1 f = Some (CStr s)" by (simp_all add: r1(2))
    then show ?thesis by (rule upd)
  qed
  have b: "map_of r' f = map_of r f" if "f \<notin> set (g # gs)" for f
    using that same [of f] by (simp add: r1(2))
  show ?case
    using r1(1,3) r' a b by (intro exI [of _ r']) simp
qed

text \<open>The body of the loop, on one row that holds text under all eight fields.\<close>

lemma coerce_row_degrades:
  assumes "list_all (text_at r) (text_fields @ integer_fields @ float_fields)"
    and "only_ValueError (py_int bi)" and "only_ValueError (py_float bi)"
  shows "\<exists>r'. coerce_row bi r = Inr r' \<and> map fst r' = map fst r
           \<and> (\<forall>f\<in>set text_fields. \<exists>s. map_of r f = Some (CStr s) \<and> map_of r' f = Some (text_value s))
           \<and> (\<forall>f\<in>set integer_fields. \<exists>s. map_of r f = Some (CStr s) \<and> map_of r' f = Some (int_value bi s))
           \<and> (\<forall>f\<in>set float_fields. \<exists>s. map_of r f = Some (CStr s) \<and> map_of r' f = Some (float_value bi s))
           \<and> (\<forall>f. f \<notin> set (text_fields @ integer_fields @ float_fields) \<longrightarrow> map_of r' f = map_of r f)"
proof -
  have cells: "\<exists>s. map_of r f = Some (CStr s)" if "f \<in> set (text_fields @ integer_fields @ float_fields)" for f
    using assms(1) that text_atD unfolding list_all_iff by blast
  have d1: "distinct text_fields" and d2: "distinct integer_fields" and d3: "distinct float_fields"
    by (simp_all add: text_fields_def integer_fields_def float_fields_def)
  have x12: "set text_fields \<inter> set integer_fields = {}"
    and x13: "set text_fields \<inter> set float_fields = {}"
    and x23: "set integer_fields \<inter> set float_fields = {}"
    by (simp_all add: text_fields_def integer_fields_def float_fields_def)
  have "\<forall>f\<in>set text_fields. \<exists>s. map_of r f = Some (CStr s)" using cells by simp
  from efold_steps [where st = coerce_text and val = text_value, OF coerce_text_step d1 this]
  obtain r1 where r1: "efold coerce_text text_fields r = Inr r1" "map fst r1 = map fst r"
    and u1: "\<And>f s. f \<in> set text_fields \<Longrightarrow> map_of r f = Some (CStr s) \<Longrightarrow> map_of r1 f = Some (text_value s)"
    and s1: "\<And>f. f \<notin> set text_fields \<Longrightarrow> map_of r1 f = map_of r f"
    by blast
  have "\<forall>f\<in>set integer_fields. \<exists>s. map_of r1 f = Some (CStr s)"
  proof
    fix f assume f: "f \<in> set integer_fields"
    with x12 have "f \<notin> set text_fields" by blast
    then have "map_of r1 f = map_of r f" by (rule s1)
    with cells [of f] f show "\<exists>s. map_of r1 f = Some (CStr s)" by simp
  qed
  from efold_steps [where st = "coerce_int bi" and val = "int_value bi",
      OF coerce_int_step [OF _ assms(2)] d2 this]
  obtain r2 where r2: "efold (coerce_int bi) integer_fields r1 = Inr r2" "map fst r2 = map fst r1"
    and u2: "\<And>f s. f \<in> set integer_fields \<Longrightarrow> map_of r1 f = Some (CStr s) \<Longrightarrow>
               map_of r2 f = Some (int_value bi s)"
    and s2: "\<And>f. f \<notin> set integer_fields \<Longrightarrow> map_of r2 f = map_of r1 f"
    by blast
  have "\<forall>f\<in>set float_fields. \<exists>s. map_of r2 f = Some (CStr s)"
  proof
    fix f assume f: "f \<in> set float_fields"
    with x13 x23 have "f \<notin> set text_fields" "f \<notin> set integer_fields" by blast+
    then have "map_of r2 f = map_of r f" by (simp add: s1 s2)
    with cells [of f] f show "\<exists>s. map_of r2 f = Some (CStr s)" by simp
  qed
  from efold_steps [where st = "coerce_float bi" and val = "float_value bi",
      OF coerce_float_step [OF _ assms(3)] d3 this]
  obtain r3 where r3: "efold (coerce_float bi) float_fields r2 = Inr r3" "map fst r3 = map fst r2"
    and u3: "\<And>f s. f \<in> set float_fields \<Longrightarrow> map_of r2 f = Some (CStr s) \<Longrightarrow>
               map_of r3 f = Some (float_value bi s)"
    and s3: "\<And>f. f \<notin> set float_fields \<Longrightarrow> map_of r3 f = map_of r2 f"
    by blast
  have run: "coerce_row bi r = Inr r3"
    by (simp add: coerce_row_def r1(1) r2(1) r3(1))
  have keys: "map fst r3 = map fst r"
    by (simp add: r1(2) r2(2) r3(2))
  have t: "\<exists>s. map_of r f = Some (CStr s) \<and> map_of r3 f = Some (text_value s)"
    if f: "f \<in> set text_fields" for f
  proof -
    from cells f obtain s where s: "map_of r f = Some (CStr s)" by auto
    from f x12 x13 have "f \<notin> set integer_fields" "f \<notin> set float_fields" by auto
    with u1 [OF f s] s2 s3 s show ?thesis by simp
  qed
  have i: "\<exists>s. map_of r f = Some (CStr s) \<and> map_of r3 f = Some (int_value bi s)"
    if f: "f \<in> set integer_fields" for f
  proof -
    from cells f obtain s where s: "map_of r f = Some (CStr s)" by auto
    from f x12 x23 have n: "f \<notin> set text_fields" "f \<notin> set float_fields" by auto
    with s s1 have "map_of r1 f = Some (CStr s)" by simp
    from u2 [OF f this] n s3 s show ?thesis by simp
  qed
  have fl: "\<exists>s. map_of r f = Some (CStr s) \<and> map_of r3 f = Some (float_value bi s)"
    if f: "f \<in> set float_fields" for f
  proof -
    from cells f obtain s where s: "map_of r f = Some (CStr s)" by auto
    from f x13 x23 have n: "f \<notin> set text_fields" "f \<notin> set integer_fields" by auto
    with s s1 s2 have "map_of r2 f = Some (CStr s)" by simp
    from u3 [OF f this] s show ?thesis by simp
  qed
  have other: "map_of r3 f = map_of r f"
    if "f \<notin> set (text_fields @ integer_fields @ float_fields)" for f
    using that s1 s2 s3 by simp
  show ?thesis
    using run keys t i fl other by (intro exI [of _ r3]) blast
qed

lemma map_of_from_reader:
  "map_of (from_reader r) f = map_option (\<lambda>v. case v of None \<Rightarrow> CNone | Some t \<Rightarrow> CStr t) (map_of r f)"
  by (induction r) (simp_all add: from_reader_def)

lemma keys_from_reader: "map fst (from_reader r) = map fst r"
  by (simp add: from_reader_def)

lemma full_row_text_at:
  assumes "full_row r"
  shows "list_all (text_at (from_reader r)) (text_fields @ integer_fields @ float_fields)"
  unfolding list_all_iff
proof
  fix f assume "f \<in> set (text_fields @ integer_fields @ float_fields)"
  with assms have "case map_of r f of Some (Some t) \<Rightarrow> True | _ \<Rightarrow> False"
    unfolding full_row_def list_all_iff by blast
  then show "text_at (from_reader r) f"
    by (auto simp: text_at_def map_of_from_reader split: option.splits)
qed

lemma from_reader_text:
  "map_of (from_reader r) f = Some (CStr t) \<Longrightarrow> map_of r f = Some (Some t)"
  by (auto simp: map_of_from_reader split: option.splits)

text \<open>
  C3. Let every record of the model's table hold text under all eight fields, and let
  \<^verbatim>\<open>int()\<close> and \<^verbatim>\<open>float()\<close> of a text either return or raise ValueError. The loop
  over the rows rejects none: it returns as many rows as it was given, and the script
  writes these rows as its document. Each row has the columns it came with; a text field
  holds \<^verbatim>\<open>None\<close> for \<^verbatim>\<open>"NA"\<close> and its text otherwise, an integer or float field
  holds \<^verbatim>\<open>None\<close> for \<^verbatim>\<open>"NA"\<close>, the parsed number when the builtin returns one and
  \<^verbatim>\<open>None\<close> when it raises, and every other column is as the reader gave it.
\<close>

theorem coercion_degrades_to_null:
  fixes bi :: "('f, 'z) builtins_scheme"
  assumes "list_all full_row rows"
    and "only_ValueError (py_int bi)" and "only_ValueError (py_float bi)"
  shows "\<exists>rows'.
           coerce_rows bi (map from_reader rows) = Inr rows' \<and> length rows' = length rows
         \<and> output_json (snd (output_pipeline bi (Some rows) st)) = Some rows'
         \<and> (\<forall>i<length rows.
               map fst (rows' ! i) = map fst (rows ! i)
             \<and> (\<forall>f\<in>set text_fields. \<exists>t.
                   map_of (rows ! i) f = Some (Some t) \<and> map_of (rows' ! i) f = Some (text_value t))
             \<and> (\<forall>f\<in>set integer_fields. \<exists>t.
                   map_of (rows ! i) f = Some (Some t) \<and> map_of (rows' ! i) f = Some (int_value bi t))
             \<and> (\<forall>f\<in>set float_fields. \<exists>t.
                   map_of (rows ! i) f = Some (Some t) \<and> map_of (rows' ! i) f = Some (float_value bi t))
             \<and> (\<forall>f. f \<notin> set (text_fields @ integer_fields @ float_fields) \<longrightarrow>
                   map_of (rows' ! i) f = map_of (from_reader (rows ! i)) f))"
proof -
  have ok: "\<forall>x\<in>set (map from_reader rows :: 'f row list). \<exists>y. coerce_row bi x = Inr y"
  proof
    fix x :: "'f row" assume "x \<in> set (map from_reader rows)"
    then obtain r where r: "r \<in> set rows" "x = from_reader r" by auto
    with assms(1) have "full_row r" by (simp add: list_all_iff)
    from coerce_row_degrades [OF full_row_text_at [OF this] assms(2,3)] r(2)
    show "\<exists>y. coerce_row bi x = Inr y" by blast
  qed
  from emap_all_ok [OF ok] obtain rows' where
    run: "coerce_rows bi (map from_reader rows) = Inr rows'" and len: "length rows' = length rows"
    and each: "\<forall>i<length rows. coerce_row bi (from_reader (rows ! i)) = Inr (rows' ! i)"
    by (auto simp: coerce_rows_def)
  have doc: "output_json (snd (output_pipeline bi (Some rows) st)) = Some rows'"
    using run by (simp add: output_pipeline_def Let_def out_html_def out_error_def split: sum.split)
  have row: "map fst (rows' ! i) = map fst (rows ! i)
             \<and> (\<forall>f\<in>set text_fields. \<exists>t.
                   map_of (rows ! i) f = Some (Some t) \<and> map_of (rows' ! i) f = Some (text_value t))
             \<and> (\<forall>f\<in>set integer_fields. \<exists>t.
                   map_of (rows ! i) f = Some (Some t) \<and> map_of (rows' ! i) f = Some (int_value bi t))
             \<and> (\<forall>f\<in>set float_fields. \<exists>t.
                   map_of (rows ! i) f = Some (Some t) \<and> map_of (rows' ! i) f = Some (float_value bi t))
             \<and> (\<forall>f. f \<notin> set (text_fields @ integer_fields @ float_fields) \<longrightarrow>
                   map_of (rows' ! i) f = map_of (from_reader (rows ! i)) f)"
    if i: "i < length rows" for i
  proof -
    let ?r = "from_reader (rows ! i) :: 'f row"
    have "rows ! i \<in> set rows" using i by simp
    with assms(1) have "full_row (rows ! i)" unfolding list_all_iff by blast
    from coerce_row_degrades [OF full_row_text_at [OF this] assms(2,3)]
    obtain r' where r': "coerce_row bi ?r = Inr r'" "map fst r' = map fst ?r"
      and t: "\<And>f. f \<in> set text_fields \<Longrightarrow>
                \<exists>s. map_of ?r f = Some (CStr s) \<and> map_of r' f = Some (text_value s)"
      and n: "\<And>f. f \<in> set integer_fields \<Longrightarrow>
                \<exists>s. map_of ?r f = Some (CStr s) \<and> map_of r' f = Some (int_value bi s)"
      and fl: "\<And>f. f \<in> set float_fields \<Longrightarrow>
                \<exists>s. map_of ?r f = Some (CStr s) \<and> map_of r' f = Some (float_value bi s)"
      and o: "\<And>f. f \<notin> set (text_fields @ integer_fields @ float_fields) \<Longrightarrow> map_of r' f = map_of ?r f"
      by blast
    from each i have "coerce_row bi ?r = Inr (rows' ! i)" by blast
    with r'(1) have e: "rows' ! i = r'" by simp
    have 1: "map fst (rows' ! i) = map fst (rows ! i)"
      by (simp add: e r'(2) keys_from_reader)
    have 2: "\<forall>f\<in>set text_fields. \<exists>t.
                   map_of (rows ! i) f = Some (Some t) \<and> map_of (rows' ! i) f = Some (text_value t)"
      using t from_reader_text unfolding e by blast
    have 3: "\<forall>f\<in>set integer_fields. \<exists>t.
                   map_of (rows ! i) f = Some (Some t) \<and> map_of (rows' ! i) f = Some (int_value bi t)"
      using n from_reader_text unfolding e by blast
    have 4: "\<forall>f\<in>set float_fields. \<exists>t.
                   map_of (rows ! i) f = Some (Some t) \<and> map_of (rows' ! i) f = Some (float_value bi t)"
      using fl from_reader_text unfolding e by blast
    have 5: "\<forall>f. f \<notin> set (text_fields @ integer_fields @ float_fields) \<longrightarrow>
                   map_of (rows' ! i) f = map_of (from_reader (rows ! i)) f"
      using o unfolding e by blast
    from 1 2 3 4 5 show ?thesis by (intro conjI)
  qed
  show ?thesis
    using run len doc row by (intro exI [of _ rows'] conjI allI impI) auto
qed

theorem coercion_degrades_to_null_witness:
  "list_all full_row [example_row, second_row]
   \<and> only_ValueError (py_int ref_builtins) \<and> only_ValueError (py_float ref_builtins)
   \<and> (\<exists>rows'. coerce_rows ref_builtins (map from_reader [example_row, second_row]) = Inr rows'
         \<and> length rows' = 2
         \<and> output_json (snd (output_pipeline ref_builtins (Some [example_row, second_row]) before_output))
             = Some rows'
         \<and> map_of (rows' ! 0) ''n'' = Some CNone
         \<and> map_of (rows' ! 0) ''N'' = Some (CInt 12)
         \<and> map_of (rows' ! 0) ''bayes'' = Some (CFloat (1 / 2))
         \<and> map_of (rows' ! 0) ''Result'' = Some CNone
         \<and> map_of (rows' ! 0) ''freq'' = Some CNone
         \<and> map_of (rows' ! 0) ''SubAdminName'' = Some (CStr ''Albany'')
         \<and> map_of (rows' ! 1) ''SubAdminName'' = Some CNone
         \<and> map_of (rows' ! 1) ''n'' = Some (CInt 12)
         \<and> map_of (rows' ! 1) ''N'' = Some CNone
         \<and> map_of (rows' ! 1) ''freq'' = Some (CFloat (1 / 2))
         \<and> map_of (rows' ! 1) ''note'' = Some (CStr ''NA''))"
proof -
  let ?rows = "[example_row, second_row]"
  have h: "list_all full_row ?rows"
    by (simp add: full_row_def example_row_def second_row_def text_fields_def integer_fields_def
        float_fields_def)
  have c: "map_of example_row ''n'' = Some (Some ''NA'')" "map_of example_row ''N'' = Some (Some ''12'')"
    "map_of example_row ''bayes'' = Some (Some ''0.5'')" "map_of example_row ''Result'' = Some (Some ''NA'')"
    "map_of example_row ''freq'' = Some (Some ''abc'')"
    "map_of example_row ''SubAdminName'' = Some (Some ''Albany'')"
    by (simp_all add: example_row_def)
  have c2: "map_of second_row ''SubAdminName'' = Some (Some ''NA'')"
    "map_of second_row ''n'' = Some (Some ''12'')" "map_of second_row ''N'' = Some (Some ''abc'')"
    "map_of second_row ''freq'' = Some (Some ''0.5'')"
    "map_of (from_reader second_row :: rat row) ''note'' = Some (CStr ''NA'')"
    by (simp_all add: second_row_def from_reader_def)
  have ni: "py_int ref_builtins (CStr ''abc'') = Inl ValueError"
    by (simp add: ref_builtins_def read_int_def read_nat_def digit_val_def)
  from coercion_degrades_to_null [OF h ref_builtins_only_ValueError, of before_output]
  obtain rows' where run: "coerce_rows ref_builtins (map from_reader ?rows) = Inr rows'"
    and len: "length rows' = length ?rows"
    and doc: "output_json (snd (output_pipeline ref_builtins (Some ?rows) before_output)) = Some rows'"
    and all: "\<forall>i<length ?rows.
               map fst (rows' ! i) = map fst (?rows ! i)
             \<and> (\<forall>f\<in>set text_fields. \<exists>t.
                   map_of (?rows ! i) f = Some (Some t) \<and> map_of (rows' ! i) f = Some (text_value t))
             \<and> (\<forall>f\<in>set integer_fields. \<exists>t.
                   map_of (?rows ! i) f = Some (Some t) \<and> map_of (rows' ! i) f = Some (int_value ref_builtins t))
             \<and> (\<forall>f\<in>set float_fields. \<exists>t.
                   map_of (?rows ! i) f = Some (Some t) \<and> map_of (rows' ! i) f = Some (float_value ref_builtins t))
             \<and> (\<forall>f. f \<notin> set (text_fields @ integer_fields @ float_fields) \<longrightarrow>
                   map_of (rows' ! i) f = map_of (from_reader (?rows ! i)) f)"
    by blast
  from all [rule_format, of 0] have
    t0: "\<And>f. f \<in> set text_fields \<Longrightarrow> \<exists>t.
            map_of example_row f = Some (Some t) \<and> map_of (rows' ! 0) f = Some (text_value t)"
    and i0: "\<And>f. f \<in> set integer_fields \<Longrightarrow> \<exists>t.
            map_of example_row f = Some (Some t) \<and> map_of (rows' ! 0) f = Some (int_value ref_builtins t)"
    and f0: "\<And>f. f \<in> set float_fields \<Longrightarrow> \<exists>t.
            map_of example_row f = Some (Some t) \<and> map_of (rows' ! 0) f = Some (float_value ref_builtins t)"
    by simp_all
  from all [rule_format, of 1] have
    t1: "\<And>f. f \<in> set text_fields \<Longrightarrow> \<exists>t.
            map_of second_row f = Some (Some t) \<and> map_of (rows' ! 1) f = Some (text_value t)"
    and i1: "\<And>f. f \<in> set integer_fields \<Longrightarrow> \<exists>t.
            map_of second_row f = Some (Some t) \<and> map_of (rows' ! 1) f = Some (int_value ref_builtins t)"
    and f1: "\<And>f. f \<in> set float_fields \<Longrightarrow> \<exists>t.
            map_of second_row f = Some (Some t) \<and> map_of (rows' ! 1) f = Some (float_value ref_builtins t)"
    and o1: "\<And>f. f \<notin> set (text_fields @ integer_fields @ float_fields) \<Longrightarrow>
            map_of (rows' ! 1) f = map_of (from_reader second_row) f"
    by simp_all
  from i0 [of "''n''"] c(1) have 1: "map_of (rows' ! 0) ''n'' = Some CNone"
    by (auto simp: integer_fields_def int_value_def)
  from i0 [of "''N''"] c(2) have 2: "map_of (rows' ! 0) ''N'' = Some (CInt 12)"
    by (auto simp: integer_fields_def int_value_def ref_int_12)
  from f0 [of "''bayes''"] c(3) have 3: "map_of (rows' ! 0) ''bayes'' = Some (CFloat (1 / 2))"
    by (auto simp: float_fields_def float_value_def ref_float_half)
  from t0 [of "''Result''"] c(4) have 4: "map_of (rows' ! 0) ''Result'' = Some CNone"
    by (auto simp: text_fields_def text_value_def)
  from f0 [of "''freq''"] c(5) have 5: "map_of (rows' ! 0) ''freq'' = Some CNone"
    by (auto simp: float_fields_def float_value_def ref_float_abc)
  from t0 [of "''SubAdminName''"] c(6) have 6: "map_of (rows' ! 0) ''SubAdminName'' = Some (CStr ''Albany'')"
    by (auto simp: text_fields_def text_value_def)
  from t1 [of "''SubAdminName''"] c2(1) have 7: "map_of (rows' ! 1) ''SubAdminName'' = Some CNone"
    by (auto simp: text_fields_def text_value_def)
  from i1 [of "''n''"] c2(2) have 8: "map_of (rows' ! 1) ''n'' = Some (CInt 12)"
    by (auto simp: integer_fields_def int_value_def ref_int_12)
  from i1 [of "''N''"] c2(3) have 9: "map_of (rows' ! 1) ''N'' = Some CNone"
    by (auto simp: integer_fields_def int_value_def ni)
  from f1 [of "''freq''"] c2(4) have 10: "map_of (rows' ! 1) ''freq'' = Some (CFloat (1 / 2))"
    by (auto simp: float_fields_def float_value_def ref_float_half)
  from o1 [of "''note''"] c2(5) have 11: "map_of (rows' ! 1) ''note'' = Some (CStr ''NA'')"
    by (simp add: text_fields_def integer_fields_def float_fields_def)
  have l: "length rows' = 2" using len by simp
  show ?thesis
    using h ref_builtins_only_ValueError run l doc 1 2 3 4 5 6 7 8 9 10 11 by blast
qed

subsection \<open>A coercion that fails is fatal\<close>

lemma emap_fails: "x \<in> set xs \<Longrightarrow> f x = Inl e \<Longrightarrow> \<exists>e'. emap f xs = Inl e'"
  by (induction xs) (auto split: sum.splits)

lemma coerce_text_keys:
  "coerce_text f r = Inr r' \<Longrightarrow> (map_of r' g = None) = (map_of r g = None)"
  by (auto simp: coerce_text_def update_conv' split: option.splits if_splits)

lemma coerce_int_keys:
  "coerce_int bi f r = Inr r' \<Longrightarrow> (map_of r' g = None) = (map_of r g = None)"
  by (auto simp: coerce_int_def update_conv' split: option.splits if_splits sum.splits)

lemma coerce_float_keys:
  "coerce_float bi f r = Inr r' \<Longrightarrow> (map_of r' g = None) = (map_of r g = None)"
  by (auto simp: coerce_float_def update_conv' split: option.splits if_splits sum.splits)

lemma efold_keys:
  assumes "\<And>f r r'. st f r = Inr r' \<Longrightarrow> (map_of r' g = None) = (map_of r g = None)"
  shows "efold st fs r = Inr r' \<Longrightarrow> (map_of r' g = None) = (map_of r g = None)"
proof (induction fs arbitrary: r)
  case Nil
  then show ?case by simp
next
  case (Cons f fs)
  then obtain r1 where r1: "st f r = Inr r1" "efold st fs r1 = Inr r'"
    by (auto split: sum.splits)
  from Cons.IH [OF r1(2)] assms [OF r1(1)] show ?case by simp
qed

lemma efold_missing:
  assumes keys: "\<And>f r r'. st f r = Inr r' \<Longrightarrow> (map_of r' g = None) = (map_of r g = None)"
    and miss: "\<And>r. map_of r g = None \<Longrightarrow> \<exists>e. st g r = Inl e"
  shows "g \<in> set fs \<Longrightarrow> map_of r g = None \<Longrightarrow> \<exists>e. efold st fs r = Inl e"
proof (induction fs arbitrary: r)
  case Nil
  then show ?case by simp
next
  case (Cons f fs)
  show ?case
  proof (cases "st f r")
    case (Inl e)
    then show ?thesis by simp
  next
    case (Inr r1)
    from keys [OF Inr] Cons.prems(2) have m1: "map_of r1 g = None" by simp
    have "f \<noteq> g"
    proof
      assume "f = g"
      with miss [OF Cons.prems(2)] Inr show False by auto
    qed
    with Cons.prems(1) have "g \<in> set fs" by auto
    from Cons.IH [OF this m1] Inr show ?thesis by simp
  qed
qed

lemma efold_text_missing:
  assumes "g \<in> set fs" and "map_of r g = None"
  shows "\<exists>e. efold coerce_text fs r = Inl e"
proof (rule efold_missing [where st = coerce_text and g = g, OF _ _ assms])
  show "(map_of r' g = None) = (map_of r g = None)" if "coerce_text f r = Inr r'" for f r and r' :: "'a row"
    using that by (rule coerce_text_keys)
  show "\<exists>e. coerce_text g r = Inl e" if "map_of r g = None" for r :: "'a row"
    using that by (simp add: coerce_text_def)
qed

lemma efold_int_missing:
  assumes "g \<in> set fs" and "map_of r g = None"
  shows "\<exists>e. efold (coerce_int bi) fs r = Inl e"
proof (rule efold_missing [where st = "coerce_int bi" and g = g, OF _ _ assms])
  show "(map_of r' g = None) = (map_of r g = None)" if "coerce_int bi f r = Inr r'" for f r r'
    using that by (rule coerce_int_keys)
  show "\<exists>e. coerce_int bi g r = Inl e" if "map_of r g = None" for r
    using that by (simp add: coerce_int_def)
qed

lemma efold_float_missing:
  assumes "g \<in> set fs" and "map_of r g = None"
  shows "\<exists>e. efold (coerce_float bi) fs r = Inl e"
proof (rule efold_missing [where st = "coerce_float bi" and g = g, OF _ _ assms])
  show "(map_of r' g = None) = (map_of r g = None)" if "coerce_float bi f r = Inr r'" for f r r'
    using that by (rule coerce_float_keys)
  show "\<exists>e. coerce_float bi g r = Inl e" if "map_of r g = None" for r
    using that by (simp add: coerce_float_def)
qed

lemma coerce_row_missing:
  assumes "g \<in> set (text_fields @ integer_fields @ float_fields)" and "map_of r g = None"
  shows "\<exists>e. coerce_row bi r = Inl e"
proof (cases "efold coerce_text text_fields r")
  case (Inl e)
  then show ?thesis by (simp add: coerce_row_def)
next
  case (Inr r1)
  note one = Inr
  have m1: "map_of r1 g = None"
    using efold_keys [where st = coerce_text and g = g, OF coerce_text_keys one] assms(2) by simp
  have not1: "g \<notin> set text_fields"
    using efold_text_missing [of g text_fields r] assms(2) one by auto
  show ?thesis
  proof (cases "efold (coerce_int bi) integer_fields r1")
    case (Inl e)
    then show ?thesis by (simp add: coerce_row_def one)
  next
    case (Inr r2)
    have m2: "map_of r2 g = None"
      using efold_keys [where st = "coerce_int bi" and g = g, OF coerce_int_keys Inr] m1 by simp
    have not2: "g \<notin> set integer_fields"
      using efold_int_missing [of g integer_fields r1 bi] m1 Inr by auto
    from assms(1) not1 not2 have "g \<in> set float_fields" by simp
    from efold_float_missing [OF this m2, of bi]
    obtain e where "efold (coerce_float bi) float_fields r2 = Inl e" by blast
    then show ?thesis by (simp add: coerce_row_def one Inr)
  qed
qed

lemma from_reader_missing: "map_of r g = None \<Longrightarrow> map_of (from_reader r) g = None"
  by (induction r) (auto simp: from_reader_def)

lemma missing_field_fails:
  assumes "r \<in> set rows" and "g \<in> set (text_fields @ integer_fields @ float_fields)"
    and "map_of r g = None"
  shows "\<exists>e. coerce_rows bi (map from_reader rows) = Inl e"
proof -
  from coerce_row_missing [OF assms(2) from_reader_missing [OF assms(3)]]
  obtain e where "coerce_row bi (from_reader r) = Inl e" by blast
  moreover have "from_reader r \<in> set (map from_reader rows)" using assms(1) by simp
  ultimately show ?thesis
    unfolding coerce_rows_def by (rule emap_fails [rotated])
qed

text \<open>
  C5. When the coercion of the table raises (and it does whenever some row lacks one of
  the eight fields) the output script exits with status 1; the last entry of the
  execution log is the logged exception, the last line of the human-readable log reports
  the failure, and neither the output document nor the manifest has been touched.
\<close>

theorem coercion_failure_aborts:
  assumes "(\<exists>e. coerce_rows bi (map from_reader rows) = Inl e)
         \<or> (\<exists>r\<in>set rows. \<exists>g\<in>set (text_fields @ integer_fields @ float_fields). map_of r g = None)"
  shows "fst (output_pipeline bi (Some rows) s) = 1
       \<and> output_json (snd (output_pipeline bi (Some rows) s)) = output_json s
       \<and> attachments_json (snd (output_pipeline bi (Some rows) s)) = attachments_json s
       \<and> last (out_exec_log (snd (output_pipeline bi (Some rows) s))) =
           (ERROR, ''Failed to convert model output field value to floating point.'')
       \<and> last (out_html_log (snd (output_pipeline bi (Some rows) s))) =
           ''<p>ERROR: Failed to create output file.</p>''"
proof -
  from assms missing_field_fails obtain e where "coerce_rows bi (map from_reader rows) = Inl e"
    by blast
  then have "output_pipeline bi (Some rows) s =
      (1, out_html ''ERROR: Failed to create output file.'' ''p''
            (out_error ''Failed to convert model output field value to floating point.''
              (out_html ''Model Exports'' ''h3'' s)))"
    by (simp add: output_pipeline_def Let_def)
  then show ?thesis
    by (simp add: out_html_def out_error_def)
qed

theorem coercion_failure_aborts_witness:
  "short_row \<in> set [example_row, short_row]
   \<and> ''freq.se'' \<in> set (text_fields @ integer_fields @ float_fields)
   \<and> map_of short_row ''freq.se'' = None
   \<and> fst (output_pipeline ref_builtins (Some [example_row, short_row]) before_output) = 1
   \<and> output_json (snd (output_pipeline ref_builtins (Some [example_row, short_row]) before_output)) = None
   \<and> attachments_json (snd (output_pipeline ref_builtins (Some [example_row, short_row]) before_output))
       = Some (JArr [])
   \<and> last (out_exec_log (snd (output_pipeline ref_builtins (Some [example_row, short_row]) before_output))) =
           (ERROR, ''Failed to convert model output field value to floating point.'')
   \<and> last (out_html_log (snd (output_pipeline ref_builtins (Some [example_row, short_row]) before_output))) =
           ''<p>ERROR: Failed to create output file.</p>''"
proof -
  have a: "short_row \<in> set [example_row, short_row]" by simp
  have b: "''freq.se'' \<in> set (text_fields @ integer_fields @ float_fields)"
    by (simp add: float_fields_def)
  have c: "map_of short_row ''freq.se'' = None" by (simp add: short_row_def)
  from a b c have h: "(\<exists>e. coerce_rows ref_builtins (map from_reader [example_row, short_row]) = Inl e)
         \<or> (\<exists>r\<in>set [example_row, short_row].
               \<exists>g\<in>set (text_fields @ integer_fields @ float_fields). map_of r g = None)"
    by blast
  have s: "output_json before_output = None" "attachments_json before_output = Some (JArr [])"
    by (simp_all add: before_output_def)
  from coercion_failure_aborts [OF h, of before_output] a b c s show ?thesis by simp
qed

subsection \<open>What a run writes\<close>

lemma csv_files_write_csv:
  "csv_files (write_csv rt name fns rows s) =
     AList.update name (writeheader rt fns # map (writerow rt fns) rows) (csv_files s)"
  by (simp add: write_csv_def)

text \<open>The table the writer makes of field names and row dictionaries: the quoted names,
  then for each dictionary the fields of these names, each written from the value the
  dictionary has under the name, or from the empty string when it has none.\<close>

lemma table_layout:
  "writeheader rt fns # map (writerow rt fns) rows =
     map Quoted fns #
     map (\<lambda>d. map (\<lambda>k. write_field rt (case map_of d k of None \<Rightarrow> JStr [] | Some v \<Rightarrow> v)) fns) rows"
  by (simp add: writeheader_eq writerow_def dict_to_list_def)

text \<open>Each stage either stops the run, having written no file, or writes its one file
  from what it has computed of its input.\<close>

lemma stage_params_shape:
  "(\<exists>a s'. stage_params rt inp s = (Inl a, s') \<and> csv_files s' = csv_files s)
   \<or> (\<exists>p d s'. params_file inp = Some p \<and> delitem p ''_provider'' = Inr d
          \<and> stage_params rt inp s = (Inr d, s') \<and> csv_files s' = csv_files s)"
  by (simp add: stage_params_def Let_def split: option.split sum.split)

lemma stage_areas_shape:
  "(\<exists>a s'. stage_areas rt inp s = (Inl a, s') \<and> csv_files s' = csv_files s)
   \<or> (\<exists>raw rows s'. subadmin_file inp = Some raw \<and> normalize_areas raw = Inr rows
          \<and> stage_areas rt inp s = (Inr rows, s')
          \<and> csv_files s' = AList.update ''sub_administrative_area.csv''
               (writeheader rt area_fieldnames # map (writerow rt area_fieldnames) rows) (csv_files s))"
  by (simp add: stage_areas_def Let_def csv_files_write_csv split: option.split sum.split)

lemma log_demography_files: "csv_files (snd (log_demography rt ds s)) = csv_files s"
  by (induction ds arbitrary: s) (simp_all split: sum.split)

lemma stage_demography_shape:
  "(\<exists>a s'. stage_demography rt inp areas s = (Inl a, s') \<and> csv_files s' = csv_files s)
   \<or> (\<exists>demos demos' tot s'. demography_file inp = Some demos
          \<and> convert_all rt areas demos = Inr demos' \<and> aggregate rt [] demos' = Inr tot
          \<and> stage_demography rt inp areas s = (Inr (), s')
          \<and> csv_files s' = AList.update ''demography.csv''
               (writeheader rt [''_id'', ''value''] #
                map (writerow rt [''_id'', ''value'']) (demography_rows tot))
               (csv_files s))"
proof -
  have "(\<exists>a s'. then_stage (log_demography rt ds s1) (\<lambda>_ s2. (Inr (), write_csv rt name fns rows s2))
                   = (Inl a, s') \<and> csv_files s' = csv_files s1)
      \<or> (\<exists>s'. then_stage (log_demography rt ds s1) (\<lambda>_ s2. (Inr (), write_csv rt name fns rows s2))
                   = (Inr (), s')
            \<and> csv_files s' = AList.update name (writeheader rt fns # map (writerow rt fns) rows) (csv_files s1))"
    for ds s1 name fns rows
    using log_demography_files [of rt ds s1]
    by (cases "log_demography rt ds s1"; cases "fst (log_demography rt ds s1)")
       (auto simp: csv_files_write_csv)
  note tail = this
  show ?thesis
  proof (cases "demography_file inp")
    case None
    then show ?thesis by (simp add: stage_demography_def)
  next
    case (Some demos)
    show ?thesis
    proof (cases "convert_all rt areas demos")
      case (Inl e)
      with Some show ?thesis by (simp add: stage_demography_def)
    next
      case (Inr demos')
      note conv = Inr
      show ?thesis
      proof (cases "aggregate rt [] demos'")
        case (Inl e)
        with Some conv show ?thesis by (simp add: stage_demography_def)
      next
        case (Inr tot)
        from tail [of demos'
            "model_log_html ''Demographic data'' ''h4'' (log_info ''Demography file loaded successfully'' s)"
            "''demography.csv''" "[''_id'', ''value'']" "demography_rows tot"]
        show ?thesis
          using Some conv Inr by (auto simp: stage_demography_def)
      qed
    qed
  qed
qed

lemma stage_samples_shape:
  "(\<exists>a s'. stage_samples rt inp s = (Inl a, s') \<and> csv_files s' = csv_files s)
   \<or> (\<exists>samples rows s'. sample_file inp = Some samples \<and> emap resolve_sample samples = Inr rows
          \<and> stage_samples rt inp s = (Inr (), s')
          \<and> csv_files s' = AList.update ''sample.csv''
               (writeheader rt sample_fieldnames # map (writerow rt sample_fieldnames) rows) (csv_files s))"
  by (auto simp: stage_samples_def Let_def csv_files_write_csv split: option.split sum.split)

lemma csv_files_terminate: "csv_files (snd (terminate a s)) = csv_files s"
  by (cases a) (simp_all add: terminate_def)

text \<open>
  The files of a run, however it ended: the files of the stages the run got through, in
  the order of the stages, each written from what its stage computed. The parameters
  file is the last, written from the parameters left when \<^verbatim>\<open>_provider\<close> was
  deleted.
\<close>

lemma input_pipeline_files:
  "csv_files (snd (input_pipeline rt inp)) = []
   \<or> (\<exists>raw areas. subadmin_file inp = Some raw \<and> normalize_areas raw = Inr areas
        \<and> (csv_files (snd (input_pipeline rt inp)) =
             [(''sub_administrative_area.csv'',
                 writeheader rt area_fieldnames # map (writerow rt area_fieldnames) areas)]
           \<or> (\<exists>demos demos' tot. demography_file inp = Some demos
                 \<and> convert_all rt areas demos = Inr demos' \<and> aggregate rt [] demos' = Inr tot
                 \<and> (csv_files (snd (input_pipeline rt inp)) =
                      [(''sub_administrative_area.csv'',
                          writeheader rt area_fieldnames # map (writerow rt area_fieldnames) areas),
                       (''demography.csv'',
                          writeheader rt [''_id'', ''value''] #
                          map (writerow rt [''_id'', ''value'']) (demography_rows tot))]
                    \<or> (\<exists>samples samples'. sample_file inp = Some samples
                          \<and> emap resolve_sample samples = Inr samples'
                          \<and> (csv_files (snd (input_pipeline rt inp)) =
                               [(''sub_administrative_area.csv'',
                                   writeheader rt area_fieldnames # map (writerow rt area_fieldnames) areas),
                                (''demography.csv'',
                                   writeheader rt [''_id'', ''value''] #
                                   map (writerow rt [''_id'', ''value'']) (demography_rows tot)),
                                (''sample.csv'',
                                   writeheader rt sample_fieldnames #
                                   map (writerow rt sample_fieldnames) samples')]
                             \<or> (\<exists>p d. params_file inp = Some p \<and> delitem p ''_provider'' = Inr d
                                   \<and> csv_files (snd (input_pipeline rt inp)) =
                                       [(''sub_administrative_area.csv'',
                                           writeheader rt area_fieldnames #
                                           map (writerow rt area_fieldnames) areas),
                                        (''demography.csv'',
                                           writeheader rt [''_id'', ''value''] #
                                           map (writerow rt [''_id'', ''value'']) (demography_rows tot)),
                                        (''sample.csv'',
                                           writeheader rt sample_fieldnames #
                                           map (writerow rt sample_fieldnames) samples'),
                                        (''params.csv'',
                                           writeheader rt [''alpha'', ''sensitivity''] #
                                           map (writerow rt [''alpha'', ''sensitivity'']) [d])])))))))"
proof -
  from stage_params_shape [of rt inp "setup_run inp"] show ?thesis
  proof (elim disjE exE conjE)
    fix a s'
    assume "stage_params rt inp (setup_run inp) = (Inl a, s')" "csv_files s' = csv_files (setup_run inp)"
    then have "csv_files (snd (input_pipeline rt inp)) = []"
      by (simp add: input_pipeline_def csv_files_terminate)
    then show ?thesis by simp
  next
    fix p d s1
    assume p: "params_file inp = Some p" "delitem p ''_provider'' = Inr d"
      and r1: "stage_params rt inp (setup_run inp) = (Inr d, s1)"
      and "csv_files s1 = csv_files (setup_run inp)"
    then have f1: "csv_files s1 = []" by simp
    from stage_areas_shape [of rt inp s1] show ?thesis
    proof (elim disjE exE conjE)
      fix a s'
      assume "stage_areas rt inp s1 = (Inl a, s')" "csv_files s' = csv_files s1"
      with r1 f1 have "csv_files (snd (input_pipeline rt inp)) = []"
        by (simp add: input_pipeline_def csv_files_terminate)
      then show ?thesis by simp
    next
      fix raw areas s2
      assume a: "subadmin_file inp = Some raw" "normalize_areas raw = Inr areas"
        and r2: "stage_areas rt inp s1 = (Inr areas, s2)"
        and "csv_files s2 = AList.update ''sub_administrative_area.csv''
               (writeheader rt area_fieldnames # map (writerow rt area_fieldnames) areas) (csv_files s1)"
      then have f2: "csv_files s2 = [(''sub_administrative_area.csv'',
                 writeheader rt area_fieldnames # map (writerow rt area_fieldnames) areas)]"
        using f1 by simp
      from stage_demography_shape [of rt inp areas s2] show ?thesis
      proof (elim disjE exE conjE)
        fix b s'
        assume "stage_demography rt inp areas s2 = (Inl b, s')" "csv_files s' = csv_files s2"
        with r1 r2 f2 have "csv_files (snd (input_pipeline rt inp)) =
             [(''sub_administrative_area.csv'',
                 writeheader rt area_fieldnames # map (writerow rt area_fieldnames) areas)]"
          by (simp add: input_pipeline_def csv_files_terminate)
        with a show ?thesis by blast
      next
        fix demos demos' tot s3
        assume dm: "demography_file inp = Some demos" "convert_all rt areas demos = Inr demos'"
            "aggregate rt [] demos' = Inr tot"
          and r3: "stage_demography rt inp areas s2 = (Inr (), s3)"
          and "csv_files s3 = AList.update ''demography.csv''
               (writeheader rt [''_id'', ''value''] #
                map (writerow rt [''_id'', ''value'']) (demography_rows tot))
               (csv_files s2)"
        then have f3: "csv_files s3 =
             [(''sub_administrative_area.csv'',
                 writeheader rt area_fieldnames # map (writerow rt area_fieldnames) areas),
              (''demography.csv'',
                 writeheader rt [''_id'', ''value''] #
                 map (writerow rt [''_id'', ''value'']) (demography_rows tot))]"
          using f2 by simp
        from stage_samples_shape [of rt inp s3] show ?thesis
        proof (elim disjE exE conjE)
          fix b s'
          assume "stage_samples rt inp s3 = (Inl b, s')" "csv_files s' = csv_files s3"
          with r1 r2 r3 f3 have "csv_files (snd (input_pipeline rt inp)) =
             [(''sub_administrative_area.csv'',
                 writeheader rt area_fieldnames # map (writerow rt area_fieldnames) areas),
              (''demography.csv'',
                 writeheader rt [''_id'', ''value''] #
                 map (writerow rt [''_id'', ''value'']) (demography_rows tot))]"
            by (simp add: input_pipeline_def csv_files_terminate)
          with a dm show ?thesis by blast
        next
          fix samples samples' s4
          assume sm: "sample_file inp = Some samples" "emap resolve_sample samples = Inr samples'"
            and r4: "stage_samples rt inp s3 = (Inr (), s4)"
            and "csv_files s4 = AList.update ''sample.csv''
               (writeheader rt sample_fieldnames # map (writerow rt sample_fieldnames) samples') (csv_files s3)"
          then have f4: "csv_files s4 =
             [(''sub_administrative_area.csv'',
                 writeheader rt area_fieldnames # map (writerow rt area_fieldnames) areas),
              (''demography.csv'',
                 writeheader rt [''_id'', ''value''] #
                 map (writerow rt [''_id'', ''value'']) (demography_rows tot)),
              (''sample.csv'',
                 writeheader rt sample_fieldnames # map (writerow rt sample_fieldnames) samples')]"
            using f3 by simp
          have "csv_files (snd (input_pipeline rt inp)) =
             [(''sub_administrative_area.csv'',
                 writeheader rt area_fieldnames # map (writerow rt area_fieldnames) areas),
              (''demography.csv'',
                 writeheader rt [''_id'', ''value''] #
                 map (writerow rt [''_id'', ''value'']) (demography_rows tot)),
              (''sample.csv'',
                 writeheader rt sample_fieldnames # map (writerow rt sample_fieldnames) samples'),
              (''params.csv'',
                 writeheader rt [''alpha'', ''sensitivity''] #
                 map (writerow rt [''alpha'', ''sensitivity'']) [d])]"
            using r1 r2 r3 r4 f4
            by (simp add: input_pipeline_def stage_write_params_def csv_files_write_csv)
          with a dm sm p show ?thesis by blast
        qed
      qed
    qed
  qed
qed

subsection \<open>A run that reaches its end\<close>

lemma log_demography_ok:
  "emap (demo_log_line rt) ds = Inr ls \<Longrightarrow> fst (log_demography rt ds s) = Inr ()"
  by (induction ds arbitrary: s ls) (auto split: sum.splits)

lemma successful_run_files:
  assumes "params_file inp = Some p" and "provider_admin_area p = Inr a"
    and "delitem p ''_provider'' = Inr d"
    and "subadmin_file inp = Some raw" and "normalize_areas raw = Inr areas"
    and "demography_file inp = Some demos" and "convert_all rt areas demos = Inr demos'"
    and "aggregate rt [] demos' = Inr tot" and "emap (demo_log_line rt) demos' = Inr ls"
    and "sample_file inp = Some samples" and "emap resolve_sample samples = Inr samples'"
  shows "fst (input_pipeline rt inp) = 0"
    and "csv_files (snd (input_pipeline rt inp)) =
          [(''sub_administrative_area.csv'',
              writeheader rt area_fieldnames # map (writerow rt area_fieldnames) areas),
           (''demography.csv'',
              writeheader rt [''_id'', ''value''] # map (writerow rt [''_id'', ''value'']) (demography_rows tot)),
           (''sample.csv'',
              writeheader rt sample_fieldnames # map (writerow rt sample_fieldnames) samples'),
           (''params.csv'',
              [writeheader rt [''alpha'', ''sensitivity''], writerow rt [''alpha'', ''sensitivity''] d])]"
proof -
  obtain s1 where s1: "stage_params rt inp (setup_run inp) = (Inr d, s1)" "csv_files s1 = []"
    using assms(1,2,3) by (simp add: stage_params_def)
  obtain s2 where s2: "stage_areas rt inp s1 = (Inr areas, s2)"
    "csv_files s2 = [(''sub_administrative_area.csv'',
              writeheader rt area_fieldnames # map (writerow rt area_fieldnames) areas)]"
    using assms(4,5) s1(2) by (simp add: stage_areas_def csv_files_write_csv)
  let ?s = "model_log_html ''Demographic data'' ''h4'' (log_info ''Demography file loaded successfully'' s2)"
  obtain s2' where l: "log_demography rt demos' ?s = (Inr (), s2')"
    using log_demography_ok [OF assms(9), of ?s] by (cases "log_demography rt demos' ?s") simp
  with log_demography_files [of rt demos' ?s] have "csv_files s2' = csv_files s2" by simp
  then obtain s3 where s3: "stage_demography rt inp areas s2 = (Inr (), s3)"
    "csv_files s3 = [(''sub_administrative_area.csv'',
              writeheader rt area_fieldnames # map (writerow rt area_fieldnames) areas),
           (''demography.csv'',
              writeheader rt [''_id'', ''value''] # map (writerow rt [''_id'', ''value'']) (demography_rows tot))]"
    using assms(6,7,8) l s2(2) by (simp add: stage_demography_def csv_files_write_csv)
  obtain s4 where s4: "stage_samples rt inp s3 = (Inr (), s4)"
    "csv_files s4 = [(''sub_administrative_area.csv'',
              writeheader rt area_fieldnames # map (writerow rt area_fieldnames) areas),
           (''demography.csv'',
              writeheader rt [''_id'', ''value''] # map (writerow rt [''_id'', ''value'']) (demography_rows tot)),
           (''sample.csv'',
              writeheader rt sample_fieldnames # map (writerow rt sample_fieldnames) samples')]"
    using assms(10,11) s3(2) by (simp add: stage_samples_def csv_files_write_csv)
  have run: "input_pipeline rt inp = (0, stage_write_params rt d s4)"
    by (simp add: input_pipeline_def s1(1) s2(1) s3(1) s4(1))
  show "fst (input_pipeline rt inp) = 0" by (simp add: run)
  show "csv_files (snd (input_pipeline rt inp)) =
          [(''sub_administrative_area.csv'',
              writeheader rt area_fieldnames # map (writerow rt area_fieldnames) areas),
           (''demography.csv'',
              writeheader rt [''_id'', ''value''] # map (writerow rt [''_id'', ''value'']) (demography_rows tot)),
           (''sample.csv'',
              writeheader rt sample_fieldnames # map (writerow rt sample_fieldnames) samples'),
           (''params.csv'',
              [writeheader rt [''alpha'', ''sensitivity''], writerow rt [''alpha'', ''sensitivity''] d])]"
    by (simp add: run stage_write_params_def csv_files_write_csv s4(2))
qed

subsection \<open>The example run\<close>

lemma full_run_params:
  "provider_admin_area full_params = Inr (JStr ''New York'')"
  "delitem full_params ''_provider'' =
     Inr [(''alpha'', JFloat (Fin (1 / 20))), (''sensitivity'', JFloat (Fin (9 / 10))), (''beta'', JInt 3)]"
  by (simp_all add: full_params_def provider_admin_area_def)

lemma full_run_areas:
  "normalize_areas [JObj area_A, JObj area_A2, JObj area_B] = Inr [area_A, area_A2, area_B]"
  by (simp add: normalize_areas_def project_area_def area_A_def area_A2_def area_B_def)

lemma full_run_totals:
  "aggregate ref_runtime []
     [JObj [(''species'', JStr ''deer''), (''metric'', JStr ''total population (converted from density)''),
            (''season_year'', JStr ''2024''),
            (''data'', JObj [(''A'', JInt 10), (''B'', JInt 2), (''Z'', JFloat (Fin 7))])],
      population_record ''Z'' 3] =
   Inr [(''A'', JInt 10), (''B'', JInt 2), (''Z'', JFloat (Fin 10))]"
  by (simp add: population_record_def agg_step_def py_iadd_def py_add_def ref_runtime_def)

lemma full_run_lines:
  "emap (demo_log_line ref_runtime)
     [JObj [(''species'', JStr ''deer''), (''metric'', JStr ''total population (converted from density)''),
            (''season_year'', JStr ''2024''),
            (''data'', JObj [(''A'', JInt 10), (''B'', JInt 2), (''Z'', JFloat (Fin 7))])],
      population_record ''Z'' 3] =
   Inr [''deer total population (converted from density) for season-year 2024'',
        ''deer total population for season-year 2024'']"
  by (simp add: population_record_def demo_log_line_def py_format_def)

lemma full_run_samples:
  "emap resolve_sample [JObj (sample_with [test_off, test_pos])] =
     Inr [[(''result'', JStr ''positive''), (''tests'', JArr [test_off, test_pos]),
           (''sub_administrative_area_id'', JNull), (''id'', JStr ''s1'')]]"
  by (simp add: resolve_sample_def tests_selected_definitive_def is_selected_def eq_True_def
      resolve_area_def rename_key_def sample_with_def test_off_def test_pos_def)

lemma full_run_files:
  "csv_files (snd (input_pipeline ref_runtime full_run)) =
     [(''sub_administrative_area.csv'',
         [[Quoted ''_id'', Quoted ''full_name'', Quoted ''name'', Quoted ''aland''],
          [Quoted ''A'', Quoted ''Albany County'', Quoted ''Albany'', Unquoted ''2000000''],
          [Quoted ''A'', Quoted ''Albany again'', Quoted ''Albany'', Unquoted ''7000000''],
          [Quoted ''B'', Quoted ''Broome County'', Quoted ''Broome'', Unquoted ''1000000.0'']]),
      (''demography.csv'',
         [[Quoted ''_id'', Quoted ''value''],
          [Quoted ''A'', Unquoted ''10''],
          [Quoted ''B'', Unquoted ''2''],
          [Quoted ''Z'', Unquoted ''10.0'']]),
      (''sample.csv'',
         [[Quoted ''id'', Quoted ''species'', Quoted ''sample_source'', Quoted ''season_year'',
           Quoted ''age_group'', Quoted ''sex'', Quoted ''result'', Quoted ''sub_administrative_area_id''],
          [Quoted ''s1'', Quoted [], Quoted [], Quoted [], Quoted [], Quoted [], Quoted ''positive'',
           Quoted []]]),
      (''params.csv'',
         [[Quoted ''alpha'', Quoted ''sensitivity''],
          [Unquoted ''0.05'', Unquoted ''0.9'']])]"
proof -
  have 1: "params_file full_run = Some full_params"
    and 4: "subadmin_file full_run = Some [JObj area_A, JObj area_A2, JObj area_B]"
    and 6: "demography_file full_run = Some [JObj density_record, population_record ''Z'' 3]"
    and 10: "sample_file full_run = Some [JObj (sample_with [test_off, test_pos])]"
    by (simp_all add: full_run_def)
  have wf: "write_field ref_runtime v =
      (if is_number v then Unquoted (case v of JStr s \<Rightarrow> s | JNull \<Rightarrow> [] | _ \<Rightarrow> py_str ref_runtime v)
       else Quoted (case v of JStr s \<Rightarrow> s | JNull \<Rightarrow> [] | _ \<Rightarrow> py_str ref_runtime v))" for v
    by (simp add: write_field_def)
  show ?thesis
    unfolding successful_run_files(2) [OF 1 full_run_params 4 full_run_areas 6 convert_all_example
        full_run_totals full_run_lines 10 full_run_samples]
    by (simp add: writeheader_eq writerow_def dict_to_list_def wf is_number_def demography_rows_def
        area_fieldnames_def sample_fieldnames_def area_A_def area_A2_def area_B_def
        ref_str_values ref_str_floats)
qed

subsection \<open>Quoting in the tabular files\<close>

lemma is_quoted_write_field: "is_quoted (write_field rt v) = (\<not> is_number v)"
  by (simp add: write_field_def is_quoted_def Let_def)

text \<open>
  C6, as the specification states it, does not hold: the example run writes the integers 10 and 2 and the
  float 10.0 of the demography totals without quotes.
\<close>

theorem numbers_written_unquoted_counterexample:
  "map_of (csv_files (snd (input_pipeline ref_runtime full_run))) ''demography.csv'' =
     Some [[Quoted ''_id'', Quoted ''value''],
           [Quoted ''A'', Unquoted ''10''],
           [Quoted ''B'', Unquoted ''2''],
           [Quoted ''Z'', Unquoted ''10.0'']]
   \<and> \<not> all_quoted [[Quoted ''_id'', Quoted ''value''],
           [Quoted ''A'', Unquoted ''10''],
           [Quoted ''B'', Unquoted ''2''],
           [Quoted ''Z'', Unquoted ''10.0'']]"
  by (simp add: full_run_files all_quoted_def is_quoted_def)

text \<open>
  C6, amended. Take any tabular file a run of the input script has written, however the
  run ended. The file is the quoted field names of its writer followed by one row per
  dictionary its stage computed from the input: the normalized areas, the totals of the
  converted demography, the resolved samples, or the parameters left when
  \<^verbatim>\<open>_provider\<close> was deleted. Each field of a row is written from the value the
  dictionary has under the field name (from the empty string when it has none), and a
  field is quoted exactly when that value is not a number: an integer, a float or a
  boolean is written without quotes. \<^verbatim>\<open>None\<close> is written as the empty quoted field
  (two double quotes in the file).
\<close>

theorem fields_quoted_unless_numeric:
  assumes "(name, tab) \<in> set (csv_files (snd (input_pipeline rt inp)))"
  shows "\<exists>fns rows.
           tab = map Quoted fns #
                 map (\<lambda>d. map (\<lambda>k. write_field rt (case map_of d k of None \<Rightarrow> JStr [] | Some v \<Rightarrow> v)) fns) rows
         \<and> (name = ''sub_administrative_area.csv'' \<and> fns = area_fieldnames
              \<and> (\<exists>raw. subadmin_file inp = Some raw \<and> normalize_areas raw = Inr rows)
            \<or> name = ''demography.csv'' \<and> fns = [''_id'', ''value'']
              \<and> (\<exists>raw areas demos demos' tot.
                    subadmin_file inp = Some raw \<and> normalize_areas raw = Inr areas
                  \<and> demography_file inp = Some demos \<and> convert_all rt areas demos = Inr demos'
                  \<and> aggregate rt [] demos' = Inr tot \<and> rows = demography_rows tot)
            \<or> name = ''sample.csv'' \<and> fns = sample_fieldnames
              \<and> (\<exists>samples. sample_file inp = Some samples \<and> emap resolve_sample samples = Inr rows)
            \<or> name = ''params.csv'' \<and> fns = [''alpha'', ''sensitivity'']
              \<and> (\<exists>p d. params_file inp = Some p \<and> delitem p ''_provider'' = Inr d \<and> rows = [d]))
         \<and> (\<forall>v. is_quoted (write_field rt v) = (\<not> is_number v))
         \<and> (\<forall>v. is_number v = ((\<exists>i. v = JInt i) \<or> (\<exists>x. v = JFloat x) \<or> (\<exists>b. v = JBool b)))
         \<and> write_field rt JNull = Quoted []
         \<and> render_cell (write_field rt JNull) = [CHR 0x22, CHR 0x22]"
proof -
  have num: "is_number v = ((\<exists>i. v = JInt i) \<or> (\<exists>x. v = JFloat x) \<or> (\<exists>b. v = JBool b))" for v
    by (cases v) (simp_all add: is_number_def)
  have r1: "\<forall>v. is_quoted (write_field rt v) = (\<not> is_number v)"
    by (simp add: is_quoted_write_field)
  have r2: "\<forall>v. is_number v = ((\<exists>i. v = JInt i) \<or> (\<exists>x. v = JFloat x) \<or> (\<exists>b. v = JBool b))"
    using num by blast
  have r3: "write_field rt JNull = Quoted []"
    by (rule write_field_JNull)
  have r4: "render_cell (write_field rt JNull) = [CHR 0x22, CHR 0x22]"
    by (simp add: write_field_JNull render_cell_def)
  have main: "\<exists>fns rows.
           tab = writeheader rt fns # map (writerow rt fns) rows
         \<and> (name = ''sub_administrative_area.csv'' \<and> fns = area_fieldnames
              \<and> (\<exists>raw. subadmin_file inp = Some raw \<and> normalize_areas raw = Inr rows)
            \<or> name = ''demography.csv'' \<and> fns = [''_id'', ''value'']
              \<and> (\<exists>raw areas demos demos' tot.
                    subadmin_file inp = Some raw \<and> normalize_areas raw = Inr areas
                  \<and> demography_file inp = Some demos \<and> convert_all rt areas demos = Inr demos'
                  \<and> aggregate rt [] demos' = Inr tot \<and> rows = demography_rows tot)
            \<or> name = ''sample.csv'' \<and> fns = sample_fieldnames
              \<and> (\<exists>samples. sample_file inp = Some samples \<and> emap resolve_sample samples = Inr rows)
            \<or> name = ''params.csv'' \<and> fns = [''alpha'', ''sensitivity'']
              \<and> (\<exists>p d. params_file inp = Some p \<and> delitem p ''_provider'' = Inr d \<and> rows = [d]))"
  proof -
    have A: ?thesis
      if "name = ''sub_administrative_area.csv''"
        "tab = writeheader rt area_fieldnames # map (writerow rt area_fieldnames) areas"
        "subadmin_file inp = Some raw" "normalize_areas raw = Inr areas" for raw areas
      apply (rule exI [of _ area_fieldnames])
      apply (rule exI [of _ areas])
      apply (rule conjI)
       apply (rule that(2))
      apply (rule disjI1)
      using that by simp
    have B: ?thesis
      if "name = ''demography.csv''"
        "tab = writeheader rt [''_id'', ''value''] # map (writerow rt [''_id'', ''value'']) (demography_rows tot)"
        "subadmin_file inp = Some raw" "normalize_areas raw = Inr areas"
        "demography_file inp = Some demos" "convert_all rt areas demos = Inr demos'"
        "aggregate rt [] demos' = Inr tot" for raw areas demos demos' tot
      apply (rule exI [of _ "[''_id'', ''value'']"])
      apply (rule exI [of _ "demography_rows tot"])
      apply (rule conjI)
       apply (rule that(2))
      apply (rule disjI2)
      apply (rule disjI1)
      using that by simp
    have C: ?thesis
      if "name = ''sample.csv''"
        "tab = writeheader rt sample_fieldnames # map (writerow rt sample_fieldnames) samples'"
        "sample_file inp = Some samples" "emap resolve_sample samples = Inr samples'" for samples samples'
      apply (rule exI [of _ sample_fieldnames])
      apply (rule exI [of _ samples'])
      apply (rule conjI)
       apply (rule that(2))
      apply (rule disjI2)
      apply (rule disjI2)
      apply (rule disjI1)
      using that by simp
    have D: ?thesis
      if "name = ''params.csv''"
        "tab = writeheader rt [''alpha'', ''sensitivity''] # map (writerow rt [''alpha'', ''sensitivity'']) [d]"
        "params_file inp = Some p" "delitem p ''_provider'' = Inr d" for p d
      apply (rule exI [of _ "[''alpha'', ''sensitivity'']"])
      apply (rule exI [of _ "[d]"])
      apply (rule conjI)
       apply (rule that(2))
      apply (rule disjI2)
      apply (rule disjI2)
      apply (rule disjI2)
      using that by simp
    from input_pipeline_files [of rt inp] show ?thesis
    proof (elim disjE exE conjE)
      assume "csv_files (snd (input_pipeline rt inp)) = []"
      with assms show ?thesis by simp
    next
      fix raw areas
      assume a: "subadmin_file inp = Some raw" "normalize_areas raw = Inr areas"
        and "csv_files (snd (input_pipeline rt inp)) =
             [(''sub_administrative_area.csv'',
                 writeheader rt area_fieldnames # map (writerow rt area_fieldnames) areas)]"
      with assms have "name = ''sub_administrative_area.csv''"
        "tab = writeheader rt area_fieldnames # map (writerow rt area_fieldnames) areas"
        by simp_all
      then show ?thesis using a by (rule A)
    next
      fix raw areas demos demos' tot
      assume a: "subadmin_file inp = Some raw" "normalize_areas raw = Inr areas"
        and dm: "demography_file inp = Some demos" "convert_all rt areas demos = Inr demos'"
          "aggregate rt [] demos' = Inr tot"
        and "csv_files (snd (input_pipeline rt inp)) =
             [(''sub_administrative_area.csv'',
                 writeheader rt area_fieldnames # map (writerow rt area_fieldnames) areas),
              (''demography.csv'',
                 writeheader rt [''_id'', ''value''] #
                 map (writerow rt [''_id'', ''value'']) (demography_rows tot))]"
      with assms have
        "name = ''sub_administrative_area.csv'' \<and>
           tab = writeheader rt area_fieldnames # map (writerow rt area_fieldnames) areas
         \<or> name = ''demography.csv'' \<and>
           tab = writeheader rt [''_id'', ''value''] # map (writerow rt [''_id'', ''value'']) (demography_rows tot)"
        by auto
      then show ?thesis
        using A [OF _ _ a] B [OF _ _ a dm] by blast
    next
      fix raw areas demos demos' tot samples samples'
      assume a: "subadmin_file inp = Some raw" "normalize_areas raw = Inr areas"
        and dm: "demography_file inp = Some demos" "convert_all rt areas demos = Inr demos'"
          "aggregate rt [] demos' = Inr tot"
        and sm: "sample_file inp = Some samples" "emap resolve_sample samples = Inr samples'"
        and "csv_files (snd (input_pipeline rt inp)) =
             [(''sub_administrative_area.csv'',
                 writeheader rt area_fieldnames # map (writerow rt area_fieldnames) areas),
              (''demography.csv'',
                 writeheader rt [''_id'', ''value''] #
                 map (writerow rt [''_id'', ''value'']) (demography_rows tot)),
              (''sample.csv'',
                 writeheader rt sample_fieldnames # map (writerow rt sample_fieldnames) samples')]"
      with assms have
        "name = ''sub_administrative_area.csv'' \<and>
           tab = writeheader rt area_fieldnames # map (writerow rt area_fieldnames) areas
         \<or> name = ''demography.csv'' \<and>
           tab = writeheader rt [''_id'', ''value''] # map (writerow rt [''_id'', ''value'']) (demography_rows tot)
         \<or> name = ''sample.csv'' \<and>
           tab = writeheader rt sample_fieldnames # map (writerow rt sample_fieldnames) samples'"
        by auto
      then show ?thesis
        using A [OF _ _ a] B [OF _ _ a dm] C [OF _ _ sm] by blast
    next
      fix raw areas demos demos' tot samples samples' p d
      assume a: "subadmin_file inp = Some raw" "normalize_areas raw = Inr areas"
        and dm: "demography_file inp = Some demos" "convert_all rt areas demos = Inr demos'"
          "aggregate rt [] demos' = Inr tot"
        and sm: "sample_file inp = Some samples" "emap resolve_sample samples = Inr samples'"
        and pr: "params_file inp = Some p" "delitem p ''_provider'' = Inr d"
        and "csv_files (snd (input_pipeline rt inp)) =
             [(''sub_administrative_area.csv'',
                 writeheader rt area_fieldnames # map (writerow rt area_fieldnames) areas),
              (''demography.csv'',
                 writeheader rt [''_id'', ''value''] #
                 map (writerow rt [''_id'', ''value'']) (demography_rows tot)),
              (''sample.csv'',
                 writeheader rt sample_fieldnames # map (writerow rt sample_fieldnames) samples'),
              (''params.csv'',
                 writeheader rt [''alpha'', ''sensitivity''] #
                 map (writerow rt [''alpha'', ''sensitivity'']) [d])]"
      with assms have
        "name = ''sub_administrative_area.csv'' \<and>
           tab = writeheader rt area_fieldnames # map (writerow rt area_fieldnames) areas
         \<or> name = ''demography.csv'' \<and>
           tab = writeheader rt [''_id'', ''value''] # map (writerow rt [''_id'', ''value'']) (demography_rows tot)
         \<or> name = ''sample.csv'' \<and>
           tab = writeheader rt sample_fieldnames # map (writerow rt sample_fieldnames) samples'
         \<or> name = ''params.csv'' \<and>
           tab = writeheader rt [''alpha'', ''sensitivity''] # map (writerow rt [''alpha'', ''sensitivity'']) [d]"
        by auto
      then show ?thesis
        using A [OF _ _ a] B [OF _ _ a dm] C [OF _ _ sm] D [OF _ _ pr] by blast
    qed
  qed
  then obtain fns rows where
    t: "tab = writeheader rt fns # map (writerow rt fns) rows"
    and src: "name = ''sub_administrative_area.csv'' \<and> fns = area_fieldnames
              \<and> (\<exists>raw. subadmin_file inp = Some raw \<and> normalize_areas raw = Inr rows)
            \<or> name = ''demography.csv'' \<and> fns = [''_id'', ''value'']
              \<and> (\<exists>raw areas demos demos' tot.
                    subadmin_file inp = Some raw \<and> normalize_areas raw = Inr areas
                  \<and> demography_file inp = Some demos \<and> convert_all rt areas demos = Inr demos'
                  \<and> aggregate rt [] demos' = Inr tot \<and> rows = demography_rows tot)
            \<or> name = ''sample.csv'' \<and> fns = sample_fieldnames
              \<and> (\<exists>samples. sample_file inp = Some samples \<and> emap resolve_sample samples = Inr rows)
            \<or> name = ''params.csv'' \<and> fns = [''alpha'', ''sensitivity'']
              \<and> (\<exists>p d. params_file inp = Some p \<and> delitem p ''_provider'' = Inr d \<and> rows = [d])"
    by (elim exE conjE) (rule that)
  from t have "tab = map Quoted fns #
                 map (\<lambda>d. map (\<lambda>k. write_field rt (case map_of d k of None \<Rightarrow> JStr [] | Some v \<Rightarrow> v)) fns) rows"
    by (simp only: table_layout)
  with src r1 r2 r3 r4 show ?thesis
    by (intro exI [of _ fns] exI [of _ rows] conjI)
qed

theorem fields_quoted_unless_numeric_witness:
  "(''demography.csv'',
      [[Quoted ''_id'', Quoted ''value''], [Quoted ''A'', Unquoted ''10''], [Quoted ''B'', Unquoted ''2''],
       [Quoted ''Z'', Unquoted ''10.0'']])
     \<in> set (csv_files (snd (input_pipeline ref_runtime full_run)))
   \<and> (\<exists>demos' tot.
         convert_all ref_runtime [area_A, area_A2, area_B] [JObj density_record, population_record ''Z'' 3]
           = Inr demos'
       \<and> aggregate ref_runtime [] demos' = Inr tot
       \<and> tot = [(''A'', JInt 10), (''B'', JInt 2), (''Z'', JFloat (Fin 10))]
       \<and> [[Quoted ''_id'', Quoted ''value''], [Quoted ''A'', Unquoted ''10''], [Quoted ''B'', Unquoted ''2''],
          [Quoted ''Z'', Unquoted ''10.0'']] =
         map Quoted [''_id'', ''value''] #
         map (\<lambda>d. map (\<lambda>k. write_field ref_runtime (case map_of d k of None \<Rightarrow> JStr [] | Some v \<Rightarrow> v))
                    [''_id'', ''value''])
           (demography_rows tot))
   \<and> \<not> is_quoted (write_field ref_runtime (JInt 10))
   \<and> \<not> is_quoted (write_field ref_runtime (JFloat (Fin 10)))
   \<and> is_quoted (write_field ref_runtime (JStr ''Z''))
   \<and> write_field ref_runtime JNull = Quoted []
   \<and> render_cell (write_field ref_runtime JNull) = [CHR 0x22, CHR 0x22]"
proof -
  let ?tab = "[[Quoted ''_id'', Quoted ''value''], [Quoted ''A'', Unquoted ''10''], [Quoted ''B'', Unquoted ''2''],
       [Quoted ''Z'', Unquoted ''10.0'']]"
  have h: "(''demography.csv'', ?tab) \<in> set (csv_files (snd (input_pipeline ref_runtime full_run)))"
    by (simp add: full_run_files)
  have i: "subadmin_file full_run = Some [JObj area_A, JObj area_A2, JObj area_B]"
    "demography_file full_run = Some [JObj density_record, population_record ''Z'' 3]"
    by (simp_all add: full_run_def)
  from fields_quoted_unless_numeric [OF h] obtain fns rows where
    t: "?tab = map Quoted fns #
                 map (\<lambda>d. map (\<lambda>k. write_field ref_runtime (case map_of d k of None \<Rightarrow> JStr [] | Some v \<Rightarrow> v)) fns) rows"
    and src: "''demography.csv'' = ''sub_administrative_area.csv'' \<and> fns = area_fieldnames
              \<and> (\<exists>raw. subadmin_file full_run = Some raw \<and> normalize_areas raw = Inr rows)
            \<or> ''demography.csv'' = ''demography.csv'' \<and> fns = [''_id'', ''value'']
              \<and> (\<exists>raw areas demos demos' tot.
                    subadmin_file full_run = Some raw \<and> normalize_areas raw = Inr areas
                  \<and> demography_file full_run = Some demos \<and> convert_all ref_runtime areas demos = Inr demos'
                  \<and> aggregate ref_runtime [] demos' = Inr tot \<and> rows = demography_rows tot)
            \<or> ''demography.csv'' = ''sample.csv'' \<and> fns = sample_fieldnames
              \<and> (\<exists>samples. sample_file full_run = Some samples \<and> emap resolve_sample samples = Inr rows)
            \<or> ''demography.csv'' = ''params.csv'' \<and> fns = [''alpha'', ''sensitivity'']
              \<and> (\<exists>p d. params_file full_run = Some p \<and> delitem p ''_provider'' = Inr d \<and> rows = [d])"
    and q: "\<forall>v. is_quoted (write_field ref_runtime v) = (\<not> is_number v)"
    and n: "write_field ref_runtime JNull = Quoted []"
           "render_cell (write_field ref_runtime JNull) = [CHR 0x22, CHR 0x22]"
    by (elim exE conjE) (rule that)
  from src have fns: "fns = [''_id'', ''value'']"
    and "\<exists>raw areas demos demos' tot.
                    subadmin_file full_run = Some raw \<and> normalize_areas raw = Inr areas
                  \<and> demography_file full_run = Some demos \<and> convert_all ref_runtime areas demos = Inr demos'
                  \<and> aggregate ref_runtime [] demos' = Inr tot \<and> rows = demography_rows tot"
    by simp_all
  then obtain raw areas demos demos' tot where
    r: "subadmin_file full_run = Some raw" "normalize_areas raw = Inr areas"
       "demography_file full_run = Some demos" "convert_all ref_runtime areas demos = Inr demos'"
       "aggregate ref_runtime [] demos' = Inr tot" "rows = demography_rows tot"
    by (elim exE conjE) (rule that)
  from r(1) i(1) have "raw = [JObj area_A, JObj area_A2, JObj area_B]" by simp
  with r(2) have ar: "areas = [area_A, area_A2, area_B]" by (simp add: full_run_areas)
  from r(3) i(2) have dm: "demos = [JObj density_record, population_record ''Z'' 3]" by simp
  from r(4) have cv: "convert_all ref_runtime [area_A, area_A2, area_B]
                        [JObj density_record, population_record ''Z'' 3] = Inr demos'"
    by (simp only: ar dm)
  then have "demos' =
     [JObj [(''species'', JStr ''deer''), (''metric'', JStr ''total population (converted from density)''),
            (''season_year'', JStr ''2024''),
            (''data'', JObj [(''A'', JInt 10), (''B'', JInt 2), (''Z'', JFloat (Fin 7))])],
      population_record ''Z'' 3]"
    by (simp add: convert_all_example)
  with r(5) have "aggregate ref_runtime []
     [JObj [(''species'', JStr ''deer''), (''metric'', JStr ''total population (converted from density)''),
            (''season_year'', JStr ''2024''),
            (''data'', JObj [(''A'', JInt 10), (''B'', JInt 2), (''Z'', JFloat (Fin 7))])],
      population_record ''Z'' 3] = Inr tot"
    by (simp only:)
  then have tot: "tot = [(''A'', JInt 10), (''B'', JInt 2), (''Z'', JFloat (Fin 10))]"
    by (simp only: full_run_totals sum.inject)
  have t': "?tab =
         map Quoted [''_id'', ''value''] #
         map (\<lambda>d. map (\<lambda>k. write_field ref_runtime (case map_of d k of None \<Rightarrow> JStr [] | Some v \<Rightarrow> v))
                    [''_id'', ''value''])
           (demography_rows tot)"
    using t by (simp only: fns r(6))
  have q1: "\<not> is_quoted (write_field ref_runtime (JInt 10))"
    using q [rule_format, of "JInt 10"] by (simp add: is_number_def)
  have q2: "\<not> is_quoted (write_field ref_runtime (JFloat (Fin 10)))"
    using q [rule_format, of "JFloat (Fin 10)"] by (simp add: is_number_def)
  have q3: "is_quoted (write_field ref_runtime (JStr ''Z''))"
    using q [rule_format, of "JStr ''Z''"] by (simp add: is_number_def)
  from cv r(5) tot t' have "\<exists>demos' tot.
         convert_all ref_runtime [area_A, area_A2, area_B] [JObj density_record, population_record ''Z'' 3]
           = Inr demos'
       \<and> aggregate ref_runtime [] demos' = Inr tot
       \<and> tot = [(''A'', JInt 10), (''B'', JInt 2), (''Z'', JFloat (Fin 10))]
       \<and> ?tab =
         map Quoted [''_id'', ''value''] #
         map (\<lambda>d. map (\<lambda>k. write_field ref_runtime (case map_of d k of None \<Rightarrow> JStr [] | Some v \<Rightarrow> v))
                    [''_id'', ''value''])
           (demography_rows tot)"
    by (intro exI [of _ demos'] exI [of _ tot] conjI)
  with h q1 q2 q3 n show ?thesis
    by (intro conjI)
qed

subsection \<open>The parameters file\<close>

lemma delitem_JObj:
  "delitem p k = Inr d' \<Longrightarrow> \<exists>d. p = JObj d \<and> d' = AList.delete k d"
  by (cases p) (auto split: if_splits)

text \<open>
  C7, as the specification states it, does not hold: in the example run the parameter \<^verbatim>\<open>beta\<close> is left
  after \<^verbatim>\<open>_provider\<close> is deleted, and the parameters file has neither its name nor its
  value.
\<close>

theorem extra_parameter_not_written_counterexample:
  "params_file full_run = Some full_params
   \<and> getitem full_params ''beta'' = Inr (JInt 3)
   \<and> map_of (csv_files (snd (input_pipeline ref_runtime full_run))) ''params.csv'' =
       Some [[Quoted ''alpha'', Quoted ''sensitivity''], [Unquoted ''0.05'', Unquoted ''0.9'']]
   \<and> \<not> field_written ref_runtime
         [[Quoted ''alpha'', Quoted ''sensitivity''], [Unquoted ''0.05'', Unquoted ''0.9'']]
         ''beta'' (JInt 3)"
proof -
  have "params_file full_run = Some full_params" by (simp add: full_run_def)
  moreover have "getitem full_params ''beta'' = Inr (JInt 3)" by (simp add: full_params_def)
  moreover have "map_of (csv_files (snd (input_pipeline ref_runtime full_run))) ''params.csv'' =
       Some [[Quoted ''alpha'', Quoted ''sensitivity''], [Unquoted ''0.05'', Unquoted ''0.9'']]"
    by (simp add: full_run_files)
  moreover have "\<not> field_written ref_runtime
         [[Quoted ''alpha'', Quoted ''sensitivity''], [Unquoted ''0.05'', Unquoted ''0.9'']]
         ''beta'' (JInt 3)"
    by (simp add: field_written_def)
  ultimately show ?thesis by (intro conjI)
qed

text \<open>
  C7, amended. Whenever a run has written the parameters file, the parameter set is a
  dictionary and the file has exactly the two columns \<^verbatim>\<open>alpha\<close> and
  \<^verbatim>\<open>sensitivity\<close>: their quoted names, then one row with the value of each as the
  writer writes it, or the empty quoted field for one that is absent. No other field of
  the parameter set appears in the file.
\<close>

theorem params_file_has_two_columns:
  assumes "params_file inp = Some p"
    and "map_of (csv_files (snd (input_pipeline rt inp))) ''params.csv'' = Some tab"
  shows "\<exists>d. p = JObj d
           \<and> tab = [[Quoted ''alpha'', Quoted ''sensitivity''],
                    [write_field rt (case map_of d ''alpha'' of None \<Rightarrow> JStr [] | Some v \<Rightarrow> v),
                     write_field rt (case map_of d ''sensitivity'' of None \<Rightarrow> JStr [] | Some v \<Rightarrow> v)]]
           \<and> (\<forall>k v. k \<noteq> ''alpha'' \<longrightarrow> k \<noteq> ''sensitivity'' \<longrightarrow> \<not> field_written rt tab k v)"
proof -
  have none: "map_of (csv_files (snd (input_pipeline rt inp))) ''params.csv'' \<noteq> Some tab"
    if "csv_files (snd (input_pipeline rt inp)) = fs" "map_of fs ''params.csv'' = None" for fs
    using that by simp
  from input_pipeline_files [of rt inp] obtain p' d' where
    p': "params_file inp = Some p'" "delitem p' ''_provider'' = Inr d'"
    and tab: "tab = [writeheader rt [''alpha'', ''sensitivity''],
                    writerow rt [''alpha'', ''sensitivity''] d']"
  proof (elim disjE exE conjE)
    assume "csv_files (snd (input_pipeline rt inp)) = []"
    from none [OF this] assms(2) show ?thesis by simp
  next
    fix raw areas
    assume "csv_files (snd (input_pipeline rt inp)) =
             [(''sub_administrative_area.csv'',
                 writeheader rt area_fieldnames # map (writerow rt area_fieldnames) areas)]"
    from none [OF this] assms(2) show ?thesis by simp
  next
    fix raw areas demos demos' tot
    assume "csv_files (snd (input_pipeline rt inp)) =
             [(''sub_administrative_area.csv'',
                 writeheader rt area_fieldnames # map (writerow rt area_fieldnames) areas),
              (''demography.csv'',
                 writeheader rt [''_id'', ''value''] #
                 map (writerow rt [''_id'', ''value'']) (demography_rows tot))]"
    from none [OF this] assms(2) show ?thesis by simp
  next
    fix raw areas demos demos' tot samples samples'
    assume "csv_files (snd (input_pipeline rt inp)) =
             [(''sub_administrative_area.csv'',
                 writeheader rt area_fieldnames # map (writerow rt area_fieldnames) areas),
              (''demography.csv'',
                 writeheader rt [''_id'', ''value''] #
                 map (writerow rt [''_id'', ''value'']) (demography_rows tot)),
              (''sample.csv'',
                 writeheader rt sample_fieldnames # map (writerow rt sample_fieldnames) samples')]"
    from none [OF this] assms(2) show ?thesis by simp
  next
    fix raw areas demos demos' tot samples samples' p' d'
    assume pr: "params_file inp = Some p'" "delitem p' ''_provider'' = Inr d'"
      and f: "csv_files (snd (input_pipeline rt inp)) =
             [(''sub_administrative_area.csv'',
                 writeheader rt area_fieldnames # map (writerow rt area_fieldnames) areas),
              (''demography.csv'',
                 writeheader rt [''_id'', ''value''] #
                 map (writerow rt [''_id'', ''value'']) (demography_rows tot)),
              (''sample.csv'',
                 writeheader rt sample_fieldnames # map (writerow rt sample_fieldnames) samples'),
              (''params.csv'',
                 writeheader rt [''alpha'', ''sensitivity''] #
                 map (writerow rt [''alpha'', ''sensitivity'']) [d'])]"
    from assms(2) have "tab = [writeheader rt [''alpha'', ''sensitivity''],
                    writerow rt [''alpha'', ''sensitivity''] d']"
      unfolding f by simp
    with pr show ?thesis by (rule that)
  qed
  from p'(1) assms(1) have "p' = p" by simp
  with delitem_JObj [OF p'(2)] obtain d where d: "p = JObj d" "d' = AList.delete ''_provider'' d"
    by blast
  have look: "map_of d' ''alpha'' = map_of d ''alpha''" "map_of d' ''sensitivity'' = map_of d ''sensitivity''"
    by (simp_all add: d(2) delete_conv')
  have tab': "tab = [[Quoted ''alpha'', Quoted ''sensitivity''],
                    [write_field rt (case map_of d ''alpha'' of None \<Rightarrow> JStr [] | Some v \<Rightarrow> v),
                     write_field rt (case map_of d ''sensitivity'' of None \<Rightarrow> JStr [] | Some v \<Rightarrow> v)]]"
    by (simp add: tab writeheader_eq writerow_def dict_to_list_def look)
  have "\<not> field_written rt tab k v" if "k \<noteq> ''alpha''" "k \<noteq> ''sensitivity''" for k v
    using that by (simp add: tab' field_written_def)
  with d(1) tab' show ?thesis by blast
qed

theorem params_file_has_two_columns_witness:
  "params_file full_run = Some full_params
   \<and> map_of (csv_files (snd (input_pipeline ref_runtime full_run))) ''params.csv'' =
       Some [[Quoted ''alpha'', Quoted ''sensitivity''], [Unquoted ''0.05'', Unquoted ''0.9'']]
   \<and> (\<exists>d. full_params = JObj d
         \<and> [[Quoted ''alpha'', Quoted ''sensitivity''], [Unquoted ''0.05'', Unquoted ''0.9'']] =
             [[Quoted ''alpha'', Quoted ''sensitivity''],
              [write_field ref_runtime (case map_of d ''alpha'' of None \<Rightarrow> JStr [] | Some v \<Rightarrow> v),
               write_field ref_runtime (case map_of d ''sensitivity'' of None \<Rightarrow> JStr [] | Some v \<Rightarrow> v)]]
         \<and> \<not> field_written ref_runtime
               [[Quoted ''alpha'', Quoted ''sensitivity''], [Unquoted ''0.05'', Unquoted ''0.9'']]
               ''beta'' (JInt 3))"
proof -
  have h1: "params_file full_run = Some full_params" by (simp add: full_run_def)
  have h2: "map_of (csv_files (snd (input_pipeline ref_runtime full_run))) ''params.csv'' =
       Some [[Quoted ''alpha'', Quoted ''sensitivity''], [Unquoted ''0.05'', Unquoted ''0.9'']]"
    by (simp add: full_run_files)
  from params_file_has_two_columns [OF h1 h2] obtain d where
    d: "full_params = JObj d"
       "[[Quoted ''alpha'', Quoted ''sensitivity''], [Unquoted ''0.05'', Unquoted ''0.9'']] =
             [[Quoted ''alpha'', Quoted ''sensitivity''],
              [write_field ref_runtime (case map_of d ''alpha'' of None \<Rightarrow> JStr [] | Some v \<Rightarrow> v),
               write_field ref_runtime (case map_of d ''sensitivity'' of None \<Rightarrow> JStr [] | Some v \<Rightarrow> v)]]"
    and others: "\<And>k v. k \<noteq> ''alpha'' \<Longrightarrow> k \<noteq> ''sensitivity'' \<Longrightarrow>
       \<not> field_written ref_runtime
           [[Quoted ''alpha'', Quoted ''sensitivity''], [Unquoted ''0.05'', Unquoted ''0.9'']] k v"
    by blast
  have "\<not> field_written ref_runtime
           [[Quoted ''alpha'', Quoted ''sensitivity''], [Unquoted ''0.05'', Unquoted ''0.9'']]
           ''beta'' (JInt 3)"
    by (rule others) simp_all
  with h1 h2 d show ?thesis by blast
qed

end
